theory Spec2Isabelle
  imports Complex_Main "HOL-Library.Sublist"
begin

chapter \<open>The Kaminario K2 volume driver (kaminario\_common.py)\<close>

text \<open>
  A shallow embedding of \<^verbatim>\<open>cinder/volume/drivers/kaminario/kaminario_common.py\<close>.
  Python names that start with an underscore lose it (\<^verbatim>\<open>_delete_by_ref\<close> is
  \<open>delete_by_ref\<close>): an Isabelle name cannot start with one.
\<close>

section \<open>Name derivation (lines 604--642)\<close>

text \<open>
  Identifiers and names are Python strings; \<^verbatim>\<open>"cvg-{0}".format(vid)\<close> is the prefix
  followed by the identifier.
\<close>

definition get_volume_group_name :: "string \<Rightarrow> string" where
  "get_volume_group_name vid = ''cvg-'' @ vid"

definition get_volume_name :: "string \<Rightarrow> string" where
  "get_volume_name vid = ''cv-'' @ vid"

definition get_session_name :: "string \<Rightarrow> string" where
  "get_session_name vid = ''ssn-'' @ vid"

definition get_snap_name :: "string \<Rightarrow> string" where
  "get_snap_name sid = ''cs-'' @ sid"

definition get_view_name :: "string \<Rightarrow> string" where
  "get_view_name vid = ''cview-'' @ vid"

definition get_rep_name :: "string \<Rightarrow> string" where
  "get_rep_name name = ''r'' @ name"

text \<open>
  The character class \<^verbatim>\<open>[^0-9a-zA-Z-_]\<close> of \<^verbatim>\<open>get_initiator_host_name\<close>: after the
  three ranges the hyphen stands before \<^verbatim>\<open>_\<close> with no range open, so it is a literal.
  \<open>allowed_char\<close> is the complement of the class, by character code.
\<close>

definition allowed_char :: "char \<Rightarrow> bool" where
  "allowed_char c = (let n = (of_char c :: nat) in
     (48 \<le> n \<and> n \<le> 57) \<or> (97 \<le> n \<and> n \<le> 122) \<or> (65 \<le> n \<and> n \<le> 90)
     \<or> c = CHR ''-'' \<or> c = CHR ''_'')"

text \<open>\<^verbatim>\<open>re.sub('[^0-9a-zA-Z-_]', '_', s)\<close>: every character of the class becomes \<^verbatim>\<open>_\<close>.\<close>

definition re_sub_host :: "string \<Rightarrow> string" where
  "re_sub_host s = map (\<lambda>c. if allowed_char c then c else CHR ''_'') s"

text \<open>A connector is a dictionary; \<^verbatim>\<open>connector.get('host', '')\<close> reads it.\<close>

type_synonym connector = "string \<rightharpoonup> string"

definition connector_host :: "connector \<Rightarrow> string" where
  "connector_host connector = (case connector ''host'' of None \<Rightarrow> [] | Some h \<Rightarrow> h)"

definition get_initiator_host_name :: "connector \<Rightarrow> string" where
  "get_initiator_host_name connector = take 32 (re_sub_host (connector_host connector))"

section \<open>The resilient client: \<^verbatim>\<open>KrestWrap._request\<close> (lines 64--99)\<close>

text \<open>Python's \<^verbatim>\<open>sub in s\<close> on strings: \<open>sub\<close> occurs in \<open>s\<close> as a contiguous run.\<close>

fun contains :: "string \<Rightarrow> string \<Rightarrow> bool" where
  "contains sub [] = (sub = [])"
| "contains sub (c # cs) = (prefix sub (c # cs) \<or> contains sub cs)"

definition MAX_K2_RETRY :: nat where
  "MAX_K2_RETRY = 5"

definition K2_RETRY_ERRORS :: "string list" where
  "K2_RETRY_ERRORS = [''MC_ERR_BUSY'', ''MC_ERR_BUSY_SPECIFIC'',
                      ''MC_ERR_INPROGRESS'', ''MC_ERR_START_TIMEOUT'']"

text \<open>\<^verbatim>\<open>_should_retry\<close>: the loop returns True at the first marker found in the message.\<close>

definition should_retry :: "int \<Rightarrow> string \<Rightarrow> bool" where
  "should_retry err_code err_msg =
     (if err_code = 400 then list_ex (\<lambda>er. contains er err_msg) K2_RETRY_ERRORS else False)"

text \<open>
  What one call of the SDK's own \<^verbatim>\<open>_request\<close> does: it returns a value, raises
  \<^verbatim>\<open>requests.exceptions.HTTPError\<close> (status code and body of the response), or raises
  anything else. The transport is a function of the number of calls made so far.
\<close>

datatype 'a response = Ok 'a | HTTPError int string | OtherError string

datatype request_error =
    KaminarioRetryableException string
  | K2HTTPError int string
  | TransportError string
  | ValueError

datatype ('e, 'a) outcome = Returns 'a | Raises 'e

datatype lock_event = Acquire | Call | Release

text \<open>
  The state of one \<^verbatim>\<open>KrestWrap\<close>: its \<^verbatim>\<open>krestlock\<close>, the number of calls sent to the
  transport, and the trace of lock and transport events.
\<close>

record krest_wrap =
  locked :: bool
  sent :: nat
  events :: "lock_event list"

text \<open>\<^verbatim>\<open>threading.Lock.acquire\<close> on a held lock blocks: no result.\<close>

definition krestlock_acquire :: "krest_wrap \<Rightarrow> krest_wrap option" where
  "krestlock_acquire k =
     (if locked k then None else Some (k\<lparr>locked := True, events := events k @ [Acquire]\<rparr>))"

definition krestlock_release :: "krest_wrap \<Rightarrow> krest_wrap" where
  "krestlock_release k = k\<lparr>locked := False, events := events k @ [Release]\<rparr>"

definition super_request ::
  "(nat \<Rightarrow> 'a response) \<Rightarrow> krest_wrap \<Rightarrow> 'a response \<times> krest_wrap" where
  "super_request transport k =
     (transport (sent k), k\<lparr>sent := Suc (sent k), events := events k @ [Call]\<rparr>)"

text \<open>
  The body of \<^verbatim>\<open>_request\<close> (lines 86--99): acquire, call, classify an HTTPError, and
  release in the \<^verbatim>\<open>finally\<close> clause on every path.
\<close>

definition request_body ::
  "(nat \<Rightarrow> 'a response) \<Rightarrow> krest_wrap \<Rightarrow> ((request_error, 'a) outcome \<times> krest_wrap) option" where
  "request_body transport k =
     (case krestlock_acquire k of
        None \<Rightarrow> None
      | Some k1 \<Rightarrow>
          (case super_request transport k1 of
             (Ok v, k2) \<Rightarrow> Some (Returns v, krestlock_release k2)
           | (HTTPError err_code err_msg, k2) \<Rightarrow>
               (if should_retry err_code err_msg
                then Some (Raises (KaminarioRetryableException err_msg), krestlock_release k2)
                else Some (Raises (K2HTTPError err_code err_msg), krestlock_release k2))
           | (OtherError e, k2) \<Rightarrow> Some (Raises (TransportError e), krestlock_release k2)))"

text \<open>
  Modelled from the spec: the decorator \<^verbatim>\<open>cinder.utils.retry\<close> is not among the source
  files. By the spec (4.1, 8) a call that fails with the retryable error is made again,
  up to the fixed maximum of attempts; any other error propagates at once; and when every
  attempt failed with the retryable error the failure surfaces. The spec does not name
  the surfaced error: the model raises the last retryable error again. A maximum below 1
  is refused (\<open>ValueError\<close>).
\<close>

fun retry ::
  "nat \<Rightarrow> (krest_wrap \<Rightarrow> ((request_error, 'a) outcome \<times> krest_wrap) option) \<Rightarrow> krest_wrap
     \<Rightarrow> ((request_error, 'a) outcome \<times> krest_wrap) option" where
  "retry 0 f k = Some (Raises ValueError, k)"
| "retry (Suc n) f k =
     (case f k of
        None \<Rightarrow> None
      | Some (Raises (KaminarioRetryableException reason), k') \<Rightarrow>
          (if n = 0 then Some (Raises (KaminarioRetryableException reason), k')
           else retry n f k')
      | Some (r, k') \<Rightarrow> Some (r, k'))"

text \<open>\<^verbatim>\<open>_request\<close> under its decorator \<^verbatim>\<open>@utils.retry(..., retries=MAX_K2_RETRY)\<close>.\<close>

definition request ::
  "(nat \<Rightarrow> 'a response) \<Rightarrow> krest_wrap \<Rightarrow> ((request_error, 'a) outcome \<times> krest_wrap) option" where
  "request transport k = retry MAX_K2_RETRY (request_body transport) k"

text \<open>
  The vocabulary of claim C3: a transient-busy response is an HTTP error with status 400
  whose body holds one of the four markers; \<open>surfaced\<close> is what a response becomes when
  it ends the call; \<open>attempts_log n\<close> is the trace of \<open>n\<close> attempts.
\<close>

definition transient_busy :: "'a response \<Rightarrow> bool" where
  "transient_busy r =
     (case r of
        HTTPError code body \<Rightarrow>
          code = 400 \<and> list_ex (\<lambda>er. contains er body) K2_RETRY_ERRORS
      | _ \<Rightarrow> False)"

definition surfaced :: "'a response \<Rightarrow> (request_error, 'a) outcome" where
  "surfaced r =
     (case r of
        Ok v \<Rightarrow> Returns v
      | HTTPError code body \<Rightarrow>
          if transient_busy r then Raises (KaminarioRetryableException body)
          else Raises (K2HTTPError code body)
      | OtherError e \<Rightarrow> Raises (TransportError e))"

definition attempts_log :: "nat \<Rightarrow> lock_event list" where
  "attempts_log n = concat (replicate n [Acquire, Call, Release])"

section \<open>The two arrays and the calls the driver sends them\<close>

text \<open>
  The driver reaches the arrays through the SDK's \<^verbatim>\<open>EndPoint\<close> only (\<^verbatim>\<open>search\<close>, \<^verbatim>\<open>new\<close>,
  \<^verbatim>\<open>save\<close>, \<^verbatim>\<open>delete\<close>, \<^verbatim>\<open>refresh\<close>). The SDK and the arrays are outside the source;
  they are modelled as two object stores, one behind each endpoint. An object has an
  identifier (0 while it is not saved), the collection it belongs to and its attributes.
\<close>

datatype endpoint = Source | Target

datatype val = Str string | Num int | Flag bool | Ref nat | Refs "nat list" | Foreign string

record k2obj =
  oid :: nat
  url :: string
  attrs :: "(string \<times> val) list"

type_synonym RestObject = "endpoint \<times> k2obj"

datatype call =
    Search endpoint string "(string \<times> val) list"
  | Save endpoint k2obj
  | Delete endpoint k2obj
  | Refresh endpoint k2obj
  | Sleep nat

datatype exn =
    K2Error string
  | IndexError
  | KeyError string
  | AttributeError string
  | TypeError
  | UnboundLocalError string
  | ExternalError string
  | KaminarioCinderDriverException string
  | UnableToFailOver string
  | ManageExistingInvalidReference string

text \<open>
  \<^verbatim>\<open>ex.message\<close>. For an exception of the transport or of a collaborator it is the text
  the exception was raised with. The classes of \<^verbatim>\<open>cinder.exception\<close> are not among the
  source files; their message is taken to be the reason they were raised with.
\<close>

fun message :: "exn \<Rightarrow> string" where
  "message (K2Error m) = m"
| "message IndexError = ''list index out of range''"
| "message (KeyError k) = k"
| "message (AttributeError a) = a"
| "message TypeError = []"
| "message (UnboundLocalError v) = v"
| "message (ExternalError m) = m"
| "message (KaminarioCinderDriverException reason) = reason"
| "message (UnableToFailOver reason) = reason"
| "message (ManageExistingInvalidReference reason) = reason"

record Replication =
  backend_id :: string
  login :: string
  password :: string
  rpo :: val

record configuration =
  auto_calc_max_oversubscription_ratio :: bool
  max_over_subscription_ratio :: rat
  kaminario_nodedup_substring :: string

record volume_stats =
  free_capacity_gb :: int
  total_capacity_gb :: int
  total_volumes :: int
  provisioned_capacity_gb :: int
  max_oversubscription_ratio :: rat

text \<open>
  The driver instance: \<^verbatim>\<open>self.client\<close> and \<^verbatim>\<open>self.target\<close> are handles to an endpoint
  (\<^verbatim>\<open>self.target\<close> exists only when a replica is configured), \<^verbatim>\<open>self.replica\<close>,
  \<^verbatim>\<open>self.configuration\<close> and \<^verbatim>\<open>self.stats\<close>.
\<close>

record driver =
  client :: endpoint
  target :: "endpoint option"
  replica :: "Replication option"
  configuration :: configuration
  stats :: "volume_stats option"

text \<open>
  The world a driver call runs in: the driver's own fields, the objects of the two arrays,
  the log of the calls sent so far, and two parts the driver does not control: \<open>faults\<close>,
  which says for a position of the log that the call logged there fails in the transport
  (with the message of the exception), and \<open>async\<close>, what the arrays do by themselves
  while the driver sleeps (at a clock value, from the two stores to the two stores).
\<close>

record world =
  self :: driver
  source_k2 :: "k2obj list"
  target_k2 :: "k2obj list"
  next_oid :: nat
  calls :: "call list"
  faults :: "nat \<Rightarrow> string option"
  clock :: nat
  async :: "nat \<Rightarrow> k2obj list \<times> k2obj list \<Rightarrow> k2obj list \<times> k2obj list"

text \<open>
  A driver call is a function of the world. It returns a value or raises, with the world
  it leaves; \<open>None\<close> is a call that never returns (the polling loop of
  \<^verbatim>\<open>_check_for_status\<close> has no bound).
\<close>

type_synonym 'a io = "world \<Rightarrow> ((exn, 'a) outcome \<times> world) option"

definition io_return :: "'a \<Rightarrow> 'a io" where
  "io_return x = (\<lambda>w. Some (Returns x, w))"

definition io_raise :: "exn \<Rightarrow> 'a io" where
  "io_raise e = (\<lambda>w. Some (Raises e, w))"

definition io_bind :: "'a io \<Rightarrow> ('a \<Rightarrow> 'b io) \<Rightarrow> 'b io" where
  "io_bind m f = (\<lambda>w. case m w of
       None \<Rightarrow> None
     | Some (Raises e, w') \<Rightarrow> Some (Raises e, w')
     | Some (Returns x, w') \<Rightarrow> f x w')"

definition io_then :: "'a io \<Rightarrow> 'b io \<Rightarrow> 'b io" where
  "io_then m n = io_bind m (\<lambda>_. n)"

text \<open>\<^verbatim>\<open>try: m except Exception as ex: h ex\<close>.\<close>

definition io_catch :: "'a io \<Rightarrow> (exn \<Rightarrow> 'a io) \<Rightarrow> 'a io" where
  "io_catch m h = (\<lambda>w. case m w of
       None \<Rightarrow> None
     | Some (Raises e, w') \<Rightarrow> h e w'
     | Some (Returns x, w') \<Rightarrow> Some (Returns x, w'))"

fun for_each :: "('a \<Rightarrow> unit io) \<Rightarrow> 'a list \<Rightarrow> unit io" where
  "for_each f [] = io_return ()"
| "for_each f (x # xs) = io_then (f x) (for_each f xs)"

definition k2_of :: "world \<Rightarrow> endpoint \<Rightarrow> k2obj list" where
  "k2_of w ep = (case ep of Source \<Rightarrow> source_k2 w | Target \<Rightarrow> target_k2 w)"

definition set_k2 :: "endpoint \<Rightarrow> k2obj list \<Rightarrow> world \<Rightarrow> world" where
  "set_k2 ep objs w = (case ep of Source \<Rightarrow> w\<lparr>source_k2 := objs\<rparr> | Target \<Rightarrow> w\<lparr>target_k2 := objs\<rparr>)"

text \<open>A call is logged; it fails when the fault plan says so, and then changes nothing else.\<close>

definition rest_call :: "call \<Rightarrow> unit io" where
  "rest_call c = (\<lambda>w.
     case faults w (length (calls w)) of
       Some msg \<Rightarrow> Some (Raises (K2Error msg), w\<lparr>calls := calls w @ [c]\<rparr>)
     | None \<Rightarrow> Some (Returns (), w\<lparr>calls := calls w @ [c]\<rparr>))"

text \<open>
  A search filter \<open>key = v\<close> holds of an object whose attribute \<open>key\<close> is \<open>v\<close>; the filter
  \<open>Refs ids\<close> (a result set or a list of hits given as the value) holds when the attribute
  refers to one of them.
\<close>

fun matches :: "k2obj \<Rightarrow> string \<times> val \<Rightarrow> bool" where
  "matches ob (k, Refs ids) = (case map_of (attrs ob) k of Some (Ref i) \<Rightarrow> i \<in> set ids | _ \<Rightarrow> False)"
| "matches ob (k, v) = (map_of (attrs ob) k = Some v)"

definition hits_of :: "k2obj list \<Rightarrow> string \<Rightarrow> (string \<times> val) list \<Rightarrow> k2obj list" where
  "hits_of objs u query = filter (\<lambda>ob. url ob = u \<and> list_all (matches ob) query) objs"

text \<open>\<^verbatim>\<open>device.search(url, **query)\<close>: the hits, in the array's order; \<^verbatim>\<open>total\<close> is their number.\<close>

definition search :: "endpoint \<Rightarrow> string \<Rightarrow> (string \<times> val) list \<Rightarrow> RestObject list io" where
  "search ep u query =
     io_then (rest_call (Search ep u query))
       (\<lambda>w. Some (Returns (map (Pair ep) (hits_of (k2_of w ep) u query)), w))"

text \<open>\<^verbatim>\<open>device.new(url, **attrs)\<close>: an object of the SDK not yet on the array.\<close>

definition new :: "endpoint \<Rightarrow> string \<Rightarrow> (string \<times> val) list \<Rightarrow> RestObject" where
  "new ep u kw = (ep, \<lparr>oid = 0, url = u, attrs = kw\<rparr>)"

definition ref :: "RestObject \<Rightarrow> val" where
  "ref obj = Ref (oid (snd obj))"

definition setattr :: "RestObject \<Rightarrow> string \<Rightarrow> val \<Rightarrow> RestObject" where
  "setattr obj k v =
     (fst obj, (snd obj)\<lparr>attrs := (k, v) # filter (\<lambda>kv. fst kv \<noteq> k) (attrs (snd obj))\<rparr>)"

definition getattr :: "RestObject \<Rightarrow> string \<Rightarrow> val io" where
  "getattr obj k =
     (case map_of (attrs (snd obj)) k of
        None \<Rightarrow> io_raise (AttributeError k)
      | Some v \<Rightarrow> io_return v)"

text \<open>An attribute that holds a name; the arrays keep names as strings.\<close>

definition getattr_str :: "RestObject \<Rightarrow> string \<Rightarrow> string io" where
  "getattr_str obj k =
     io_bind (getattr obj k) (\<lambda>v. case v of Str s \<Rightarrow> io_return s | _ \<Rightarrow> io_raise TypeError)"

definition getattr_num :: "RestObject \<Rightarrow> string \<Rightarrow> int io" where
  "getattr_num obj k =
     io_bind (getattr obj k) (\<lambda>v. case v of Num n \<Rightarrow> io_return n | _ \<Rightarrow> io_raise TypeError)"

text \<open>
  \<^verbatim>\<open>obj.save()\<close>: a new object is stored under a fresh identifier, a stored one is
  replaced; the object is returned. \<^verbatim>\<open>obj.delete()\<close> removes it. \<^verbatim>\<open>obj.refresh()\<close> reads
  it again.
\<close>

definition save :: "RestObject \<Rightarrow> RestObject io" where
  "save obj =
     io_then (rest_call (Save (fst obj) (snd obj)))
       (\<lambda>w. if oid (snd obj) = 0
             then (let ob = (snd obj)\<lparr>oid := Suc (next_oid w)\<rparr>
                   in Some (Returns (fst obj, ob),
                        set_k2 (fst obj) (k2_of w (fst obj) @ [ob]) (w\<lparr>next_oid := Suc (next_oid w)\<rparr>)))
             else Some (Returns obj,
                        set_k2 (fst obj)
                          (map (\<lambda>ob. if oid ob = oid (snd obj) then snd obj else ob) (k2_of w (fst obj))) w))"

definition delete :: "RestObject \<Rightarrow> unit io" where
  "delete obj =
     io_then (rest_call (Delete (fst obj) (snd obj)))
       (\<lambda>w. Some (Returns (),
          set_k2 (fst obj) (filter (\<lambda>ob. oid ob \<noteq> oid (snd obj)) (k2_of w (fst obj))) w))"

definition refresh :: "RestObject \<Rightarrow> RestObject io" where
  "refresh obj =
     io_then (rest_call (Refresh (fst obj) (snd obj)))
       (\<lambda>w. case filter (\<lambda>ob. oid ob = oid (snd obj)) (k2_of w (fst obj)) of
               [] \<Rightarrow> Some (Raises (K2Error ''not found''), w)
             | ob # _ \<Rightarrow> Some (Returns (fst obj, ob), w))"

text \<open>\<^verbatim>\<open>eventlet.sleep(n)\<close>: time passes and the arrays do what they do by themselves.\<close>

definition sleep :: "nat \<Rightarrow> unit io" where
  "sleep n = (\<lambda>w.
     let (s, t) = async w (clock w) (source_k2 w, target_k2 w)
     in Some (Returns (), w\<lparr>source_k2 := s, target_k2 := t, clock := clock w + n,
                             calls := calls w @ [Sleep n]\<rparr>))"

definition the_client :: "endpoint io" where
  "the_client = (\<lambda>w. Some (Returns (client (self w)), w))"

definition the_target :: "endpoint io" where
  "the_target = (\<lambda>w. case target (self w) of
       None \<Rightarrow> Some (Raises (AttributeError ''target''), w)
     | Some t \<Rightarrow> Some (Returns t, w))"

text \<open>\<^verbatim>\<open>self.replica.<field>\<close>: an AttributeError when \<^verbatim>\<open>self.replica\<close> is None.\<close>

definition the_replica :: "Replication io" where
  "the_replica = (\<lambda>w. case replica (self w) of
       None \<Rightarrow> Some (Raises (AttributeError ''backend_id''), w)
     | Some r \<Rightarrow> Some (Returns r, w))"

text \<open>\<^verbatim>\<open>hits[0]\<close>.\<close>

definition first_hit :: "'a list \<Rightarrow> 'a io" where
  "first_hit hits = (case hits of [] \<Rightarrow> io_raise IndexError | h # _ \<Rightarrow> io_return h)"

section \<open>The driver's operations\<close>

definition units_Ki :: int where
  "units_Ki = 1024"

definition units_Mi :: int where
  "units_Mi = 1048576"

text \<open>
  What the framework passes in: a volume (identifier, size in GB, volume type with its
  extra specs, replication status), and for the calls that take either a volume or an
  object of the SDK (the test \<^verbatim>\<open>type(volume).__name__ != 'RestObject'\<close>) a tagged value.
\<close>

record vol_type =
  type_name :: string
  extra_specs :: "(string \<times> string) list"

record volume =
  volume_id :: string
  volume_size :: int
  volume_type :: "vol_type option"
  replication_status :: string

datatype volume_arg = CinderVolume volume | RestObj RestObject

definition get_self :: "driver io" where
  "get_self = (\<lambda>w. Some (Returns (self w), w))"

text \<open>\<^verbatim>\<open>self.client = self.target\<close> (lines 669 and 701).\<close>

definition swap_client :: "unit io" where
  "swap_client =
     io_bind the_target (\<lambda>t w. Some (Returns (), w\<lparr>self := (self w)\<lparr>client := t\<rparr>\<rparr>))"

definition get_is_dedup :: "configuration \<Rightarrow> vol_type option \<Rightarrow> bool" where
  "get_is_dedup conf vt =
     (case vt of
        Some t \<Rightarrow>
          (if map_of (extra_specs t) ''kaminario:thin_prov_type'' = Some ''nodedup'' then False
           else if contains (kaminario_nodedup_substring conf) (type_name t) then False
           else True)
      | None \<Rightarrow> True)"

definition get_is_replica :: "driver \<Rightarrow> vol_type option \<Rightarrow> bool" where
  "get_is_replica drv vt =
     (case vt of
        Some t \<Rightarrow>
          (if extra_specs t \<noteq> []
           then map_of (extra_specs t) ''kaminario:replication'' = Some ''enabled''
                \<and> replica drv \<noteq> None
           else False)
      | None \<Rightarrow> False)"

text \<open>\<^verbatim>\<open>_delete_by_ref\<close> (lines 293--297); its last argument is only logged.\<close>

definition delete_by_ref :: "endpoint \<Rightarrow> string \<Rightarrow> string \<Rightarrow> unit io" where
  "delete_by_ref device u name =
     io_bind (search device u [(''name'', Str name)]) (\<lambda>rs. for_each delete rs)"

text \<open>The \<^verbatim>\<open>try\<close> block of \<^verbatim>\<open>_create_volume_replica\<close> (lines 257--276).\<close>

definition create_volume_replica_try ::
  "RestObject \<Rightarrow> RestObject \<Rightarrow> RestObject \<Rightarrow> val \<Rightarrow> string \<Rightarrow> string \<Rightarrow> string \<Rightarrow> string
     \<Rightarrow> unit io" where
  "create_volume_replica_try k2peer vg vol rpo_val session_name rsession_name rvg_name rvol_name =
     io_bind the_client (\<lambda>c.
     io_bind (save (new c ''replication/sessions''
                [(''replication_peer_k2array'', ref k2peer),
                 (''auto_configure_peer_volumes'', Str ''False''),
                 (''local_volume_group'', ref vg),
                 (''replication_peer_volume_group_name'', Str rvg_name),
                 (''remote_replication_session_name'', Str rsession_name),
                 (''name'', Str session_name),
                 (''rpo'', rpo_val)])) (\<lambda>src_ssn.
     io_bind the_client (\<lambda>c.
     io_bind (save (new c ''replication/peer_volumes''
                [(''local_volume'', ref vol),
                 (''name'', Str rvol_name),
                 (''replication_session'', ref src_ssn)])) (\<lambda>_.
     io_bind (save (setattr src_ssn ''state'' (Str ''in_sync''))) (\<lambda>_.
     io_return ())))))"

text \<open>The \<^verbatim>\<open>except\<close> block of \<^verbatim>\<open>_create_volume_replica\<close> (lines 277--291).\<close>

definition create_volume_replica_except ::
  "string \<Rightarrow> string \<Rightarrow> string \<Rightarrow> string \<Rightarrow> string \<Rightarrow> string \<Rightarrow> exn \<Rightarrow> unit io" where
  "create_volume_replica_except session_name rsession_name rvol_name vol_name rvg_name vg_name ex =
     io_then (io_bind the_client (\<lambda>c. delete_by_ref c ''replication/sessions'' session_name))
    (io_then (io_bind the_target (\<lambda>t. delete_by_ref t ''replication/sessions'' rsession_name))
    (io_then (io_bind the_target (\<lambda>t. delete_by_ref t ''volumes'' rvol_name))
    (io_then (io_bind the_client (\<lambda>c. delete_by_ref c ''volumes'' vol_name))
    (io_then (io_bind the_target (\<lambda>t. delete_by_ref t ''volume_groups'' rvg_name))
    (io_then (io_bind the_client (\<lambda>c. delete_by_ref c ''volume_groups'' vg_name))
    (io_raise (KaminarioCinderDriverException (message ex))))))))"

text \<open>\<^verbatim>\<open>_create_volume_replica\<close> (lines 234--291).\<close>

definition create_volume_replica :: "volume \<Rightarrow> RestObject \<Rightarrow> RestObject \<Rightarrow> val \<Rightarrow> unit io" where
  "create_volume_replica volume vg vol rpo_val =
     (let session_name = get_session_name (volume_id volume);
          rsession_name = get_rep_name session_name
      in io_bind (getattr_str vg ''name'') (\<lambda>vg_name.
         io_bind (getattr_str vol ''name'') (\<lambda>vol_name.
         let rvg_name = get_rep_name vg_name; rvol_name = get_rep_name vol_name
         in io_bind the_client (\<lambda>c.
            io_bind the_replica (\<lambda>r.
            io_bind (search c ''replication/peer_k2arrays'' [(''mgmt_host'', Str (backend_id r))])
              (\<lambda>k2peer_rs.
                 case k2peer_rs of
                   [] \<Rightarrow> io_raise (KaminarioCinderDriverException
                                    ''Unable to find K2peer in source K2:'')
                 | k2peer # _ \<Rightarrow>
                     io_catch
                       (create_volume_replica_try k2peer vg vol rpo_val
                          session_name rsession_name rvg_name rvol_name)
                       (create_volume_replica_except
                          session_name rsession_name rvol_name vol_name rvg_name vg_name)))))))"

text \<open>\<^verbatim>\<open>create_volume\<close> (lines 199--232).\<close>

definition create_volume :: "volume \<Rightarrow> unit io" where
  "create_volume volume =
     (let vg_name = get_volume_group_name (volume_id volume);
          vol_name = get_volume_name (volume_id volume)
      in io_bind get_self (\<lambda>s.
         let prov_type = get_is_dedup (configuration s) (volume_type volume)
         in io_bind
              (io_catch
                 (io_bind the_client (\<lambda>c.
                  io_bind (save (new c ''volume_groups''
                             [(''name'', Str vg_name), (''quota'', Num 0),
                              (''is_dedup'', Flag prov_type)])) (\<lambda>vg.
                  io_bind the_client (\<lambda>c.
                  io_bind (save (new c ''volumes''
                             [(''name'', Str vol_name),
                              (''size'', Num (volume_size volume * units_Mi)),
                              (''volume_group'', ref vg)])) (\<lambda>vol.
                  io_return (vg, vol))))))
                 (\<lambda>ex.
                    io_bind the_client (\<lambda>c.
                    io_bind (search c ''volume_groups'' [(''name'', Str vg_name)]) (\<lambda>vg_rs.
                    io_then (case vg_rs of [] \<Rightarrow> io_return () | h # _ \<Rightarrow> delete h)
                      (io_raise (KaminarioCinderDriverException (message ex)))))))
              (\<lambda>(vg, vol).
                 io_bind get_self (\<lambda>s.
                 if get_is_replica s (volume_type volume) \<and> replica s \<noteq> None
                 then io_bind the_replica (\<lambda>r. create_volume_replica volume vg vol (rpo r))
                 else io_return ()))))"

text \<open>\<^verbatim>\<open>_failover_volume\<close> (lines 299--310).\<close>

definition failover_volume :: "volume \<Rightarrow> unit io" where
  "failover_volume volume =
     (let session_name = get_session_name (volume_id volume);
          rsession_name = get_rep_name session_name
      in io_bind the_target (\<lambda>t.
         io_bind (search t ''replication/sessions'' [(''name'', Str rsession_name)]) (\<lambda>rs.
         io_bind (first_hit rs) (\<lambda>tgt_ssn.
         io_bind (getattr tgt_ssn ''state'') (\<lambda>st.
         if st = Str ''in_sync''
         then io_then (save (setattr tgt_ssn ''state'' (Str ''failed_over''))) (io_return ())
         else io_return ())))))"

text \<open>
  \<^verbatim>\<open>failover_host\<close> (lines 312--336). \<^verbatim>\<open>secondary_id\<close> is None or a string; an entry of
  \<^verbatim>\<open>volume_updates\<close> is the volume's identifier with its dictionary of updates.
  \<^verbatim>\<open>fields.ReplicationStatus.FAILED_OVER\<close> is the string the driver itself compares a
  volume's replication status with (line 667).
\<close>

definition FAILED_OVER :: string where
  "FAILED_OVER = ''failed-over''"

type_synonym volume_update = "string \<times> (string \<times> string) list"

fun failover_host_loop :: "volume list \<Rightarrow> volume_update list \<Rightarrow> volume_update list io" where
  "failover_host_loop [] volume_updates = io_return volume_updates"
| "failover_host_loop (v # vs) volume_updates =
     (let vol_name = get_volume_name (volume_id v); rv = get_rep_name vol_name
      in io_bind the_target (\<lambda>t.
         io_bind (search t ''volumes'' [(''name'', Str rv)]) (\<lambda>rs.
         if length rs \<noteq> 0
         then io_then (failover_volume v)
                (failover_host_loop vs
                   (volume_updates @ [(volume_id v, [(''replication_status'', FAILED_OVER)])]))
         else failover_host_loop vs
                (volume_updates @ [(volume_id v, [(''status'', ''error'')])]))))"

definition failover_host ::
  "volume list \<Rightarrow> string option \<Rightarrow> (string \<times> volume_update list) io" where
  "failover_host volumes secondary_id =
     io_then
       (case secondary_id of
          None \<Rightarrow> io_return ()
        | Some sid \<Rightarrow>
            if sid \<noteq> []
            then io_bind the_replica (\<lambda>r.
                   if sid \<noteq> backend_id r
                   then io_raise (UnableToFailOver ''Failover requested on non replicated backend.'')
                   else io_return ())
            else io_return ())
       (io_bind (failover_host_loop volumes []) (\<lambda>volume_updates.
        io_bind the_replica (\<lambda>r.
        io_return (backend_id r, volume_updates))))"

text \<open>Sequencing is monotone in the function a loop is defined by (for the definition below).\<close>

lemma io_bind_mono [partial_function_mono]:
  assumes "\<And>x w'. mono_option (\<lambda>f. K f x w')"
  shows "mono_option (\<lambda>f. io_bind m (\<lambda>x. K f x) w)"
proof (cases "m w")
  case None
  then show ?thesis by (simp add: io_bind_def option.const_mono)
next
  case (Some p)
  obtain r w' where p: "p = (r, w')" by (cases p)
  show ?thesis
  proof (cases r)
    case (Returns x)
    with Some p show ?thesis by (simp add: io_bind_def assms)
  next
    case (Raises e)
    with Some p show ?thesis by (simp add: io_bind_def option.const_mono)
  qed
qed

text \<open>
  \<^verbatim>\<open>_check_for_status\<close> (lines 502--506). \<^verbatim>\<open>obj.refresh()\<close> updates the object the caller
  holds, so the loop returns it. The loop has no bound: it is a partial function.
\<close>

partial_function (option) check_for_status ::
  "RestObject \<Rightarrow> string \<Rightarrow> world \<Rightarrow> ((exn, RestObject) outcome \<times> world) option" where
  "check_for_status obj status w =
     (case map_of (attrs (snd obj)) ''state'' of
        None \<Rightarrow> Some (Raises (AttributeError ''state''), w)
      | Some st \<Rightarrow>
          if st \<noteq> Str status
          then io_bind (refresh obj) (\<lambda>obj'.
               io_bind (sleep 1) (\<lambda>_.
               check_for_status obj' status)) w
          else Some (Returns obj, w))"

text \<open>\<^verbatim>\<open>_delete_volume_replica\<close> (lines 468--500).\<close>

definition delete_volume_replica :: "volume \<Rightarrow> string \<Rightarrow> string \<Rightarrow> unit io" where
  "delete_volume_replica volume vg_name vol_name =
     (let rvg_name = get_rep_name vg_name;
          rvol_name = get_rep_name vol_name;
          session_name = get_session_name (volume_id volume);
          rsession_name = get_rep_name session_name
      in io_bind the_client (\<lambda>c.
         io_bind (search c ''replication/sessions'' [(''name'', Str session_name)]) (\<lambda>rs.
         io_bind (first_hit rs) (\<lambda>src_ssn.
         io_bind the_target (\<lambda>t.
         io_bind (search t ''replication/sessions'' [(''name'', Str rsession_name)]) (\<lambda>rs.
         io_bind (first_hit rs) (\<lambda>tgt_ssn.
         io_bind (save (setattr src_ssn ''state'' (Str ''suspended''))) (\<lambda>src_ssn.
         io_bind (check_for_status tgt_ssn ''suspended'') (\<lambda>tgt_ssn.
         io_bind (save (setattr src_ssn ''state'' (Str ''idle''))) (\<lambda>src_ssn.
         io_bind (check_for_status tgt_ssn ''idle'') (\<lambda>tgt_ssn.
         io_then (delete tgt_ssn)
        (io_then (delete src_ssn)
        (io_bind the_client (\<lambda>c.
         io_bind (search c ''volume_groups'' [(''name'', Str vg_name)]) (\<lambda>vg.
         io_bind the_target (\<lambda>t.
         io_bind (search t ''volume_groups'' [(''name'', Str rvg_name)]) (\<lambda>rvg.
         io_bind the_client (\<lambda>c.
         io_bind (search c ''snapshots'' [(''volume_group'', Refs (map (oid \<circ> snd) vg))]) (\<lambda>snaps.
         io_then (for_each delete snaps)
        (io_bind the_target (\<lambda>t.
         io_bind (search t ''snapshots'' [(''volume_group'', Refs (map (oid \<circ> snd) rvg))]) (\<lambda>rsnaps.
         io_then (for_each delete rsnaps)
        (io_then (io_bind the_target (\<lambda>t. delete_by_ref t ''volumes'' rvol_name))
                 (io_bind the_target (\<lambda>t. delete_by_ref t ''volume_groups'' rvg_name))
         )))))))))))))))))))))))"

text \<open>\<^verbatim>\<open>delete_volume\<close> (lines 442--466).\<close>

definition delete_volume :: "volume \<Rightarrow> unit io" where
  "delete_volume volume =
     (let vg_name = get_volume_group_name (volume_id volume);
          vol_name = get_volume_name (volume_id volume)
      in io_catch
           (io_bind get_self (\<lambda>s.
            io_then (if get_is_replica s (volume_type volume) \<and> replica s \<noteq> None
                     then delete_volume_replica volume vg_name vol_name
                     else io_return ())
           (io_bind the_client (\<lambda>c.
            io_bind (search c ''volumes'' [(''name'', Str vol_name)]) (\<lambda>vol_rs.
            io_then (case vol_rs of [] \<Rightarrow> io_return () | h # _ \<Rightarrow> delete h)
           (io_bind the_client (\<lambda>c.
            io_bind (search c ''volume_groups'' [(''name'', Str vg_name)]) (\<lambda>vg_rs.
            case vg_rs of [] \<Rightarrow> io_return () | h # _ \<Rightarrow> delete h))))))))
           (\<lambda>ex. io_raise (KaminarioCinderDriverException (message ex))))"

text \<open>
  \<^verbatim>\<open>terminate_connection\<close> (lines 693--723). When the volume is not found on the array
  the name \<^verbatim>\<open>volume\<close> keeps the framework's object, which is then the value of the
  mapping filter (\<open>Foreign\<close>: no object of the array refers to it).
\<close>

definition terminate_connection :: "volume_arg \<Rightarrow> connector \<Rightarrow> unit io" where
  "terminate_connection volume connector =
     io_bind
       (case volume of
          CinderVolume v \<Rightarrow>
            io_bind
              (if replication_status v = ''failed-over''
               then io_then swap_client
                      (io_return (get_rep_name (get_volume_name (volume_id v))))
               else io_return (get_volume_name (volume_id v))) (\<lambda>vol_name.
            io_bind the_client (\<lambda>c.
            io_bind (search c ''volumes'' [(''name'', Str vol_name)]) (\<lambda>volume_rs.
            case volume_rs of
              [] \<Rightarrow> io_return (Foreign (volume_id v))
            | h # _ \<Rightarrow> io_return (ref h))))
        | RestObj r \<Rightarrow> io_bind (getattr r ''name'') (\<lambda>vol_name. io_return (ref r)))
       (\<lambda>volume.
          let host_name = get_initiator_host_name connector
          in io_bind the_client (\<lambda>c.
             io_bind (search c ''hosts'' [(''name'', Str host_name)]) (\<lambda>host_rs.
             case host_rs of
               [] \<Rightarrow> io_return ()
             | host # _ \<Rightarrow>
                 io_bind the_client (\<lambda>c.
                 io_bind (search c ''mappings'' [(''volume'', volume), (''host'', ref host)])
                   (\<lambda>map_rs.
                 io_then (case map_rs of [] \<Rightarrow> io_return () | m # _ \<Rightarrow> delete m)
                (io_bind the_client (\<lambda>c.
                 io_bind (search c ''mappings'' [(''host'', ref host)]) (\<lambda>rs.
                 if length rs = 0 then delete host else io_return ()))))))))"


text \<open>
  The collaborators of \<^verbatim>\<open>create_cloned_volume\<close> that are outside the source file:
  \<^verbatim>\<open>utils.brick_get_connector_properties\<close>, \<^verbatim>\<open>initialize_connection\<close> (a stub in this
  class, defined by the protocol subclasses), \<^verbatim>\<open>_connect_device\<close> (of the base driver;
  the model keeps the device path of its result) and \<^verbatim>\<open>vol_utils.copy_volume\<close>. Each is
  any call on the world.
\<close>

record 'c collaborators =
  brick_get_connector_properties :: "connector io"
  initialize_connection :: "volume \<Rightarrow> connector \<Rightarrow> 'c io"
  connect_device :: "'c \<Rightarrow> string io"
  copy_volume :: "string \<Rightarrow> string \<Rightarrow> int \<Rightarrow> unit io"

text \<open>
  \<^verbatim>\<open>create_cloned_volume\<close> (lines 400--440). \<^verbatim>\<open>properties\<close> is bound inside the \<^verbatim>\<open>try\<close>
  block: when \<^verbatim>\<open>brick_get_connector_properties\<close> itself raises, the handler's first
  statement reads the unbound name.
\<close>

definition create_cloned_volume :: "'c collaborators \<Rightarrow> volume \<Rightarrow> volume \<Rightarrow> unit io" where
  "create_cloned_volume ext volume src_vref =
     (let clone_name = get_volume_name (volume_id volume);
          src_name = get_volume_name (volume_id src_vref)
      in io_bind the_client (\<lambda>c.
         io_bind (search c ''volumes'' [(''name'', Str src_name)]) (\<lambda>src_vol.
         io_bind the_client (\<lambda>c.
         io_bind (search c ''mappings'' [(''volume'', Refs (map (oid \<circ> snd) src_vol))]) (\<lambda>src_map.
         if length src_map \<noteq> 0
         then io_raise (KaminarioCinderDriverException
                (''K2 driver does not support clone of a attached volume. ''
                 @ ''To get this done, create a snapshot from the attached ''
                 @ ''volume and then create a volume from the snapshot.''))
         else io_bind
                (io_catch (brick_get_connector_properties ext)
                   (\<lambda>ex. io_raise (UnboundLocalError ''properties''))) (\<lambda>properties.
              io_catch
                (io_bind (initialize_connection ext src_vref properties) (\<lambda>conn.
                 io_bind (connect_device ext conn) (\<lambda>src_attach_info.
                 io_then (create_volume volume)
                (io_bind (initialize_connection ext volume properties) (\<lambda>conn.
                 io_bind (connect_device ext conn) (\<lambda>dest_attach_info.
                 io_then (copy_volume ext src_attach_info dest_attach_info
                            (volume_size src_vref * units_Ki))
                (io_then (terminate_connection (CinderVolume volume) properties)
                         (terminate_connection (CinderVolume src_vref) properties))))))))
                (\<lambda>ex.
                   io_then (terminate_connection (CinderVolume src_vref) properties)
                  (io_then (terminate_connection (CinderVolume volume) properties)
                  (io_then (delete_volume volume)
                  (io_raise (KaminarioCinderDriverException (message ex))))))))))))"

text \<open>
  Arithmetic. The module is Python 2 code: every handler reads \<^verbatim>\<open>ex.message\<close>, which
  exceptions have in Python 2 only, and \<^verbatim>\<open>update_volume_stats\<close> converts a divisor with
  \<^verbatim>\<open>float(...)\<close> to get a true division. There \<^verbatim>\<open>/\<close> between two integers is floor
  division (\<open>py_div\<close>), and between an integer and a float it is the quotient
  (\<open>true_div\<close>; the rounding of the float is not modelled, the value is the rational).
  \<^verbatim>\<open>math.ceil\<close> returns the least integer not below its argument (as a float in Python 2).
\<close>

definition py_div :: "int \<Rightarrow> int \<Rightarrow> int" where
  "py_div a b = a div b"

definition true_div :: "int \<Rightarrow> int \<Rightarrow> rat" where
  "true_div a b = of_int a / of_int b"

definition math_ceil :: "rat \<Rightarrow> int" where
  "math_ceil x = \<lceil>x\<rceil>"

text \<open>Python's truth value of an attribute read from the array.\<close>

fun truthy :: "val \<Rightarrow> bool" where
  "truthy (Num n) = (n \<noteq> 0)"
| "truthy (Str s) = (s \<noteq> [])"
| "truthy (Flag b) = b"
| "truthy (Refs ids) = (ids \<noteq> [])"
| "truthy (Ref i) = True"
| "truthy (Foreign s) = True"

text \<open>The choice of the ratio in \<^verbatim>\<open>update_volume_stats\<close> (lines 585--590).\<close>

definition oversubscription_ratio :: "configuration \<Rightarrow> RestObject \<Rightarrow> int \<Rightarrow> rat io" where
  "oversubscription_ratio conf cap provisioned_vol =
     (if auto_calc_max_oversubscription_ratio conf
      then io_bind (getattr cap ''provisioned'') (\<lambda>provisioned.
           if truthy provisioned
           then io_bind (getattr_num cap ''total'') (\<lambda>total.
                io_bind (getattr_num cap ''free'') (\<lambda>free.
                if total - free \<noteq> 0
                then io_return (true_div provisioned_vol (total - free))
                else io_return (max_over_subscription_ratio conf)))
           else io_return (max_over_subscription_ratio conf))
      else io_return (max_over_subscription_ratio conf))"

text \<open>\<^verbatim>\<open>update_volume_stats\<close> (lines 578--602); the constant entries of the dictionary are left out.\<close>

definition update_volume_stats :: "unit io" where
  "update_volume_stats =
     io_bind get_self (\<lambda>s.
     let conf = configuration s
     in io_bind the_client (\<lambda>c.
        io_bind (search c ''system/capacity'' []) (\<lambda>rs.
        io_bind (first_hit rs) (\<lambda>cap.
        io_bind the_client (\<lambda>c.
        io_bind (search c ''volumes'' []) (\<lambda>vols.
        let total_vols = int (length vols) - 1
        in io_bind (getattr_num cap ''provisioned_volumes'') (\<lambda>provisioned_vol.
           io_bind (oversubscription_ratio conf cap provisioned_vol) (\<lambda>ratio.
           io_bind (getattr_num cap ''free'') (\<lambda>free.
           io_bind (getattr_num cap ''total'') (\<lambda>total.
           (\<lambda>w. Some (Returns (),
              w\<lparr>self := (self w)\<lparr>stats := Some
                   \<lparr>free_capacity_gb = py_div free units_Mi,
                    total_capacity_gb = py_div total units_Mi,
                    total_volumes = total_vols,
                    provisioned_capacity_gb = py_div provisioned_vol units_Mi,
                    max_oversubscription_ratio = ratio\<rparr>\<rparr>\<rparr>))))))))))))"

text \<open>\<^verbatim>\<open>manage_existing_get_size\<close> (lines 828--838); \<^verbatim>\<open>existing_ref\<close> is a dictionary.\<close>

definition manage_existing_get_size :: "volume \<Rightarrow> (string \<times> string) list \<Rightarrow> int io" where
  "manage_existing_get_size volume existing_ref =
     (case map_of existing_ref ''source-name'' of
        None \<Rightarrow> io_raise (KeyError ''source-name'')
      | Some vol_name \<Rightarrow>
          io_bind the_client (\<lambda>c.
          io_bind (search c ''volumes'' [(''name'', Str vol_name)]) (\<lambda>v_rs.
          case v_rs of
            [] \<Rightarrow> io_raise (ManageExistingInvalidReference
                             ''Unable to get size of manage volume.'')
          | vol # _ \<Rightarrow>
              io_bind (getattr_num vol ''size'') (\<lambda>vol_size.
              let size = py_div vol_size units_Mi
              in io_return (math_ceil (of_int size))))))"

section \<open>Example worlds\<close>

text \<open>
  A driver with a replica configured and two quiet arrays that never fail: the concrete
  inputs the properties below are evaluated at.
\<close>

definition example_driver :: driver where
  "example_driver =
     \<lparr>client = Source, target = Some Target,
      replica = Some \<lparr>backend_id = ''10.0.0.2'', login = ''admin'', password = ''secret'',
                      rpo = Num 60\<rparr>,
      configuration = \<lparr>auto_calc_max_oversubscription_ratio = True,
                       max_over_subscription_ratio = 20,
                       kaminario_nodedup_substring = ''K2-nodedup''\<rparr>,
      stats = None\<rparr>"

definition example_world :: "k2obj list \<Rightarrow> k2obj list \<Rightarrow> world" where
  "example_world src tgt =
     \<lparr>self = example_driver, source_k2 = src, target_k2 = tgt, next_oid = 100, calls = [],
      faults = (\<lambda>n. None), clock = 0, async = (\<lambda>t arrays. arrays)\<rparr>"

definition capacity_object :: "int \<Rightarrow> int \<Rightarrow> int \<Rightarrow> int \<Rightarrow> k2obj" where
  "capacity_object free_kb total_kb provisioned_kb provisioned_vol =
     \<lparr>oid = 1, url = ''system/capacity'',
      attrs = [(''free'', Num free_kb), (''total'', Num total_kb),
               (''provisioned'', Num provisioned_kb),
               (''provisioned_volumes'', Num provisioned_vol)]\<rparr>"

definition reported_ratio :: "((exn, unit) outcome \<times> world) option \<Rightarrow> rat option" where
  "reported_ratio r =
     (case r of
        Some (Returns _, w') \<Rightarrow> map_option max_oversubscription_ratio (stats (self w'))
      | _ \<Rightarrow> None)"

definition example_volume :: "string \<Rightarrow> volume" where
  "example_volume i =
     \<lparr>volume_id = i, volume_size = 1, volume_type = None, replication_status = ''disabled''\<rparr>"

text \<open>A source array with the volume of \<open>a1\<close>, attached to a host through one mapping.\<close>

definition attached_array :: "k2obj list" where
  "attached_array =
     [\<lparr>oid = 1, url = ''volume_groups'', attrs = [(''name'', Str ''cvg-a1'')]\<rparr>,
      \<lparr>oid = 2, url = ''volumes'',
        attrs = [(''name'', Str ''cv-a1''), (''size'', Num 1048576), (''volume_group'', Ref 1)]\<rparr>,
      \<lparr>oid = 3, url = ''hosts'', attrs = [(''name'', Str ''node1'')]\<rparr>,
      \<lparr>oid = 4, url = ''mappings'',
        attrs = [(''volume'', Ref 2), (''host'', Ref 3), (''lun'', Num 10)]\<rparr>]"

text \<open>Collaborators for an evaluation in which none of them may be reached.\<close>

definition no_collaborators :: "unit collaborators" where
  "no_collaborators =
     \<lparr>brick_get_connector_properties = io_raise (ExternalError ''not reached''),
      initialize_connection = (\<lambda>v c. io_raise (ExternalError ''not reached'')),
      connect_device = (\<lambda>c. io_raise (ExternalError ''not reached'')),
      copy_volume = (\<lambda>s d n. io_raise (ExternalError ''not reached''))\<rparr>"

text \<open>
  The vocabulary of claim C5: the message of the rejection (lines 414--416) and the
  mappings of the clone's source volume on the array the driver's client points to.
\<close>

definition attached_message :: string where
  "attached_message = ''K2 driver does not support clone of a attached volume. ''
                 @ ''To get this done, create a snapshot from the attached ''
                 @ ''volume and then create a volume from the snapshot.''"

definition source_mappings :: "world \<Rightarrow> volume \<Rightarrow> k2obj list" where
  "source_mappings w src_vref =
     hits_of (k2_of w (client (self w))) ''mappings''
       [(''volume'', Refs (map oid
           (hits_of (k2_of w (client (self w))) ''volumes''
              [(''name'', Str (get_volume_name (volume_id src_vref)))])))]"

section \<open>Vocabulary of the failover properties\<close>

text \<open>
  The names \<^verbatim>\<open>failover_host\<close> looks a volume's target-side volume and session up under,
  whether an array has a volume of a name, the state of the first session of a name (the
  one \<^verbatim>\<open>hits[0]\<close> picks), and the update the batch reports for a volume. An array is well
  formed when its objects have distinct identifiers, none of them 0.
\<close>

definition rep_volume_name :: "volume \<Rightarrow> string" where
  "rep_volume_name v = get_rep_name (get_volume_name (volume_id v))"

definition rep_session_name :: "volume \<Rightarrow> string" where
  "rep_session_name v = get_rep_name (get_session_name (volume_id v))"

definition has_volume :: "k2obj list \<Rightarrow> string \<Rightarrow> bool" where
  "has_volume arr n = (hits_of arr ''volumes'' [(''name'', Str n)] \<noteq> [])"

definition session_state :: "k2obj list \<Rightarrow> string \<Rightarrow> val option" where
  "session_state arr n =
     (case hits_of arr ''replication/sessions'' [(''name'', Str n)] of
        [] \<Rightarrow> None
      | s # _ \<Rightarrow> map_of (attrs s) ''state'')"

definition well_formed :: "k2obj list \<Rightarrow> bool" where
  "well_formed arr = (distinct (map oid arr) \<and> 0 \<notin> set (map oid arr))"

definition failover_update :: "k2obj list \<Rightarrow> volume \<Rightarrow> volume_update" where
  "failover_update arr v =
     (if has_volume arr (rep_volume_name v)
      then (volume_id v, [(''replication_status'', ''failed-over'')])
      else (volume_id v, [(''status'', ''error'')]))"

text \<open>The array after the promotion of the sessions with an identifier in K.\<close>

definition promote :: "nat set \<Rightarrow> k2obj list \<Rightarrow> k2obj list" where
  "promote K arr =
     map (\<lambda>x. if oid x \<in> K \<and> map_of (attrs x) ''state'' = Some (Str ''in_sync'')
              then x\<lparr>attrs := (''state'', Str ''failed_over'')
                        # filter (\<lambda>kv. fst kv \<noteq> ''state'') (attrs x)\<rparr>
              else x) arr"

text \<open>The identifiers of the sessions that the volumes of a batch select on an array.\<close>

definition promoted_sessions :: "k2obj list \<Rightarrow> volume list \<Rightarrow> nat set" where
  "promoted_sessions arr vs =
     {k. \<exists>v s others. v \<in> set vs \<and> has_volume arr (rep_volume_name v)
          \<and> hits_of arr ''replication/sessions'' [(''name'', Str (rep_session_name v))] = s # others
          \<and> k = oid s}"

text \<open>
  A target array with the replica of volume \<open>a1\<close> and its session in state \<^verbatim>\<open>in_sync\<close>, and
  one with the replica volume but no session.
\<close>

definition replicated_array :: "k2obj list" where
  "replicated_array =
     [\<lparr>oid = 10, url = ''volume_groups'', attrs = [(''name'', Str ''rcvg-a1'')]\<rparr>,
      \<lparr>oid = 11, url = ''volumes'',
        attrs = [(''name'', Str ''rcv-a1''), (''size'', Num 1048576), (''volume_group'', Ref 10)]\<rparr>,
      \<lparr>oid = 12, url = ''replication/sessions'',
        attrs = [(''name'', Str ''rssn-a1''), (''state'', Str ''in_sync'')]\<rparr>]"

definition rejected_message :: string where
  "rejected_message = ''Failover requested on non replicated backend.''"

definition orphan_array :: "k2obj list" where
  "orphan_array =
     [\<lparr>oid = 11, url = ''volumes'',
        attrs = [(''name'', Str ''rcv-a1''), (''size'', Num 1048576)]\<rparr>]"

section \<open>Vocabulary of the rollback property\<close>

text \<open>
  \<open>quiet_from w\<close>: no call sent from now on fails. \<open>shrunk w w'\<close>: each array of \<open>w'\<close> holds
  objects of the same array of \<open>w\<close> only. \<open>is_search\<close> picks the searches of a call log.
\<close>

definition quiet_from :: "world \<Rightarrow> bool" where
  "quiet_from w = (\<forall>n \<ge> length (calls w). faults w n = None)"

fun is_search :: "call \<Rightarrow> bool" where
  "is_search (Search ep u q) = True"
| "is_search c = False"

definition shrunk :: "world \<Rightarrow> world \<Rightarrow> bool" where
  "shrunk w w' = (\<forall>ep. \<exists>P. k2_of w' ep = filter P (k2_of w ep))"

text \<open>
  A source array with the peer descriptor, a base volume group and its volume; a world
  with a fault plan given as a list; and the end state of a call: its outcome and the
  objects left on the two arrays.
\<close>

definition peer_object :: k2obj where
  "peer_object = \<lparr>oid = 1, url = ''replication/peer_k2arrays'',
                   attrs = [(''mgmt_host'', Str ''10.0.0.2'')]\<rparr>"

definition base_group :: k2obj where
  "base_group = \<lparr>oid = 2, url = ''volume_groups'',
                  attrs = [(''name'', Str ''cvg-a1''), (''quota'', Num 0), (''is_dedup'', Flag True)]\<rparr>"

definition base_volume :: k2obj where
  "base_volume = \<lparr>oid = 3, url = ''volumes'',
                   attrs = [(''name'', Str ''cv-a1''), (''size'', Num 1048576),
                            (''volume_group'', Ref 2)]\<rparr>"

definition failing_at :: "(nat \<times> string) list \<Rightarrow> world \<Rightarrow> world" where
  "failing_at plan w = w\<lparr>faults := map_of plan\<rparr>"

definition end_state ::
  "((exn, unit) outcome \<times> world) option \<Rightarrow> ((exn, unit) outcome \<times> k2obj list \<times> k2obj list) option" where
  "end_state r = map_option (\<lambda>(x, w'). (x, source_k2 w', target_k2 w')) r"

section \<open>Snapshots and extension\<close>

text \<open>The fields of a Cinder snapshot that the driver reads.\<close>

record snapshot =
  snapshot_id :: string
  snapshot_volume_id :: string





section \<open>Which array a call goes to\<close>

text \<open>
  \<open>call_within E c\<close>: the call \<open>c\<close> is sent to an array of \<open>E\<close> (a sleep is sent to none).
  \<open>handles_ok J E\<close>: under the invariant \<open>J\<close> of the driver object, \<^verbatim>\<open>self.client\<close> and
  \<^verbatim>\<open>self.target\<close> are in \<open>E\<close>, and \<open>J\<close> survives the two assignments the driver makes to
  itself, \<^verbatim>\<open>self.client = self.target\<close> and \<^verbatim>\<open>self.stats = ...\<close>. \<open>valid J E m Q\<close>: every
  outcome of \<open>m\<close> from a world under \<open>J\<close> is under \<open>J\<close>, has extended the call log by calls within
  \<open>E\<close> only and, when it is a return, returns a value in \<open>Q\<close>.
\<close>

fun call_within :: "endpoint set \<Rightarrow> call \<Rightarrow> bool" where
  "call_within E (Search ep u q) = (ep \<in> E)"
| "call_within E (Save ep ob) = (ep \<in> E)"
| "call_within E (Delete ep ob) = (ep \<in> E)"
| "call_within E (Refresh ep ob) = (ep \<in> E)"
| "call_within E (Sleep n) = True"

definition handles_ok :: "(driver \<Rightarrow> bool) \<Rightarrow> endpoint set \<Rightarrow> bool" where
  "handles_ok J E =
     ((\<forall>d. J d \<longrightarrow> client d \<in> E)
      \<and> (\<forall>d t. J d \<longrightarrow> target d = Some t \<longrightarrow> t \<in> E \<and> J (d\<lparr>client := t\<rparr>))
      \<and> (\<forall>d s. J d \<longrightarrow> J (d\<lparr>stats := s\<rparr>)))"

definition valid :: "(driver \<Rightarrow> bool) \<Rightarrow> endpoint set \<Rightarrow> 'a io \<Rightarrow> ('a \<Rightarrow> bool) \<Rightarrow> bool" where
  "valid J E m Q =
     (\<forall>w r w'. J (self w) \<and> m w = Some (r, w') \<longrightarrow>
        J (self w')
        \<and> (\<exists>cs. calls w' = calls w @ cs \<and> (\<forall>c \<in> set cs. call_within E c))
        \<and> (\<forall>x. r = Returns x \<longrightarrow> Q x))"

section \<open>Vocabulary of the teardown property\<close>

text \<open>
  \<open>polling ep obs\<close> is the log of one polling loop: for each object the loop held, in
  order, a re-fetch of it followed by a sleep of one second. \<open>state_of\<close> reads the state
  attribute of an object.
\<close>

definition polling :: "endpoint \<Rightarrow> k2obj list \<Rightarrow> call list" where
  "polling ep obs = concat (map (\<lambda>ob. [Refresh ep ob, Sleep 1]) obs)"

definition state_of :: "k2obj \<Rightarrow> val option" where
  "state_of ob = map_of (attrs ob) ''state''"

text \<open>
  \<open>poll_trace obj status w y\<close>: the outcome \<open>y\<close> of the polling loop started on \<open>obj\<close> has
  left the driver object alone and has logged the polling of objects whose state differs
  from \<open>status\<close>, the first of them being \<open>obj\<close>, followed by at most one more re-fetch
  (one that failed); a return gives an object of the same array in state \<open>status\<close>.
\<close>

definition poll_trace ::
  "RestObject \<Rightarrow> string \<Rightarrow> world \<Rightarrow> (exn, RestObject) outcome \<times> world \<Rightarrow> bool" where
  "poll_trace obj status w y =
     (self (snd y) = self w
       \<and> (\<exists>obs tail. calls (snd y) = calls w @ polling (fst obj) obs @ tail
            \<and> (\<forall>ob \<in> set obs. state_of ob \<noteq> Some (Str status))
            \<and> (obs \<noteq> [] \<longrightarrow> hd obs = snd obj)
            \<and> (tail = [] \<or> (\<exists>ob. tail = [Refresh (fst obj) ob]))
            \<and> (\<forall>obj'. fst y = Returns obj' \<longrightarrow>
                  tail = [] \<and> fst obj' = fst obj \<and> state_of (snd obj') = Some (Str status)
                  \<and> (obs = [] \<longrightarrow> obj' = obj))))"

section \<open>Sequences of operations\<close>







text \<open>
  The three phases of \<^verbatim>\<open>_delete_volume_replica\<close>: the lookup of the two sessions (lines
  474--477), the handshake (lines 478--483) and, after the deletion of the two sessions
  (lines 484--485), the removal of snapshots, target volume and target group (lines
  487--500).
\<close>

definition lookup_sessions :: "volume \<Rightarrow> (RestObject \<times> RestObject) io" where
  "lookup_sessions volume =
     io_bind the_client (\<lambda>c.
     io_bind (search c ''replication/sessions''
                [(''name'', Str (get_session_name (volume_id volume)))]) (\<lambda>rs.
     io_bind (first_hit rs) (\<lambda>src_ssn.
     io_bind the_target (\<lambda>t.
     io_bind (search t ''replication/sessions''
                [(''name'', Str (get_rep_name (get_session_name (volume_id volume))))]) (\<lambda>rs.
     io_bind (first_hit rs) (\<lambda>tgt_ssn.
     io_return (src_ssn, tgt_ssn)))))))"

definition handshake :: "RestObject \<Rightarrow> RestObject \<Rightarrow> (RestObject \<times> RestObject) io" where
  "handshake src_ssn tgt_ssn =
     io_bind (save (setattr src_ssn ''state'' (Str ''suspended''))) (\<lambda>src_ssn.
     io_bind (check_for_status tgt_ssn ''suspended'') (\<lambda>tgt_ssn.
     io_bind (save (setattr src_ssn ''state'' (Str ''idle''))) (\<lambda>src_ssn.
     io_bind (check_for_status tgt_ssn ''idle'') (\<lambda>tgt_ssn.
     io_return (src_ssn, tgt_ssn)))))"

definition remove_replica_objects :: "string \<Rightarrow> string \<Rightarrow> unit io" where
  "remove_replica_objects vg_name vol_name =
     io_bind the_client (\<lambda>c.
     io_bind (search c ''volume_groups'' [(''name'', Str vg_name)]) (\<lambda>vg.
     io_bind the_target (\<lambda>t.
     io_bind (search t ''volume_groups'' [(''name'', Str (get_rep_name vg_name))]) (\<lambda>rvg.
     io_bind the_client (\<lambda>c.
     io_bind (search c ''snapshots'' [(''volume_group'', Refs (map (oid \<circ> snd) vg))]) (\<lambda>snaps.
     io_then (for_each delete snaps)
    (io_bind the_target (\<lambda>t.
     io_bind (search t ''snapshots'' [(''volume_group'', Refs (map (oid \<circ> snd) rvg))]) (\<lambda>rsnaps.
     io_then (for_each delete rsnaps)
    (io_then (io_bind the_target (\<lambda>t. delete_by_ref t ''volumes'' (get_rep_name vol_name)))
             (io_bind the_target (\<lambda>t. delete_by_ref t ''volume_groups'' (get_rep_name vg_name)))
     ))))))))))"

text \<open>\<open>no_delete tr\<close>: the log \<open>tr\<close> holds no deletion.\<close>

fun is_delete :: "call \<Rightarrow> bool" where
  "is_delete (Delete ep ob) = True"
| "is_delete _ = False"

definition no_delete :: "call list \<Rightarrow> bool" where
  "no_delete tr = (\<not> list_ex is_delete tr)"

text \<open>
  The log of a complete handshake between the arrays \<open>c\<close> and \<open>t\<close>: the source session is
  saved as \<open>s1\<close>, the target session is polled while it reads as \<open>obs1\<close>, the source session
  is saved as \<open>s2\<close>, the target session is polled while it reads as \<open>o1\<close> and then \<open>obs2\<close>.
  \<open>handshake_states\<close>: \<open>s1\<close> is suspended, no object of \<open>obs1\<close> is, \<open>o1\<close> is; \<open>s2\<close> is idle,
  no object of \<open>obs2\<close> is, and \<open>o2\<close>, the object held at the end, is.
\<close>

definition handshake_log ::
  "endpoint \<Rightarrow> endpoint \<Rightarrow> k2obj \<Rightarrow> k2obj list \<Rightarrow> k2obj \<Rightarrow> k2obj \<Rightarrow> k2obj list \<Rightarrow> call list" where
  "handshake_log c t s1 obs1 s2 o1 obs2 =
     [Save c s1] @ polling t obs1 @ [Save c s2] @ polling t (o1 # obs2)"

definition handshake_states ::
  "k2obj \<Rightarrow> k2obj list \<Rightarrow> k2obj \<Rightarrow> k2obj \<Rightarrow> k2obj list \<Rightarrow> k2obj \<Rightarrow> bool" where
  "handshake_states s1 obs1 s2 o1 obs2 o2 =
     (state_of s1 = Some (Str ''suspended'')
      \<and> list_all (\<lambda>ob. state_of ob \<noteq> Some (Str ''suspended'')) obs1
      \<and> state_of o1 = Some (Str ''suspended'')
      \<and> state_of s2 = Some (Str ''idle'')
      \<and> list_all (\<lambda>ob. state_of ob \<noteq> Some (Str ''idle'')) obs2
      \<and> state_of o2 = Some (Str ''idle''))"

text \<open>The two searches of the lookup, for the session named \<open>sess\<close>.\<close>

definition session_searches :: "endpoint \<Rightarrow> endpoint \<Rightarrow> string \<Rightarrow> call list" where
  "session_searches c t sess =
     [Search c ''replication/sessions'' [(''name'', Str sess)],
      Search t ''replication/sessions'' [(''name'', Str (get_rep_name sess))]]"

section \<open>Array pairs that mirror\<close>

text \<open>
  \<open>lookup_oid i objs\<close> is the object that a re-fetch by the identifier \<open>i\<close> reads.
  \<open>mirrors i j f\<close>: what the array pair does by itself, \<open>f\<close>, leaves the source object \<open>i\<close>
  as it is and, when the target array holds an object \<open>j\<close>, gives it the state that the
  source object \<open>i\<close> has. \<open>mirroring_pair volume w\<close>: in the world \<open>w\<close> no call fails from
  now on, the two handles of the driver are the source and the target array, both sessions
  of the volume are found, the target session is the object its identifier names and has
  a state, and the pair mirrors the source session to the target session.
\<close>

definition lookup_oid :: "nat \<Rightarrow> k2obj list \<Rightarrow> k2obj option" where
  "lookup_oid i objs = (case filter (\<lambda>ob. oid ob = i) objs of [] \<Rightarrow> None | ob # _ \<Rightarrow> Some ob)"

definition mirrors ::
  "nat \<Rightarrow> nat \<Rightarrow> (nat \<Rightarrow> k2obj list \<times> k2obj list \<Rightarrow> k2obj list \<times> k2obj list) \<Rightarrow> bool" where
  "mirrors i j f =
     (\<forall>n s t. lookup_oid i (fst (f n (s, t))) = lookup_oid i s
        \<and> (\<forall>so v ob. lookup_oid i s = Some so \<and> state_of so = Some v \<and> lookup_oid j t = Some ob
             \<longrightarrow> (\<exists>ob'. lookup_oid j (snd (f n (s, t))) = Some ob' \<and> state_of ob' = Some v)))"

definition mirroring_pair :: "volume \<Rightarrow> world \<Rightarrow> bool" where
  "mirroring_pair volume w =
     (quiet_from w \<and> client (self w) = Source \<and> target (self w) = Some Target
      \<and> (case hits_of (source_k2 w) ''replication/sessions''
                 [(''name'', Str (get_session_name (volume_id volume)))] of
            [] \<Rightarrow> False
          | src # _ \<Rightarrow>
             (case hits_of (target_k2 w) ''replication/sessions''
                     [(''name'', Str (get_rep_name (get_session_name (volume_id volume))))] of
                [] \<Rightarrow> False
              | tgt # _ \<Rightarrow>
                  oid src \<noteq> 0 \<and> lookup_oid (oid tgt) (target_k2 w) = Some tgt
                  \<and> state_of tgt \<noteq> None \<and> mirrors (oid src) (oid tgt) (async w))))"

text \<open>
  \<open>mirror_state i j\<close> is such a pair: while the driver sleeps it copies the state of the
  source object \<open>i\<close> to the target object \<open>j\<close>, and it does nothing else. \<open>lagging_world\<close>
  holds one session on each array, both in sync, on that pair; \<open>torn_down_world\<close> is that
  world after the teardown.
\<close>

definition mirror_state ::
  "nat \<Rightarrow> nat \<Rightarrow> nat \<Rightarrow> k2obj list \<times> k2obj list \<Rightarrow> k2obj list \<times> k2obj list" where
  "mirror_state i j n arrays =
     (case lookup_oid i (fst arrays) of
        None \<Rightarrow> arrays
      | Some so \<Rightarrow>
          (case state_of so of
             None \<Rightarrow> arrays
           | Some v \<Rightarrow>
               (fst arrays,
                map (\<lambda>ob. if oid ob = j then snd (setattr (Target, ob) ''state'' v) else ob)
                    (snd arrays))))"

definition source_session :: "string \<Rightarrow> k2obj" where
  "source_session st =
     \<lparr>oid = 5, url = ''replication/sessions'',
      attrs = [(''state'', Str st), (''name'', Str ''ssn-a1'')]\<rparr>"

definition target_session :: "string \<Rightarrow> k2obj" where
  "target_session st =
     \<lparr>oid = 12, url = ''replication/sessions'',
      attrs = [(''state'', Str st), (''name'', Str ''rssn-a1'')]\<rparr>"

definition lagging_world :: world where
  "lagging_world =
     (example_world [source_session ''in_sync''] [target_session ''in_sync''])
       \<lparr>async := mirror_state 5 12\<rparr>"

definition torn_down_world :: world where
  "torn_down_world =
     lagging_world
       \<lparr>source_k2 := [], target_k2 := [], clock := 4,
        calls := session_searches Source Target ''ssn-a1''
          @ handshake_log Source Target
              (source_session ''suspended'') [target_session ''in_sync'', target_session ''in_sync'']
              (source_session ''idle'') (target_session ''suspended'') [target_session ''suspended'']
          @ [Delete Target (target_session ''idle''), Delete Source (source_session ''idle''),
             Search Source ''volume_groups'' [(''name'', Str ''cvg-a1'')],
             Search Target ''volume_groups'' [(''name'', Str ''rcvg-a1'')],
             Search Source ''snapshots'' [(''volume_group'', Refs [])],
             Search Target ''snapshots'' [(''volume_group'', Refs [])],
             Search Target ''volumes'' [(''name'', Str ''rcv-a1'')],
             Search Target ''volume_groups'' [(''name'', Str ''rcvg-a1'')]]\<rparr>"

chapter \<open>Verified properties\<close>

section \<open>Name derivation\<close>

lemma allowed_char_charset:
  "allowed_char c \<longleftrightarrow>
     c \<in> set ''0123456789abcdefghijklmnopqrstuvwxyzABCDEFGHIJKLMNOPQRSTUVWXYZ-_''"
  by (cases c) (simp add: allowed_char_def Let_def)

lemma allowed_re_sub_host: "list_all allowed_char (re_sub_host s)"
  by (induction s) (simp_all add: re_sub_host_def allowed_char_def)

lemma re_sub_host_fixed: "list_all allowed_char s \<Longrightarrow> re_sub_host s = s"
  by (induction s) (simp_all add: re_sub_host_def)

lemma list_all_take: "list_all P xs \<Longrightarrow> list_all P (take n xs)"
  by (simp add: list_all_iff) (meson in_set_takeD)

text \<open>
  Claim C8. \<^verbatim>\<open>get_initiator_host_name\<close> depends on the connector's host string only; its
  output has at most 32 characters (the first 32 positions of the host string), every
  one of them in \<^verbatim>\<open>[0-9a-zA-Z_-]\<close>; an allowed input character is kept and any other is
  \<^verbatim>\<open>_\<close>; and the function applied to a connector whose host is its own output returns
  that output.
\<close>

theorem get_initiator_host_name_sanitized:
  "(connector_host c' = connector_host c \<longrightarrow>
      get_initiator_host_name c' = get_initiator_host_name c)
   \<and> length (get_initiator_host_name c) = min 32 (length (connector_host c))
   \<and> length (get_initiator_host_name c) \<le> 32
   \<and> set (get_initiator_host_name c)
       \<subseteq> set ''0123456789abcdefghijklmnopqrstuvwxyzABCDEFGHIJKLMNOPQRSTUVWXYZ-_''
   \<and> (\<forall>i < length (get_initiator_host_name c).
         get_initiator_host_name c ! i =
           (if allowed_char (connector_host c ! i) then connector_host c ! i else CHR ''_''))
   \<and> get_initiator_host_name (c(''host'' \<mapsto> get_initiator_host_name c))
       = get_initiator_host_name c"
proof -
  let ?h = "connector_host c"
  let ?out = "get_initiator_host_name c"
  have out: "?out = take 32 (re_sub_host ?h)"
    by (simp add: get_initiator_host_name_def)
  have len: "length ?out = min 32 (length ?h)"
    by (simp add: out re_sub_host_def min.commute)
  have ok: "list_all allowed_char ?out"
    unfolding out by (rule list_all_take [OF allowed_re_sub_host])
  have charset: "set ?out
      \<subseteq> set ''0123456789abcdefghijklmnopqrstuvwxyzABCDEFGHIJKLMNOPQRSTUVWXYZ-_''"
  proof
    fix x assume "x \<in> set ?out"
    with ok have "allowed_char x" by (simp add: list_all_iff)
    then show "x \<in> set ''0123456789abcdefghijklmnopqrstuvwxyzABCDEFGHIJKLMNOPQRSTUVWXYZ-_''"
      by (simp only: allowed_char_charset)
  qed
  have pointwise: "\<forall>i < length ?out.
      ?out ! i = (if allowed_char (?h ! i) then ?h ! i else CHR ''_'')"
    by (simp add: out re_sub_host_def)
  have "connector_host (c(''host'' \<mapsto> ?out)) = ?out"
    by (simp add: connector_host_def)
  then have "get_initiator_host_name (c(''host'' \<mapsto> ?out)) = take 32 (re_sub_host ?out)"
    by (simp add: get_initiator_host_name_def)
  also have "\<dots> = take 32 ?out"
    by (simp only: re_sub_host_fixed [OF ok])
  also have "\<dots> = ?out"
    using len by simp
  finally have idem: "get_initiator_host_name (c(''host'' \<mapsto> ?out)) = ?out" .
  have pure: "connector_host c' = connector_host c \<longrightarrow>
      get_initiator_host_name c' = get_initiator_host_name c"
    by (simp add: get_initiator_host_name_def)
  from pure len charset pointwise idem show ?thesis
    by simp
qed

theorem get_initiator_host_name_sanitized_witness:
  "get_initiator_host_name [''host'' \<mapsto> ''node 1.example.org/rack#7:a-very-long-host-name''] =
     ''node_1_example_org_rack_7_a-very''
   \<and> get_initiator_host_name [''host'' \<mapsto> ''node_1_example_org_rack_7_a-very''] =
     ''node_1_example_org_rack_7_a-very''
   \<and> get_initiator_host_name Map.empty = []"
proof -
  let ?c = "[''host'' \<mapsto> ''node 1.example.org/rack#7:a-very-long-host-name'']"
  have v: "get_initiator_host_name ?c = ''node_1_example_org_rack_7_a-very''"
    by (simp add: get_initiator_host_name_def connector_host_def re_sub_host_def
        allowed_char_def)
  have same: "?c(''host'' \<mapsto> ''node_1_example_org_rack_7_a-very'')
      = [''host'' \<mapsto> ''node_1_example_org_rack_7_a-very'']"
    by simp
  have "get_initiator_host_name (?c(''host'' \<mapsto> get_initiator_host_name ?c))
      = get_initiator_host_name ?c"
    using get_initiator_host_name_sanitized [of ?c ?c] by blast
  then have "get_initiator_host_name [''host'' \<mapsto> ''node_1_example_org_rack_7_a-very'']
      = ''node_1_example_org_rack_7_a-very''"
    by (simp only: v same)
  moreover have "get_initiator_host_name Map.empty = []"
    by (simp add: get_initiator_host_name_def connector_host_def re_sub_host_def)
  ultimately show ?thesis using v by simp
qed

text \<open>
  Claim C9. The five derived names are the fixed prefix followed by the identifier, so
  two different identifiers give two different names of the same kind; and
  \<^verbatim>\<open>get_rep_name\<close> puts the letter \<^verbatim>\<open>r\<close> before the name.
\<close>

theorem name_derivation_injective:
  "get_volume_group_name vid = ''cvg-'' @ vid
   \<and> get_volume_name vid = ''cv-'' @ vid
   \<and> get_session_name vid = ''ssn-'' @ vid
   \<and> get_snap_name vid = ''cs-'' @ vid
   \<and> get_view_name vid = ''cview-'' @ vid
   \<and> (id1 \<noteq> id2 \<longrightarrow>
        get_volume_group_name id1 \<noteq> get_volume_group_name id2
      \<and> get_volume_name id1 \<noteq> get_volume_name id2
      \<and> get_session_name id1 \<noteq> get_session_name id2
      \<and> get_snap_name id1 \<noteq> get_snap_name id2
      \<and> get_view_name id1 \<noteq> get_view_name id2)
   \<and> get_rep_name name = CHR ''r'' # name
   \<and> prefix ''r'' (get_rep_name name)"
  by (simp add: get_volume_group_name_def get_volume_name_def get_session_name_def
      get_snap_name_def get_view_name_def get_rep_name_def)

theorem name_derivation_injective_witness:
  "get_volume_name ''a1'' \<noteq> get_volume_name ''a2''
   \<and> get_volume_group_name ''a1'' = ''cvg-a1''
   \<and> get_session_name ''a1'' \<noteq> get_session_name ''a2''
   \<and> get_rep_name (get_volume_name ''a1'') = ''rcv-a1''"
proof -
  have ne: "''a1'' \<noteq> ''a2''" by simp
  from name_derivation_injective [of "''a1''" "''a1''" "''a2''" "get_volume_name ''a1''"] ne
  show ?thesis
    by (simp add: get_volume_name_def get_volume_group_name_def get_session_name_def
        get_rep_name_def)
qed

section \<open>The resilient client\<close>

lemma contains_sublist: "contains s t \<longleftrightarrow> sublist s t"
  by (induction t) (auto simp: sublist_Cons_right)

lemma request_body_unlocked:
  "\<not> locked k \<Longrightarrow> request_body transport k =
     Some (surfaced (transport (sent k)),
           k\<lparr>sent := Suc (sent k), events := events k @ [Acquire, Call, Release]\<rparr>)"
  by (cases "transport (sent k)")
     (simp_all add: request_body_def krestlock_acquire_def krestlock_release_def
        super_request_def surfaced_def transient_busy_def should_retry_def)

lemma shift_all: "\<forall>i < Suc m. P (a + i) \<Longrightarrow> \<forall>i < m. P (Suc (a + i))"
proof (intro allI impI)
  fix i assume a: "\<forall>i < Suc m. P (a + i)" and "i < m"
  then have "Suc i < Suc m" by simp
  with a have "P (a + Suc i)" by blast
  then show "P (Suc (a + i))" by simp
qed

lemma retry_busy_then:
  assumes "\<not> locked k" "m < n" "\<forall>i < m. transient_busy (transport (sent k + i))"
    "\<not> transient_busy (transport (sent k + m))"
  shows "retry n (request_body transport) k =
     Some (surfaced (transport (sent k + m)),
           k\<lparr>sent := sent k + Suc m, events := events k @ attempts_log (Suc m)\<rparr>)"
  using assms
proof (induction n arbitrary: k m)
  case 0
  then show ?case by simp
next
  case (Suc n)
  show ?case
  proof (cases m)
    case 0
    with Suc.prems show ?thesis
      by (cases "transport (sent k)")
         (auto simp: request_body_unlocked surfaced_def attempts_log_def transient_busy_def split: if_splits)
  next
    case (Suc m')
    let ?k' = "k\<lparr>sent := Suc (sent k), events := events k @ [Acquire, Call, Release]\<rparr>"
    from Suc.prems Suc have busy0: "transient_busy (transport (sent k))"
      by (metis add.right_neutral zero_less_Suc)
    have n0: "n \<noteq> 0" using Suc.prems Suc by simp
    have step: "retry (Suc n) (request_body transport) k = retry n (request_body transport) ?k'"
      using busy0 Suc.prems(1) n0
      by (cases "transport (sent k)")
         (auto simp: request_body_unlocked surfaced_def transient_busy_def)
    have "retry n (request_body transport) ?k' =
      Some (surfaced (transport (sent ?k' + m')),
           ?k'\<lparr>sent := sent ?k' + Suc m', events := events ?k' @ attempts_log (Suc m')\<rparr>)"
      apply (rule Suc.IH)
      using Suc.prems Suc shift_all [of m' "\<lambda>j. transient_busy (transport j)" "sent k"]
      by simp_all
    then show ?thesis
      using step Suc by (simp add: attempts_log_def)
  qed
qed

lemma retry_all_busy:
  assumes "\<not> locked k" "0 < n" "\<forall>i < n. transient_busy (transport (sent k + i))"
  shows "retry n (request_body transport) k =
     Some (surfaced (transport (sent k + (n - 1))),
           k\<lparr>sent := sent k + n, events := events k @ attempts_log n\<rparr>)"
  using assms
proof (induction n arbitrary: k)
  case 0
  then show ?case by simp
next
  case (Suc n)
  let ?k' = "k\<lparr>sent := Suc (sent k), events := events k @ [Acquire, Call, Release]\<rparr>"
  from Suc.prems have busy0: "transient_busy (transport (sent k))"
    by (metis add.right_neutral zero_less_Suc)
  show ?case
  proof (cases "n = 0")
    case True
    then show ?thesis using busy0 Suc.prems(1)
      by (cases "transport (sent k)")
         (auto simp: request_body_unlocked surfaced_def transient_busy_def attempts_log_def)
  next
    case False
    have step: "retry (Suc n) (request_body transport) k = retry n (request_body transport) ?k'"
      using busy0 Suc.prems(1) False
      by (cases "transport (sent k)")
         (auto simp: request_body_unlocked surfaced_def transient_busy_def)
    have "retry n (request_body transport) ?k' =
      Some (surfaced (transport (sent ?k' + (n - 1))),
           ?k'\<lparr>sent := sent ?k' + n, events := events ?k' @ attempts_log n\<rparr>)"
      apply (rule Suc.IH)
      using Suc.prems False shift_all [of n "\<lambda>j. transient_busy (transport j)" "sent k"]
      by simp_all
    then show ?thesis
      using step False by (simp add: attempts_log_def)
  qed
qed

text \<open>
  Claim C3. A call through \<^verbatim>\<open>_request\<close> on a free lock: when the transport answers the
  first \<open>m\<close> attempts (\<open>m < 5\<close>) with a transient-busy error and attempt \<open>m + 1\<close> with
  anything else, the call ends with that answer (the value, or the error itself, not
  retried) after exactly \<open>m + 1\<close> attempts; in particular an error with another status
  code or without a marker on the first attempt propagates after one attempt. When all 5
  attempts are transient-busy the retryable error surfaces after exactly 5 attempts. Each
  attempt acquires the lock, calls the transport and releases the lock, and the lock is
  free at the end.
\<close>

theorem request_retries_transient_busy:
  assumes "\<not> locked k"
  shows "(m < MAX_K2_RETRY \<and> (\<forall>i < m. transient_busy (transport (sent k + i)))
          \<and> \<not> transient_busy (transport (sent k + m))
          \<longrightarrow> request transport k =
                Some (surfaced (transport (sent k + m)),
                      k\<lparr>sent := sent k + Suc m, events := events k @ attempts_log (Suc m)\<rparr>))
       \<and> ((\<forall>i < MAX_K2_RETRY. transient_busy (transport (sent k + i)))
          \<longrightarrow> (\<exists>reason. request transport k =
                Some (Raises (KaminarioRetryableException reason),
                      k\<lparr>sent := sent k + 5, events := events k @ attempts_log 5\<rparr>)))"
proof (intro conjI impI)
  assume "m < MAX_K2_RETRY \<and> (\<forall>i < m. transient_busy (transport (sent k + i)))
          \<and> \<not> transient_busy (transport (sent k + m))"
  with assms show "request transport k =
      Some (surfaced (transport (sent k + m)),
            k\<lparr>sent := sent k + Suc m, events := events k @ attempts_log (Suc m)\<rparr>)"
    unfolding request_def by (intro retry_busy_then) simp_all
next
  assume busy: "\<forall>i < MAX_K2_RETRY. transient_busy (transport (sent k + i))"
  then have "transient_busy (transport (sent k + 4))"
    by (simp add: MAX_K2_RETRY_def)
  then obtain reason where
    "surfaced (transport (sent k + 4)) = Raises (KaminarioRetryableException reason)"
    by (cases "transport (sent k + 4)") (simp_all add: surfaced_def transient_busy_def)
  moreover have "request transport k =
      Some (surfaced (transport (sent k + (MAX_K2_RETRY - 1))),
            k\<lparr>sent := sent k + MAX_K2_RETRY, events := events k @ attempts_log MAX_K2_RETRY\<rparr>)"
    unfolding request_def using assms busy
    by (intro retry_all_busy) (simp_all add: MAX_K2_RETRY_def)
  ultimately show "\<exists>reason. request transport k =
      Some (Raises (KaminarioRetryableException reason),
            k\<lparr>sent := sent k + 5, events := events k @ attempts_log 5\<rparr>)"
    by (simp add: MAX_K2_RETRY_def)
qed

theorem request_retries_transient_busy_witness:
  "request (\<lambda>n. if n < 2 then HTTPError 400 ''{error_msg: MC_ERR_BUSY}'' else Ok ''done'')
      \<lparr>locked = False, sent = 0, events = []\<rparr>
     = Some (Returns ''done'',
        \<lparr>locked = False, sent = 3,
         events = [Acquire, Call, Release, Acquire, Call, Release, Acquire, Call, Release]\<rparr>)
   \<and> request (\<lambda>n. HTTPError 404 ''MC_ERR_BUSY'' :: string response)
      \<lparr>locked = False, sent = 0, events = []\<rparr>
     = Some (Raises (K2HTTPError 404 ''MC_ERR_BUSY''),
        \<lparr>locked = False, sent = 1, events = [Acquire, Call, Release]\<rparr>)
   \<and> (\<exists>reason. request (\<lambda>n. HTTPError 400 ''MC_ERR_INPROGRESS'' :: string response)
      \<lparr>locked = False, sent = 0, events = []\<rparr>
     = Some (Raises (KaminarioRetryableException reason),
        \<lparr>locked = False, sent = 5,
         events = [Acquire, Call, Release, Acquire, Call, Release, Acquire, Call, Release,
                   Acquire, Call, Release, Acquire, Call, Release]\<rparr>))"
proof -
  let ?k = "\<lparr>locked = False, sent = 0, events = []\<rparr>"
  let ?t1 = "\<lambda>n::nat. if n < 2 then HTTPError 400 ''{error_msg: MC_ERR_BUSY}'' else Ok ''done''"
  let ?t2 = "\<lambda>n::nat. HTTPError 404 ''MC_ERR_BUSY'' :: string response"
  let ?t3 = "\<lambda>n::nat. HTTPError 400 ''MC_ERR_INPROGRESS'' :: string response"
  have free: "\<not> locked ?k" by simp
  have n5: "attempts_log 5 = [Acquire, Call, Release, Acquire, Call, Release, Acquire, Call, Release,
                   Acquire, Call, Release, Acquire, Call, Release]"
    by (simp add: attempts_log_def eval_nat_numeral)
  have h1: "2 < MAX_K2_RETRY \<and> (\<forall>i < 2. transient_busy (?t1 (sent ?k + i)))
      \<and> \<not> transient_busy (?t1 (sent ?k + 2))"
    by (simp add: MAX_K2_RETRY_def transient_busy_def K2_RETRY_ERRORS_def)
  have h2: "0 < MAX_K2_RETRY \<and> (\<forall>i < 0. transient_busy (?t2 (sent ?k + i)))
      \<and> \<not> transient_busy (?t2 (sent ?k + 0))"
    by (simp add: MAX_K2_RETRY_def transient_busy_def)
  have h3: "\<forall>i < MAX_K2_RETRY. transient_busy (?t3 (sent ?k + i))"
    by (simp add: transient_busy_def K2_RETRY_ERRORS_def)
  have r1: "request ?t1 ?k = Some (Returns ''done'',
        \<lparr>locked = False, sent = 3,
         events = [Acquire, Call, Release, Acquire, Call, Release, Acquire, Call, Release]\<rparr>)"
    using request_retries_transient_busy [OF free, of 2 ?t1] h1
    by (simp add: surfaced_def attempts_log_def eval_nat_numeral)
  have r2: "request ?t2 ?k = Some (Raises (K2HTTPError 404 ''MC_ERR_BUSY''),
        \<lparr>locked = False, sent = 1, events = [Acquire, Call, Release]\<rparr>)"
    using request_retries_transient_busy [OF free, of 0 ?t2] h2
    by (simp add: surfaced_def transient_busy_def attempts_log_def)
  have r3: "\<exists>reason. request ?t3 ?k = Some (Raises (KaminarioRetryableException reason),
        \<lparr>locked = False, sent = 5,
         events = [Acquire, Call, Release, Acquire, Call, Release, Acquire, Call, Release,
                   Acquire, Call, Release, Acquire, Call, Release]\<rparr>)"
    using request_retries_transient_busy [OF free, of 0 ?t3] h3
    by (simp add: n5)
  from r1 r2 r3 show ?thesis by blast
qed

section \<open>Calls on the arrays\<close>

lemma rest_call_ok:
  "faults w (length (calls w)) = None \<Longrightarrow>
     rest_call c w = Some (Returns (), w\<lparr>calls := calls w @ [c]\<rparr>)"
  by (simp add: rest_call_def)

lemma search_ok:
  "faults w (length (calls w)) = None \<Longrightarrow>
     search ep u q w =
       Some (Returns (map (Pair ep) (hits_of (k2_of w ep) u q)),
             w\<lparr>calls := calls w @ [Search ep u q]\<rparr>)"
  by (cases ep) (simp_all add: search_def io_then_def io_bind_def rest_call_def k2_of_def)

lemma search_fault:
  "faults w (length (calls w)) = Some msg \<Longrightarrow>
     search ep u q w = Some (Raises (K2Error msg), w\<lparr>calls := calls w @ [Search ep u q]\<rparr>)"
  by (simp add: search_def io_then_def io_bind_def rest_call_def)

section \<open>Size of an existing volume\<close>

text \<open>
  What \<^verbatim>\<open>manage_existing_get_size\<close> returns for a volume found on the array: its size
  divided by \<^verbatim>\<open>units.Mi\<close> and rounded down, since the integer division has already dropped
  the remainder when \<^verbatim>\<open>math.ceil\<close> is applied. A name with no volume raises the
  invalid-reference error.
\<close>

lemma manage_existing_get_size_found:
  assumes "faults w (length (calls w)) = None"
    and "map_of existing_ref ''source-name'' = Some vol_name"
    and "hits_of (k2_of w (client (self w))) ''volumes'' [(''name'', Str vol_name)] = vol # others"
    and "map_of (attrs vol) ''size'' = Some (Num n)"
  shows "manage_existing_get_size volume existing_ref w =
           Some (Returns \<lfloor>of_int n / (1048576 :: rat)\<rfloor>,
                 w\<lparr>calls := calls w @
                      [Search (client (self w)) ''volumes'' [(''name'', Str vol_name)]]\<rparr>)"
proof -
  have "\<lfloor>of_int n / (1048576 :: rat)\<rfloor> = n div 1048576"
    using floor_divide_of_int_eq [of n 1048576, where ?'a = rat] by simp
  with assms show ?thesis
    by (simp add: manage_existing_get_size_def io_bind_def the_client_def search_ok
        getattr_num_def getattr_def io_return_def py_div_def math_ceil_def units_Mi_def)
qed

lemma manage_existing_get_size_not_found:
  assumes "faults w (length (calls w)) = None"
    and "map_of existing_ref ''source-name'' = Some vol_name"
    and "hits_of (k2_of w (client (self w))) ''volumes'' [(''name'', Str vol_name)] = []"
  shows "manage_existing_get_size volume existing_ref w =
           Some (Raises (ManageExistingInvalidReference ''Unable to get size of manage volume.''),
                 w\<lparr>calls := calls w @
                      [Search (client (self w)) ''volumes'' [(''name'', Str vol_name)]]\<rparr>)"
  using assms
  by (simp add: manage_existing_get_size_def io_bind_def the_client_def search_ok io_raise_def)

text \<open>
  Claim C6 says that the size is rounded up, also when it is not a multiple of the unit.
  For a volume of 1048577 KB (one KB more than 1 GB) the code returns 1, not 2: the
  integer division \<^verbatim>\<open>vol.size / units.Mi\<close> is 1 and \<^verbatim>\<open>math.ceil(1)\<close> is 1. With a true
  division the result would be 2.
\<close>

theorem manage_existing_get_size_rounds_down:
  "map_option fst
     (manage_existing_get_size v [(''source-name'', ''legacy'')]
        (example_world
           [\<lparr>oid = 7, url = ''volumes'',
             attrs = [(''name'', Str ''legacy''), (''size'', Num 1048577)]\<rparr>] []))
     = Some (Returns 1)
   \<and> math_ceil (true_div 1048577 units_Mi) = 2"
  by (simp add: manage_existing_get_size_def io_bind_def the_client_def search_def io_then_def
      rest_call_def getattr_num_def getattr_def io_return_def py_div_def math_ceil_def
      units_Mi_def example_world_def example_driver_def hits_of_def k2_of_def true_div_def
      ceiling_eq_iff)

section \<open>Oversubscription ratio\<close>

text \<open>
  Claim C7, amended. On a stats refresh that finds the capacity object, the reported
  \<^verbatim>\<open>max_oversubscription_ratio\<close> is \<^verbatim>\<open>provisioned_volumes\<close> divided by \<^verbatim>\<open>total - free\<close>
  when auto-calculation is enabled, the array's \<^verbatim>\<open>provisioned\<close> counter is non-zero and
  \<^verbatim>\<open>total - free\<close> is not 0; in every other case it is the configured
  \<^verbatim>\<open>max_over_subscription_ratio\<close>.
\<close>

theorem update_volume_stats_ratio:
  assumes "faults w (length (calls w)) = None"
    and "faults w (Suc (length (calls w))) = None"
    and "hits_of (k2_of w (client (self w))) ''system/capacity'' [] = cap # others"
    and "map_of (attrs cap) ''free'' = Some (Num free_kb)"
    and "map_of (attrs cap) ''total'' = Some (Num total_kb)"
    and "map_of (attrs cap) ''provisioned_volumes'' = Some (Num provisioned_vol)"
    and "auto_calc_max_oversubscription_ratio (configuration (self w)) \<Longrightarrow>
           map_of (attrs cap) ''provisioned'' = Some provisioned"
  shows "reported_ratio (update_volume_stats w) =
           Some (if auto_calc_max_oversubscription_ratio (configuration (self w))
                    \<and> truthy provisioned \<and> total_kb - free_kb \<noteq> 0
                 then of_int provisioned_vol / of_int (total_kb - free_kb)
                 else max_over_subscription_ratio (configuration (self w)))"
  using assms
  by (simp add: update_volume_stats_def io_bind_def the_client_def get_self_def search_ok
      first_hit_def getattr_num_def getattr_def io_return_def oversubscription_ratio_def
      true_div_def Let_def reported_ratio_def)

theorem update_volume_stats_ratio_witness:
  "reported_ratio (update_volume_stats (example_world [capacity_object 100 1000 50 50] []))
     = Some (50 / (1000 - 100))
   \<and> reported_ratio (update_volume_stats
        ((example_world [capacity_object 100 1000 50 50] [])
           \<lparr>self := example_driver\<lparr>configuration :=
              \<lparr>auto_calc_max_oversubscription_ratio = False,
               max_over_subscription_ratio = 20,
               kaminario_nodedup_substring = ''K2-nodedup''\<rparr>\<rparr>\<rparr>))
     = Some 20"
proof -
  let ?w = "example_world [capacity_object 100 1000 50 50] []"
  let ?w' = "?w\<lparr>self := example_driver\<lparr>configuration :=
              \<lparr>auto_calc_max_oversubscription_ratio = False,
               max_over_subscription_ratio = 20,
               kaminario_nodedup_substring = ''K2-nodedup''\<rparr>\<rparr>\<rparr>"
  have a: "reported_ratio (update_volume_stats ?w) = Some (50 / (1000 - 100))"
    using update_volume_stats_ratio [of ?w "capacity_object 100 1000 50 50" "[]" 100 1000 50 "Num 50"]
    by (simp add: example_world_def example_driver_def capacity_object_def hits_of_def k2_of_def)
  have b: "reported_ratio (update_volume_stats ?w') = Some 20"
    using update_volume_stats_ratio [of ?w' "capacity_object 100 1000 50 50" "[]" 100 1000 50 "Num 50"]
    by (simp add: example_world_def example_driver_def capacity_object_def hits_of_def k2_of_def)
  from a b show ?thesis by simp
qed

text \<open>
  Claim C7 as stated fails: with auto-calculation enabled, \<^verbatim>\<open>total - free = 900\<close> and
  \<^verbatim>\<open>provisioned_volumes = 50\<close>, but a \<^verbatim>\<open>provisioned\<close> counter of 0, the reported ratio is
  the configured 20 and not 50 / 900.
\<close>

theorem update_volume_stats_ratio_counterexample:
  "auto_calc_max_oversubscription_ratio
     (configuration (self (example_world [capacity_object 100 1000 0 50] [])))
   \<and> (1000::int) - 100 \<noteq> 0
   \<and> reported_ratio (update_volume_stats (example_world [capacity_object 100 1000 0 50] []))
       = Some 20
   \<and> (20::rat) \<noteq> 50 / (1000 - 100)"
  by (simp add: update_volume_stats_def io_bind_def the_client_def get_self_def search_def
      io_then_def rest_call_def first_hit_def getattr_num_def getattr_def io_return_def
      oversubscription_ratio_def true_div_def Let_def reported_ratio_def example_world_def
      example_driver_def capacity_object_def hits_of_def k2_of_def)

section \<open>Clone of an attached volume\<close>

lemma k2_of_calls [simp]: "k2_of (w\<lparr>calls := cs\<rparr>) ep = k2_of w ep"
  by (simp add: k2_of_def split: endpoint.splits)

text \<open>
  Claim C5. When the source volume of a clone request has a mapping on the array, the
  request raises the driver's validation error, whatever the collaborators are. The
  world it leaves is the world it started in with two searches added to the log: no
  object was created or changed on either array and no collaborator was called.
\<close>

theorem create_cloned_volume_rejects_attached:
  assumes "faults w (length (calls w)) = None"
    and "faults w (Suc (length (calls w))) = None"
    and "source_mappings w src_vref \<noteq> []"
  shows "create_cloned_volume ext volume src_vref w =
           Some (Raises (KaminarioCinderDriverException attached_message),
                 w\<lparr>calls := calls w @
                    [Search (client (self w)) ''volumes''
                       [(''name'', Str (get_volume_name (volume_id src_vref)))],
                     Search (client (self w)) ''mappings''
                       [(''volume'', Refs (map oid
                           (hits_of (k2_of w (client (self w))) ''volumes''
                              [(''name'', Str (get_volume_name (volume_id src_vref)))])))]]\<rparr>)"
  using assms
  by (simp add: create_cloned_volume_def Let_def io_bind_def the_client_def search_ok
      io_raise_def source_mappings_def attached_message_def comp_def)

theorem create_cloned_volume_rejects_attached_witness:
  "create_cloned_volume no_collaborators (example_volume ''b2'') (example_volume ''a1'')
      (example_world attached_array [])
   = Some (Raises (KaminarioCinderDriverException attached_message),
        (example_world attached_array [])
          \<lparr>calls := [Search Source ''volumes'' [(''name'', Str ''cv-a1'')],
                     Search Source ''mappings'' [(''volume'', Refs [2])]]\<rparr>)"
proof -
  let ?w = "example_world attached_array []"
  have sel: "client (self ?w) = Source" "calls ?w = []" "faults ?w = (\<lambda>n. None)"
    by (simp_all add: example_world_def example_driver_def)
  have name: "get_volume_name (volume_id (example_volume ''a1'')) = ''cv-a1''"
    by (simp add: example_volume_def get_volume_name_def)
  have vols: "hits_of (k2_of ?w Source) ''volumes'' [(''name'', Str ''cv-a1'')]
     = [\<lparr>oid = 2, url = ''volumes'',
        attrs = [(''name'', Str ''cv-a1''), (''size'', Num 1048576), (''volume_group'', Ref 1)]\<rparr>]"
    by (simp add: example_world_def attached_array_def hits_of_def k2_of_def)
  have maps: "source_mappings ?w (example_volume ''a1'') \<noteq> []"
    unfolding source_mappings_def sel name vols
    by (simp add: example_world_def attached_array_def hits_of_def k2_of_def)
  show ?thesis
    using create_cloned_volume_rejects_attached
      [of ?w "example_volume ''a1''" no_collaborators "example_volume ''b2''"] maps
    by (simp add: sel vols name)
qed

section \<open>Failover\<close>

lemma k2_of_set_k2 [simp]: "k2_of (set_k2 ep objs w) ep = objs"
  by (cases ep) (simp_all add: k2_of_def set_k2_def)

lemma set_k2_fields [simp]:
  "self (set_k2 ep objs w) = self w" "faults (set_k2 ep objs w) = faults w"
  "calls (set_k2 ep objs w) = calls w"
  by (cases ep; simp add: set_k2_def)+

lemma search_quiet:
  "faults w = (\<lambda>n. None) \<Longrightarrow>
     search ep u q w =
       Some (Returns (map (Pair ep) (hits_of (k2_of w ep) u q)),
             w\<lparr>calls := calls w @ [Search ep u q]\<rparr>)"
  by (cases ep) (simp_all add: search_def io_then_def io_bind_def rest_call_def k2_of_def)

lemma save_quiet:
  "faults w = (\<lambda>n. None) \<Longrightarrow> oid ob \<noteq> 0 \<Longrightarrow>
     save (ep, ob) w =
       Some (Returns (ep, ob),
             set_k2 ep (map (\<lambda>x. if oid x = oid ob then ob else x) (k2_of w ep))
               (w\<lparr>calls := calls w @ [Save ep ob]\<rparr>))"
  by (simp add: save_def io_then_def io_bind_def rest_call_def cong del: if_weak_cong)

lemma map_of_filter_other: "k \<noteq> k' \<Longrightarrow> map_of (filter (\<lambda>kv. fst kv \<noteq> k') xs) k = map_of xs k"
  by (induction xs) auto

lemma promote_oids [simp]: "map oid (promote K arr) = map oid arr"
  by (induction arr) (simp_all add: promote_def)

lemma well_formed_promote [simp]: "well_formed (promote K arr) = well_formed arr"
  by (simp add: well_formed_def)

lemma hits_promote_name:
  "hits_of (promote K arr) u [(''name'', Str n)] = promote K (hits_of arr u [(''name'', Str n)])"
  by (induction arr) (auto simp: promote_def hits_of_def map_of_filter_other)

lemma promote_Nil [simp]: "promote K [] = []"
  by (simp add: promote_def)

lemma promote_Cons_oid: "promote K (s # xs) = s' # xs' \<Longrightarrow> oid s' = oid s"
  by (auto simp: promote_def split: if_splits)

lemma promote_eq_Nil [simp]: "(promote K arr = []) = (arr = [])"
  by (simp add: promote_def)

lemma has_volume_promote [simp]: "has_volume (promote K arr) n = has_volume arr n"
  unfolding has_volume_def hits_promote_name by simp

lemma promote_promote: "promote K (promote K' arr) = promote (K \<union> K') arr"
  by (induction arr) (auto simp: promote_def)

lemma session_state_promote:
  "session_state (promote K arr) n =
     (case hits_of arr ''replication/sessions'' [(''name'', Str n)] of
        [] \<Rightarrow> None
      | s # _ \<Rightarrow> if oid s \<in> K \<and> map_of (attrs s) ''state'' = Some (Str ''in_sync'')
                 then Some (Str ''failed_over'') else map_of (attrs s) ''state'')"
  unfolding session_state_def hits_promote_name
  by (cases "hits_of arr ''replication/sessions'' [(''name'', Str n)]")
     (auto simp: promote_def)

lemma session_state_promote_None [simp]:
  "(session_state (promote K arr) n = None) = (session_state arr n = None)"
  unfolding session_state_promote
  by (cases "hits_of arr ''replication/sessions'' [(''name'', Str n)]")
     (simp_all add: session_state_def)

lemma save_promote:
  assumes "well_formed arr" "s \<in> set arr" "map_of (attrs s) ''state'' = Some (Str ''in_sync'')"
  shows "map (\<lambda>x. if oid x = oid s
                  then s\<lparr>attrs := (''state'', Str ''failed_over'')
                        # filter (\<lambda>kv. fst kv \<noteq> ''state'') (attrs s)\<rparr>
                  else x) arr
         = promote {oid s} arr"
proof -
  have "\<forall>x \<in> set arr. oid x = oid s \<longrightarrow> x = s"
    using assms(1,2) by (auto simp: well_formed_def distinct_map inj_on_def)
  then show ?thesis using assms(3)
    by (auto simp: promote_def)
qed

lemma promote_unchanged:
  assumes "s \<in> set arr" "well_formed arr" "map_of (attrs s) ''state'' \<noteq> Some (Str ''in_sync'')"
  shows "promote {oid s} arr = arr"
proof -
  have "\<forall>x \<in> set arr. oid x = oid s \<longrightarrow> x = s"
    using assms(1,2) by (auto simp: well_formed_def distinct_map inj_on_def)
  with assms(3) have "\<forall>x \<in> set arr. \<not> (oid x \<in> {oid s} \<and>
      map_of (attrs x) ''state'' = Some (Str ''in_sync''))"
    by auto
  then show ?thesis
    unfolding promote_def by (intro map_idI) auto
qed

lemma hits_mem: "hits_of arr u q = s # others \<Longrightarrow> s \<in> set arr"
  by (metis filter_is_subset hits_of_def list.set_intros(1) subsetD)

text \<open>One call of \<^verbatim>\<open>_failover_volume\<close> on arrays that answer every call.\<close>

lemma failover_volume_quiet:
  assumes quiet: "faults w = (\<lambda>n. None)"
    and tgt: "target (self w) = Some t"
    and wf: "well_formed (k2_of w t)"
    and st: "session_state (k2_of w t) (rep_session_name v) \<noteq> None"
  shows "\<exists>cs. failover_volume v w =
           Some (Returns (),
                 set_k2 t
                   (case hits_of (k2_of w t) ''replication/sessions''
                           [(''name'', Str (rep_session_name v))] of
                      [] \<Rightarrow> k2_of w t
                    | s # _ \<Rightarrow> promote {oid s} (k2_of w t))
                   (w\<lparr>calls := calls w @ cs\<rparr>))"
proof -
  let ?q = "[(''name'', Str (rep_session_name v))]"
  from st obtain s others x where
    hits: "hits_of (k2_of w t) ''replication/sessions'' ?q = s # others"
    and x: "map_of (attrs s) ''state'' = Some x"
    by (auto simp: session_state_def split: list.splits)
  have mem: "s \<in> set (k2_of w t)" by (rule hits_mem [OF hits])
  with wf have nz: "oid s \<noteq> 0" by (auto simp: well_formed_def)
  show ?thesis
  proof (cases "x = Str ''in_sync''")
    case True
    have "failover_volume v w =
        Some (Returns (), set_k2 t (promote {oid s} (k2_of w t))
          (w\<lparr>calls := calls w @ [Search t ''replication/sessions'' ?q,
               Save t (s\<lparr>attrs := (''state'', Str ''failed_over'')
                        # filter (\<lambda>kv. fst kv \<noteq> ''state'') (attrs s)\<rparr>)]\<rparr>))"
      using quiet tgt hits x True nz save_promote [OF wf mem]
      by (simp add: failover_volume_def Let_def io_bind_def io_then_def the_target_def
          search_quiet first_hit_def getattr_def io_return_def setattr_def save_quiet
          rep_session_name_def)
    with hits show ?thesis by auto
  next
    case False
    have "failover_volume v w =
        Some (Returns (), w\<lparr>calls := calls w @ [Search t ''replication/sessions'' ?q]\<rparr>)"
      using quiet tgt hits x False
      by (simp add: failover_volume_def Let_def io_bind_def io_then_def the_target_def
          search_quiet first_hit_def getattr_def io_return_def rep_session_name_def)
    moreover have "promote {oid s} (k2_of w t) = k2_of w t"
      using promote_unchanged [OF mem wf] x False by simp
    moreover have "set_k2 t (k2_of w t) (w\<lparr>calls := calls w @ [Search t ''replication/sessions'' ?q]\<rparr>)
        = w\<lparr>calls := calls w @ [Search t ''replication/sessions'' ?q]\<rparr>"
      by (cases t) (simp_all add: set_k2_def k2_of_def)
    ultimately show ?thesis using hits by (auto intro!: exI [of _ "[Search t ''replication/sessions'' ?q]"])
  qed
qed

lemma k2_of_set_k2_other [simp]: "ep \<noteq> t \<Longrightarrow> k2_of (set_k2 t objs w) ep = k2_of w ep"
  by (cases t; cases ep; simp add: k2_of_def set_k2_def)

lemma promoted_sessions_promote [simp]:
  "promoted_sessions (promote K arr) vs = promoted_sessions arr vs"
proof -
  have "\<And>n k. (\<exists>s others. promote K (hits_of arr ''replication/sessions'' [(''name'', Str n)]) = s # others \<and> k = oid s)
      = (\<exists>s others. hits_of arr ''replication/sessions'' [(''name'', Str n)] = s # others \<and> k = oid s)"
    subgoal for n k
      by (cases "hits_of arr ''replication/sessions'' [(''name'', Str n)]")
         (auto simp: promote_def)
    done
  then show ?thesis
    by (simp add: promoted_sessions_def hits_promote_name)
qed

lemma failover_update_promote [simp]:
  "failover_update (promote K arr) v = failover_update arr v"
  by (simp add: failover_update_def)

lemma failover_volume_props:
  assumes quiet: "faults w = (\<lambda>n. None)"
    and tgt: "target (self w) = Some t"
    and wf: "well_formed (k2_of w t)"
    and st: "session_state (k2_of w t) (rep_session_name v) \<noteq> None"
  shows "\<exists>w' s others. failover_volume v w = Some (Returns (), w')
           \<and> hits_of (k2_of w t) ''replication/sessions'' [(''name'', Str (rep_session_name v))] = s # others
           \<and> k2_of w' t = promote {oid s} (k2_of w t)
           \<and> faults w' = faults w \<and> self w' = self w
           \<and> (\<forall>ep. ep \<noteq> t \<longrightarrow> k2_of w' ep = k2_of w ep)"
proof -
  from st obtain s others where
    hits: "hits_of (k2_of w t) ''replication/sessions'' [(''name'', Str (rep_session_name v))] = s # others"
    by (auto simp: session_state_def split: list.splits)
  from failover_volume_quiet [OF assms] hits obtain cs where
    "failover_volume v w = Some (Returns (), set_k2 t (promote {oid s} (k2_of w t)) (w\<lparr>calls := calls w @ cs\<rparr>))"
    by auto
  with hits show ?thesis by auto
qed

lemma failover_host_loop_quiet:
  assumes "faults w = (\<lambda>n. None)"
    and "target (self w) = Some t"
    and "well_formed (k2_of w t)"
    and "\<forall>v \<in> set vs. has_volume (k2_of w t) (rep_volume_name v)
            \<longrightarrow> session_state (k2_of w t) (rep_session_name v) \<noteq> None"
  shows "\<exists>w'. failover_host_loop vs ups w =
            Some (Returns (ups @ map (failover_update (k2_of w t)) vs), w')
          \<and> k2_of w' t = promote (promoted_sessions (k2_of w t) vs) (k2_of w t)
          \<and> faults w' = faults w \<and> self w' = self w
          \<and> (\<forall>ep. ep \<noteq> t \<longrightarrow> k2_of w' ep = k2_of w ep)"
  using assms
proof (induction vs arbitrary: w ups)
  case Nil
  have "promoted_sessions (k2_of w t) [] = {}" by (simp add: promoted_sessions_def)
  moreover have "promote {} (k2_of w t) = k2_of w t"
    by (simp add: promote_def)
  ultimately show ?case by (simp add: io_return_def)
next
  case (Cons v vs)
  let ?arr = "k2_of w t"
  let ?q = "[(''name'', Str (rep_volume_name v))]"
  let ?w1 = "w\<lparr>calls := calls w @ [Search t ''volumes'' ?q]\<rparr>"
  have w1: "faults ?w1 = (\<lambda>n. None)" "target (self ?w1) = Some t" "k2_of ?w1 t = ?arr"
    using Cons.prems by simp_all
  show ?case
  proof (cases "has_volume ?arr (rep_volume_name v)")
    case False
    then have nohit: "hits_of ?arr ''volumes'' ?q = []" by (simp add: has_volume_def)
    have step: "failover_host_loop (v # vs) ups w =
        failover_host_loop vs (ups @ [(volume_id v, [(''status'', ''error'')])]) ?w1"
      using Cons.prems(1,2) nohit
      by (simp add: Let_def io_bind_def the_target_def search_quiet rep_volume_name_def)
    have ps: "promoted_sessions ?arr (v # vs) = promoted_sessions ?arr vs"
      using False by (auto simp: promoted_sessions_def)
    have "\<exists>w'. failover_host_loop vs (ups @ [(volume_id v, [(''status'', ''error'')])]) ?w1 =
            Some (Returns ((ups @ [(volume_id v, [(''status'', ''error'')])])
                    @ map (failover_update (k2_of ?w1 t)) vs), w')
          \<and> k2_of w' t = promote (promoted_sessions (k2_of ?w1 t) vs) (k2_of ?w1 t)
          \<and> faults w' = faults ?w1 \<and> self w' = self ?w1
          \<and> (\<forall>ep. ep \<noteq> t \<longrightarrow> k2_of w' ep = k2_of ?w1 ep)"
      by (rule Cons.IH) (use Cons.prems w1 in simp_all)
    then obtain w' where
      r: "failover_host_loop vs (ups @ [(volume_id v, [(''status'', ''error'')])]) ?w1 =
            Some (Returns ((ups @ [(volume_id v, [(''status'', ''error'')])])
                    @ map (failover_update ?arr) vs), w')"
      and k: "k2_of w' t = promote (promoted_sessions ?arr vs) ?arr"
      and rest: "faults w' = faults w" "self w' = self w"
        "\<forall>ep. ep \<noteq> t \<longrightarrow> k2_of w' ep = k2_of w ep"
      by auto
    have fu: "failover_update ?arr v = (volume_id v, [(''status'', ''error'')])"
      using False by (simp add: failover_update_def)
    have "failover_host_loop (v # vs) ups w =
        Some (Returns (ups @ map (failover_update ?arr) (v # vs)), w')"
      unfolding step r by (simp add: fu)
    with k rest ps show ?thesis
      by (intro exI [of _ w']) (simp del: failover_host_loop.simps)
  next
    case True
    then obtain h hs where hit: "hits_of ?arr ''volumes'' ?q = h # hs"
      by (auto simp: has_volume_def neq_Nil_conv)
    have st: "session_state (k2_of ?w1 t) (rep_session_name v) \<noteq> None"
      using Cons.prems(4) True by simp
    have wf1: "well_formed (k2_of ?w1 t)" using Cons.prems(3) by simp
    from failover_volume_props [OF w1(1) w1(2) wf1 st]
    obtain w2 s others where
      fv: "failover_volume v ?w1 = Some (Returns (), w2)"
      and shit: "hits_of ?arr ''replication/sessions'' [(''name'', Str (rep_session_name v))] = s # others"
      and k2: "k2_of w2 t = promote {oid s} ?arr"
      and f2: "faults w2 = faults w" and s2: "self w2 = self w"
      and o2: "\<forall>ep. ep \<noteq> t \<longrightarrow> k2_of w2 ep = k2_of w ep"
      by auto
    have step: "failover_host_loop (v # vs) ups w =
        failover_host_loop vs
          (ups @ [(volume_id v, [(''replication_status'', FAILED_OVER)])]) w2"
      using Cons.prems(1,2) hit fv
      by (simp add: Let_def io_bind_def io_then_def the_target_def search_quiet rep_volume_name_def)
    have ps: "promoted_sessions ?arr (v # vs) = insert (oid s) (promoted_sessions ?arr vs)"
      using True shit by (auto simp: promoted_sessions_def)
    have pre: "\<forall>u \<in> set vs. has_volume (k2_of w2 t) (rep_volume_name u)
            \<longrightarrow> session_state (k2_of w2 t) (rep_session_name u) \<noteq> None"
      using Cons.prems(4) unfolding k2 by simp
    have "\<exists>w'. failover_host_loop vs
              (ups @ [(volume_id v, [(''replication_status'', FAILED_OVER)])]) w2 =
            Some (Returns ((ups @ [(volume_id v, [(''replication_status'', FAILED_OVER)])])
                    @ map (failover_update (k2_of w2 t)) vs), w')
          \<and> k2_of w' t = promote (promoted_sessions (k2_of w2 t) vs) (k2_of w2 t)
          \<and> faults w' = faults w2 \<and> self w' = self w2
          \<and> (\<forall>ep. ep \<noteq> t \<longrightarrow> k2_of w' ep = k2_of w2 ep)"
      by (rule Cons.IH) (use Cons.prems f2 s2 k2 pre in simp_all)
    then obtain w' where
      r: "failover_host_loop vs
              (ups @ [(volume_id v, [(''replication_status'', FAILED_OVER)])]) w2 =
            Some (Returns ((ups @ [(volume_id v, [(''replication_status'', FAILED_OVER)])])
                    @ map (failover_update ?arr) vs), w')"
      and k: "k2_of w' t = promote (insert (oid s) (promoted_sessions ?arr vs)) ?arr"
      and rest: "faults w' = faults w" "self w' = self w"
        "\<forall>ep. ep \<noteq> t \<longrightarrow> k2_of w' ep = k2_of w ep"
      unfolding k2 using f2 s2 o2 by (auto simp: promote_promote)
    have fu: "failover_update ?arr v = (volume_id v, [(''replication_status'', FAILED_OVER)])"
      using True by (simp add: failover_update_def FAILED_OVER_def)
    have "failover_host_loop (v # vs) ups w =
        Some (Returns (ups @ map (failover_update ?arr) (v # vs)), w')"
      unfolding step r by (simp add: fu)
    with k rest ps show ?thesis
      by (intro exI [of _ w']) (simp del: failover_host_loop.simps)
  qed
qed

text \<open>
  Claim C4, amended. With a replica configured, \<^verbatim>\<open>failover_host\<close> called with a non-empty
  \<^verbatim>\<open>secondary_id\<close> that differs from the replica's \<^verbatim>\<open>backend_id\<close> raises
  \<^verbatim>\<open>UnableToFailOver\<close> and leaves the world as it was (no call is sent). Called with no
  \<^verbatim>\<open>secondary_id\<close>, an empty one or the replica's own, on arrays that answer every call
  and where every volume of the batch that has a target-side volume also has a target
  session with a state, it returns the replica's \<^verbatim>\<open>backend_id\<close> and one update for each
  volume of the batch, in order: replication status \<^verbatim>\<open>failed-over\<close> when the target array
  has a volume under the volume's replication name, status \<^verbatim>\<open>error\<close> when it has none. For
  each volume with a target-side volume the target session ends in \<^verbatim>\<open>failed_over\<close> when it
  was \<^verbatim>\<open>in_sync\<close> and keeps its state otherwise; the other array is not changed.
\<close>

theorem failover_host_batch:
  assumes "replica (self w) = Some r"
  shows "(secondary_id = Some sid \<and> sid \<noteq> [] \<and> sid \<noteq> backend_id r \<longrightarrow>
            failover_host volumes secondary_id w
              = Some (Raises (UnableToFailOver rejected_message), w))
       \<and> ((secondary_id = None \<or> secondary_id = Some [] \<or> secondary_id = Some (backend_id r))
           \<and> faults w = (\<lambda>n. None) \<and> target (self w) = Some t \<and> well_formed (k2_of w t)
           \<and> (\<forall>v \<in> set volumes. has_volume (k2_of w t) (rep_volume_name v)
                  \<longrightarrow> session_state (k2_of w t) (rep_session_name v) \<noteq> None)
           \<longrightarrow> (\<exists>w'. failover_host volumes secondary_id w
                        = Some (Returns (backend_id r, map (failover_update (k2_of w t)) volumes), w')
                   \<and> (\<forall>v \<in> set volumes. has_volume (k2_of w t) (rep_volume_name v) \<longrightarrow>
                         session_state (k2_of w' t) (rep_session_name v)
                           = (if session_state (k2_of w t) (rep_session_name v) = Some (Str ''in_sync'')
                              then Some (Str ''failed_over'')
                              else session_state (k2_of w t) (rep_session_name v)))
                   \<and> (\<forall>ep. ep \<noteq> t \<longrightarrow> k2_of w' ep = k2_of w ep)))"
proof (intro conjI impI)
  assume "secondary_id = Some sid \<and> sid \<noteq> [] \<and> sid \<noteq> backend_id r"
  with assms show "failover_host volumes secondary_id w
      = Some (Raises (UnableToFailOver rejected_message), w)"
    by (simp add: failover_host_def io_then_def io_bind_def the_replica_def io_raise_def
        rejected_message_def)
next
  assume a: "(secondary_id = None \<or> secondary_id = Some [] \<or> secondary_id = Some (backend_id r))
           \<and> faults w = (\<lambda>n. None) \<and> target (self w) = Some t \<and> well_formed (k2_of w t)
           \<and> (\<forall>v \<in> set volumes. has_volume (k2_of w t) (rep_volume_name v)
                  \<longrightarrow> session_state (k2_of w t) (rep_session_name v) \<noteq> None)"
  let ?arr = "k2_of w t"
  from a have guard: "(case secondary_id of
          None \<Rightarrow> io_return ()
        | Some sid \<Rightarrow>
            if sid \<noteq> []
            then io_bind the_replica (\<lambda>r.
                   if sid \<noteq> backend_id r
                   then io_raise (UnableToFailOver ''Failover requested on non replicated backend.'')
                   else io_return ())
            else io_return ()) w = Some (Returns (), w)"
    using assms by (auto simp: io_return_def io_bind_def the_replica_def)
  from a have "\<exists>w'. failover_host_loop volumes [] w =
            Some (Returns ([] @ map (failover_update ?arr) volumes), w')
          \<and> k2_of w' t = promote (promoted_sessions ?arr volumes) ?arr
          \<and> faults w' = faults w \<and> self w' = self w
          \<and> (\<forall>ep. ep \<noteq> t \<longrightarrow> k2_of w' ep = k2_of w ep)"
    by (intro failover_host_loop_quiet) simp_all
  then obtain w' where
    loop: "failover_host_loop volumes [] w = Some (Returns (map (failover_update ?arr) volumes), w')"
    and k: "k2_of w' t = promote (promoted_sessions ?arr volumes) ?arr"
    and self': "self w' = self w"
    and other: "\<forall>ep. ep \<noteq> t \<longrightarrow> k2_of w' ep = k2_of w ep"
    by auto
  have res: "failover_host volumes secondary_id w
      = Some (Returns (backend_id r, map (failover_update ?arr) volumes), w')"
    using guard loop self' assms
    by (simp add: failover_host_def io_then_def io_bind_def the_replica_def io_return_def)
  have states: "\<forall>v \<in> set volumes. has_volume ?arr (rep_volume_name v) \<longrightarrow>
      session_state (k2_of w' t) (rep_session_name v)
        = (if session_state ?arr (rep_session_name v) = Some (Str ''in_sync'')
           then Some (Str ''failed_over'')
           else session_state ?arr (rep_session_name v))"
  proof (intro ballI impI)
    fix v assume v: "v \<in> set volumes" and hv: "has_volume ?arr (rep_volume_name v)"
    with a have "session_state ?arr (rep_session_name v) \<noteq> None" by blast
    then obtain s others where
      hits: "hits_of ?arr ''replication/sessions'' [(''name'', Str (rep_session_name v))] = s # others"
      by (cases "hits_of ?arr ''replication/sessions'' [(''name'', Str (rep_session_name v))]")
         (simp_all add: session_state_def)
    with v hv have "oid s \<in> promoted_sessions ?arr volumes"
      by (auto simp: promoted_sessions_def)
    with hits show "session_state (k2_of w' t) (rep_session_name v)
        = (if session_state ?arr (rep_session_name v) = Some (Str ''in_sync'')
           then Some (Str ''failed_over'')
           else session_state ?arr (rep_session_name v))"
      unfolding k session_state_promote by (simp add: session_state_def)
  qed
  from res states other
  show "\<exists>w'. failover_host volumes secondary_id w
                        = Some (Returns (backend_id r, map (failover_update (k2_of w t)) volumes), w')
                   \<and> (\<forall>v \<in> set volumes. has_volume (k2_of w t) (rep_volume_name v) \<longrightarrow>
                         session_state (k2_of w' t) (rep_session_name v)
                           = (if session_state (k2_of w t) (rep_session_name v) = Some (Str ''in_sync'')
                              then Some (Str ''failed_over'')
                              else session_state (k2_of w t) (rep_session_name v)))
                   \<and> (\<forall>ep. ep \<noteq> t \<longrightarrow> k2_of w' ep = k2_of w ep)"
    by blast
qed

lemma example_target [simp]:
  "k2_of (example_world src tgt) Target = tgt" "k2_of (example_world src tgt) Source = src"
  "replica (self (example_world src tgt)) =
     Some \<lparr>backend_id = ''10.0.0.2'', login = ''admin'', password = ''secret'', rpo = Num 60\<rparr>"
  "target (self (example_world src tgt)) = Some Target"
  "faults (example_world src tgt) = (\<lambda>n. None)"
  by (simp_all add: example_world_def example_driver_def k2_of_def)

theorem failover_host_batch_witness:
  "failover_host [example_volume ''a1'', example_volume ''b2''] (Some ''10.9.9.9'')
      (example_world [] replicated_array)
     = Some (Raises (UnableToFailOver rejected_message), example_world [] replicated_array)
   \<and> (\<exists>w'. failover_host [example_volume ''a1'', example_volume ''b2''] (Some ''10.0.0.2'')
               (example_world [] replicated_array)
          = Some (Returns (''10.0.0.2'',
                    [(''a1'', [(''replication_status'', ''failed-over'')]),
                     (''b2'', [(''status'', ''error'')])]), w')
        \<and> session_state (k2_of w' Target) ''rssn-a1'' = Some (Str ''failed_over'')
        \<and> k2_of w' Source = [])"
proof -
  let ?w = "example_world [] replicated_array"
  let ?r = "\<lparr>backend_id = ''10.0.0.2'', login = ''admin'', password = ''secret'', rpo = Num 60\<rparr>"
  let ?vs = "[example_volume ''a1'', example_volume ''b2'']"
  have rep: "replica (self ?w) = Some ?r" by simp
  have names: "rep_volume_name (example_volume ''a1'') = ''rcv-a1''"
    "rep_volume_name (example_volume ''b2'') = ''rcv-b2''"
    "rep_session_name (example_volume ''a1'') = ''rssn-a1''"
    "rep_session_name (example_volume ''b2'') = ''rssn-b2''"
    by (simp_all add: rep_volume_name_def rep_session_name_def example_volume_def
        get_rep_name_def get_volume_name_def get_session_name_def)
  have hv: "has_volume replicated_array ''rcv-a1''" "\<not> has_volume replicated_array ''rcv-b2''"
    by (simp_all add: has_volume_def hits_of_def replicated_array_def)
  have st: "session_state replicated_array ''rssn-a1'' = Some (Str ''in_sync'')"
    by (simp add: session_state_def hits_of_def replicated_array_def)
  have wf: "well_formed replicated_array"
    by (simp add: well_formed_def replicated_array_def)
  have ups: "failover_update replicated_array (example_volume ''a1'')
        = (''a1'', [(''replication_status'', ''failed-over'')])"
    "failover_update replicated_array (example_volume ''b2'') = (''b2'', [(''status'', ''error'')])"
    by (simp_all add: failover_update_def names hv) (simp_all add: example_volume_def)
  have a: "failover_host ?vs (Some ''10.9.9.9'') ?w
     = Some (Raises (UnableToFailOver rejected_message), ?w)"
    using failover_host_batch [OF rep, of "Some ''10.9.9.9''" "''10.9.9.9''" ?vs Target]
    by simp
  have b: "\<exists>w'. failover_host ?vs (Some ''10.0.0.2'') ?w
          = Some (Returns (''10.0.0.2'',
                    [(''a1'', [(''replication_status'', ''failed-over'')]),
                     (''b2'', [(''status'', ''error'')])]), w')
        \<and> session_state (k2_of w' Target) ''rssn-a1'' = Some (Str ''failed_over'')
        \<and> k2_of w' Source = []"
  proof -
    from failover_host_batch [OF rep, of "Some ''10.0.0.2''" "''10.0.0.2''" ?vs Target]
    obtain w' where
      "failover_host ?vs (Some ''10.0.0.2'') ?w
          = Some (Returns (''10.0.0.2'',
                    [(''a1'', [(''replication_status'', ''failed-over'')]),
                     (''b2'', [(''status'', ''error'')])]), w')"
      "session_state (k2_of w' Target) ''rssn-a1'' = Some (Str ''failed_over'')"
      "\<forall>ep. ep \<noteq> Target \<longrightarrow> k2_of w' ep = k2_of ?w ep"
      by (auto simp: names hv st wf ups)
    moreover from this have "k2_of w' Source = []" by simp
    ultimately show ?thesis by blast
  qed
  from a b show ?thesis by blast
qed

text \<open>
  Claim C4 as stated fails in two places. An empty \<^verbatim>\<open>secondary_id\<close> differs from the
  replica's \<^verbatim>\<open>backend_id\<close> and is not rejected: the guard of line 316 tests the truth
  value of \<^verbatim>\<open>secondary_id\<close> first. And for a volume whose target-side volume exists while
  its target session does not, \<^verbatim>\<open>_failover_volume\<close> reads \<^verbatim>\<open>hits[0]\<close> of an empty result:
  the call raises \<^verbatim>\<open>IndexError\<close> and reports nothing.
\<close>

theorem failover_host_batch_counterexample:
  "''10.0.0.2'' \<noteq> []
   \<and> map_option fst (failover_host [] (Some []) (example_world [] replicated_array))
       = Some (Returns (''10.0.0.2'', []))
   \<and> map_option fst (failover_host [example_volume ''a1''] None (example_world [] orphan_array))
       = Some (Raises IndexError)"
  by (simp add: failover_host_def io_then_def io_bind_def io_return_def io_raise_def
      the_replica_def the_target_def search_def rest_call_def hits_of_def k2_of_def
      failover_volume_def first_hit_def Let_def example_world_def example_driver_def
      example_volume_def orphan_array_def get_rep_name_def get_volume_name_def
      get_session_name_def)

section \<open>Rollback of a failed replication-session creation\<close>

lemma quiet_from_now: "quiet_from w \<Longrightarrow> faults w (length (calls w)) = None"
  by (simp add: quiet_from_def)

lemma quiet_from_calls:
  "quiet_from w \<Longrightarrow> quiet_from (w\<lparr>calls := calls w @ cs\<rparr>)"
  by (simp add: quiet_from_def)

lemma quiet_from_set_k2 [simp]: "quiet_from (set_k2 ep objs w) = quiet_from w"
  by (simp add: quiet_from_def)

lemma delete_quiet:
  "quiet_from w \<Longrightarrow>
     delete (ep, ob) w =
       Some (Returns (),
             set_k2 ep (filter (\<lambda>x. oid x \<noteq> oid ob) (k2_of w ep))
               (w\<lparr>calls := calls w @ [Delete ep ob]\<rparr>))"
  by (simp add: delete_def io_then_def io_bind_def rest_call_def quiet_from_now)

text \<open>The effect of the loop of \<^verbatim>\<open>_delete_by_ref\<close> over the hits.\<close>

lemma for_each_delete_quiet:
  assumes "quiet_from w"
  shows "\<exists>w'. for_each delete (map (Pair ep) hs) w = Some (Returns (), w')
           \<and> k2_of w' ep = filter (\<lambda>x. oid x \<notin> oid ` set hs) (k2_of w ep)
           \<and> (\<forall>e. e \<noteq> ep \<longrightarrow> k2_of w' e = k2_of w e)
           \<and> self w' = self w \<and> faults w' = faults w \<and> quiet_from w'
           \<and> calls w' = calls w @ map (Delete ep) hs"
  using assms
proof (induction hs arbitrary: w)
  case Nil
  then show ?case by (simp add: io_return_def)
next
  case (Cons h hs)
  let ?w1 = "set_k2 ep (filter (\<lambda>x. oid x \<noteq> oid h) (k2_of w ep))
               (w\<lparr>calls := calls w @ [Delete ep h]\<rparr>)"
  have q1: "quiet_from ?w1" using Cons.prems by (simp add: quiet_from_calls)
  from Cons.IH [OF q1] obtain w' where
    r: "for_each delete (map (Pair ep) hs) ?w1 = Some (Returns (), w')"
    and k: "k2_of w' ep = filter (\<lambda>x. oid x \<notin> oid ` set hs) (k2_of ?w1 ep)"
    and o: "\<forall>e. e \<noteq> ep \<longrightarrow> k2_of w' e = k2_of ?w1 e"
    and s: "self w' = self ?w1" "faults w' = faults ?w1" "quiet_from w'"
    and c: "calls w' = calls ?w1 @ map (Delete ep) hs"
    by blast
  have "for_each delete (map (Pair ep) (h # hs)) w = Some (Returns (), w')"
    using r Cons.prems by (simp add: io_then_def io_bind_def delete_quiet)
  moreover have "k2_of w' ep = filter (\<lambda>x. oid x \<notin> oid ` set (h # hs)) (k2_of w ep)"
    unfolding k by (simp add: conj_commute)
  ultimately show ?case using o s c by (intro exI [of _ w']) simp
qed

lemma hits_of_filter: "hits_of (filter P arr) u q = filter P (hits_of arr u q)"
  by (simp add: hits_of_def conj_commute)

lemma hits_of_removed:
  "hits_of (filter (\<lambda>x. oid x \<notin> oid ` set (hits_of arr u q)) arr) u q = []"
  unfolding hits_of_filter by (simp add: filter_empty_conv)

lemma shrunk_refl: "shrunk w w"
  unfolding shrunk_def by (intro allI exI [of _ "\<lambda>x. True"]) simp

lemma shrunk_trans: "shrunk w w1 \<Longrightarrow> shrunk w1 w2 \<Longrightarrow> shrunk w w2"
  unfolding shrunk_def
proof (intro allI)
  fix ep assume a: "\<forall>ep. \<exists>P. k2_of w1 ep = filter P (k2_of w ep)"
    and b: "\<forall>ep. \<exists>P. k2_of w2 ep = filter P (k2_of w1 ep)"
  from a obtain P where "k2_of w1 ep = filter P (k2_of w ep)" by blast
  moreover from b obtain Q where "k2_of w2 ep = filter Q (k2_of w1 ep)" by blast
  ultimately have "k2_of w2 ep = filter (\<lambda>x. P x \<and> Q x) (k2_of w ep)" by simp
  then show "\<exists>P. k2_of w2 ep = filter P (k2_of w ep)" by blast
qed

lemma shrunk_hits: "shrunk w w' \<Longrightarrow> hits_of (k2_of w ep) u q = [] \<Longrightarrow> hits_of (k2_of w' ep) u q = []"
  unfolding shrunk_def
proof -
  assume a: "\<forall>ep. \<exists>P. k2_of w' ep = filter P (k2_of w ep)" and b: "hits_of (k2_of w ep) u q = []"
  from a obtain P where "k2_of w' ep = filter P (k2_of w ep)" by blast
  then show ?thesis using b by (simp add: hits_of_filter)
qed

lemma delete_by_ref_quiet:
  assumes "quiet_from w"
  shows "\<exists>w' ds. delete_by_ref ep u n w = Some (Returns (), w')
           \<and> hits_of (k2_of w' ep) u [(''name'', Str n)] = []
           \<and> shrunk w w'
           \<and> self w' = self w \<and> faults w' = faults w \<and> quiet_from w'
           \<and> calls w' = calls w @ Search ep u [(''name'', Str n)] # ds
           \<and> filter is_search ds = []"
proof -
  let ?q = "[(''name'', Str n)]"
  let ?w1 = "w\<lparr>calls := calls w @ [Search ep u ?q]\<rparr>"
  let ?hs = "hits_of (k2_of w ep) u ?q"
  have q1: "quiet_from ?w1" using assms by (rule quiet_from_calls)
  from for_each_delete_quiet [OF q1, of ep ?hs] obtain w' where
    r: "for_each delete (map (Pair ep) ?hs) ?w1 = Some (Returns (), w')"
    and k: "k2_of w' ep = filter (\<lambda>x. oid x \<notin> oid ` set ?hs) (k2_of w ep)"
    and o: "\<forall>e. e \<noteq> ep \<longrightarrow> k2_of w' e = k2_of w e"
    and s: "self w' = self w" "faults w' = faults w" "quiet_from w'"
    and c: "calls w' = calls w @ Search ep u ?q # map (Delete ep) ?hs"
    by auto
  have run: "delete_by_ref ep u n w = Some (Returns (), w')"
    using r assms
    by (simp add: delete_by_ref_def io_bind_def search_ok quiet_from_now)
  have gone: "hits_of (k2_of w' ep) u ?q = []"
    unfolding k by (rule hits_of_removed)
  have sh: "shrunk w w'"
    unfolding shrunk_def
  proof
    fix e show "\<exists>P. k2_of w' e = filter P (k2_of w e)"
    proof (cases "e = ep")
      case True with k show ?thesis by blast
    next
      case False
      with o have "k2_of w' e = filter (\<lambda>x. True) (k2_of w e)" by simp
      then show ?thesis by blast
    qed
  qed
  have "filter is_search (map (Delete ep) ?hs) = []"
    by (induction ?hs) (simp_all add: filter_empty_conv)
  with run gone sh s c show ?thesis by blast
qed

lemma the_client_bind: "io_bind the_client f w = f (client (self w)) w"
  by (simp add: io_bind_def the_client_def)

lemma the_target_bind: "target (self w) = Some t \<Longrightarrow> io_bind the_target f w = f t w"
  by (simp add: io_bind_def the_target_def)

lemma io_then_Returns: "m w = Some (Returns x, w') \<Longrightarrow> io_then m n w = n w'"
  by (simp add: io_then_def io_bind_def)

text \<open>The \<^verbatim>\<open>except\<close> block when none of its calls fails.\<close>

lemma create_volume_replica_except_quiet:
  assumes q0: "quiet_from w" and c0: "client (self w) = c" and t0: "target (self w) = Some t"
  shows "\<exists>w' cs. create_volume_replica_except sn rsn rvol vol rvg vg ex w
             = Some (Raises (KaminarioCinderDriverException (message ex)), w')
          \<and> calls w' = calls w @ cs
          \<and> filter is_search cs =
               [Search c ''replication/sessions'' [(''name'', Str sn)],
                Search t ''replication/sessions'' [(''name'', Str rsn)],
                Search t ''volumes'' [(''name'', Str rvol)],
                Search c ''volumes'' [(''name'', Str vol)],
                Search t ''volume_groups'' [(''name'', Str rvg)],
                Search c ''volume_groups'' [(''name'', Str vg)]]
          \<and> hits_of (k2_of w' c) ''replication/sessions'' [(''name'', Str sn)] = []
          \<and> hits_of (k2_of w' t) ''replication/sessions'' [(''name'', Str rsn)] = []
          \<and> hits_of (k2_of w' t) ''volumes'' [(''name'', Str rvol)] = []
          \<and> hits_of (k2_of w' c) ''volumes'' [(''name'', Str vol)] = []
          \<and> hits_of (k2_of w' t) ''volume_groups'' [(''name'', Str rvg)] = []
          \<and> hits_of (k2_of w' c) ''volume_groups'' [(''name'', Str vg)] = []
          \<and> shrunk w w' \<and> self w' = self w"
proof -
  from delete_by_ref_quiet [OF q0, of c "''replication/sessions''" sn]
  obtain w1 d1 where
    r1: "delete_by_ref c ''replication/sessions'' sn w = Some (Returns (), w1)"
    and h1: "hits_of (k2_of w1 c) ''replication/sessions'' [(''name'', Str sn)] = []"
    and s1: "shrunk w w1" "self w1 = self w" "quiet_from w1"
    and c1: "calls w1 = calls w @ Search c ''replication/sessions'' [(''name'', Str sn)] # d1"
      "filter is_search d1 = []"
    by blast
  from delete_by_ref_quiet [OF s1(3), of t "''replication/sessions''" rsn]
  obtain w2 d2 where
    r2: "delete_by_ref t ''replication/sessions'' rsn w1 = Some (Returns (), w2)"
    and h2: "hits_of (k2_of w2 t) ''replication/sessions'' [(''name'', Str rsn)] = []"
    and s2: "shrunk w1 w2" "self w2 = self w1" "quiet_from w2"
    and c2: "calls w2 = calls w1 @ Search t ''replication/sessions'' [(''name'', Str rsn)] # d2"
      "filter is_search d2 = []"
    by blast
  from delete_by_ref_quiet [OF s2(3), of t "''volumes''" rvol]
  obtain w3 d3 where
    r3: "delete_by_ref t ''volumes'' rvol w2 = Some (Returns (), w3)"
    and h3: "hits_of (k2_of w3 t) ''volumes'' [(''name'', Str rvol)] = []"
    and s3: "shrunk w2 w3" "self w3 = self w2" "quiet_from w3"
    and c3: "calls w3 = calls w2 @ Search t ''volumes'' [(''name'', Str rvol)] # d3"
      "filter is_search d3 = []"
    by blast
  from delete_by_ref_quiet [OF s3(3), of c "''volumes''" vol]
  obtain w4 d4 where
    r4: "delete_by_ref c ''volumes'' vol w3 = Some (Returns (), w4)"
    and h4: "hits_of (k2_of w4 c) ''volumes'' [(''name'', Str vol)] = []"
    and s4: "shrunk w3 w4" "self w4 = self w3" "quiet_from w4"
    and c4: "calls w4 = calls w3 @ Search c ''volumes'' [(''name'', Str vol)] # d4"
      "filter is_search d4 = []"
    by blast
  from delete_by_ref_quiet [OF s4(3), of t "''volume_groups''" rvg]
  obtain w5 d5 where
    r5: "delete_by_ref t ''volume_groups'' rvg w4 = Some (Returns (), w5)"
    and h5: "hits_of (k2_of w5 t) ''volume_groups'' [(''name'', Str rvg)] = []"
    and s5: "shrunk w4 w5" "self w5 = self w4" "quiet_from w5"
    and c5: "calls w5 = calls w4 @ Search t ''volume_groups'' [(''name'', Str rvg)] # d5"
      "filter is_search d5 = []"
    by blast
  from delete_by_ref_quiet [OF s5(3), of c "''volume_groups''" vg]
  obtain w6 d6 where
    r6: "delete_by_ref c ''volume_groups'' vg w5 = Some (Returns (), w6)"
    and h6: "hits_of (k2_of w6 c) ''volume_groups'' [(''name'', Str vg)] = []"
    and s6: "shrunk w5 w6" "self w6 = self w5" "quiet_from w6"
    and c6: "calls w6 = calls w5 @ Search c ''volume_groups'' [(''name'', Str vg)] # d6"
      "filter is_search d6 = []"
    by blast
  have selfs: "self w1 = self w" "self w2 = self w" "self w3 = self w" "self w4 = self w"
    "self w5 = self w" "self w6 = self w"
    using s1(2) s2(2) s3(2) s4(2) s5(2) s6(2) by simp_all
  have run: "create_volume_replica_except sn rsn rvol vol rvg vg ex w
      = Some (Raises (KaminarioCinderDriverException (message ex)), w6)"
    unfolding create_volume_replica_except_def
    apply (subst io_then_Returns [where w' = w1 and x = "()"])
     apply (simp add: the_client_bind c0 r1)
    apply (subst io_then_Returns [where w' = w2 and x = "()"])
     apply (simp add: the_target_bind selfs t0 r2)
    apply (subst io_then_Returns [where w' = w3 and x = "()"])
     apply (simp add: the_target_bind selfs t0 r3)
    apply (subst io_then_Returns [where w' = w4 and x = "()"])
     apply (simp add: the_client_bind selfs c0 r4)
    apply (subst io_then_Returns [where w' = w5 and x = "()"])
     apply (simp add: the_target_bind selfs t0 r5)
    apply (subst io_then_Returns [where w' = w6 and x = "()"])
     apply (simp add: the_client_bind selfs c0 r6)
    apply (simp add: io_raise_def)
    done
  have sh26: "shrunk w2 w6" using s3(1) s4(1) s5(1) s6(1) by (blast intro: shrunk_trans)
  have sh16: "shrunk w1 w6" using s2(1) sh26 by (blast intro: shrunk_trans)
  have sh36: "shrunk w3 w6" using s4(1) s5(1) s6(1) by (blast intro: shrunk_trans)
  have sh46: "shrunk w4 w6" using s5(1) s6(1) by (blast intro: shrunk_trans)
  have sh06: "shrunk w w6" using s1(1) sh16 by (blast intro: shrunk_trans)
  let ?cs = "Search c ''replication/sessions'' [(''name'', Str sn)] # d1
        @ Search t ''replication/sessions'' [(''name'', Str rsn)] # d2
        @ Search t ''volumes'' [(''name'', Str rvol)] # d3
        @ Search c ''volumes'' [(''name'', Str vol)] # d4
        @ Search t ''volume_groups'' [(''name'', Str rvg)] # d5
        @ Search c ''volume_groups'' [(''name'', Str vg)] # d6"
  have calls: "calls w6 = calls w @ ?cs"
    by (simp add: c1(1) c2(1) c3(1) c4(1) c5(1) c6(1))
  have order: "filter is_search ?cs =
               [Search c ''replication/sessions'' [(''name'', Str sn)],
                Search t ''replication/sessions'' [(''name'', Str rsn)],
                Search t ''volumes'' [(''name'', Str rvol)],
                Search c ''volumes'' [(''name'', Str vol)],
                Search t ''volume_groups'' [(''name'', Str rvg)],
                Search c ''volume_groups'' [(''name'', Str vg)]]"
    by (simp add: c1(2) c2(2) c3(2) c4(2) c5(2) c6(2))
  show ?thesis
    using run calls order shrunk_hits [OF sh16 h1] shrunk_hits [OF sh26 h2]
      shrunk_hits [OF sh36 h3] shrunk_hits [OF sh46 h4] shrunk_hits [OF s6(1) h5] h6
      sh06 selfs(6)
    by blast
qed

lemma set_k2_next_oid [simp]:
  "self (w\<lparr>next_oid := n\<rparr>) = self w" "faults (w\<lparr>next_oid := n\<rparr>) = faults w"
  "calls (w\<lparr>next_oid := n\<rparr>) = calls w"
  by simp_all

text \<open>The \<^verbatim>\<open>try\<close> block when one of its three saves fails in the transport.\<close>

lemma create_volume_replica_try_fails:
  assumes f: "faults w = (\<lambda>n. if n = k then Some msg else None)"
    and lo: "length (calls w) \<le> k" and hi: "k \<le> length (calls w) + 2"
  shows "\<exists>w1. create_volume_replica_try k2peer vg vol rpo_val sn rsn rvg rvol w
            = Some (Raises (K2Error msg), w1)
          \<and> length (calls w1) = Suc k \<and> faults w1 = faults w \<and> self w1 = self w"
proof -
  from lo hi consider "k = length (calls w)" | "k = Suc (length (calls w))"
    | "k = Suc (Suc (length (calls w)))"
    by linarith
  then show ?thesis
  proof cases
    case 1
    with f show ?thesis
      by (simp add: create_volume_replica_try_def io_bind_def io_then_def the_client_def
          save_def new_def rest_call_def)
  next
    case 2
    with f show ?thesis
      by (simp add: create_volume_replica_try_def io_bind_def io_then_def the_client_def
          save_def new_def rest_call_def Let_def)
  next
    case 3
    with f show ?thesis
      by (simp add: create_volume_replica_try_def io_bind_def io_then_def the_client_def
          save_def new_def rest_call_def Let_def setattr_def)
  qed
qed

text \<open>
  Claim C1, amended. When the replication peer is found and one of the three saves of the
  \<^verbatim>\<open>try\<close> block of \<^verbatim>\<open>_create_volume_replica\<close> fails (the source session, the peer volume, or
  the transition to \<^verbatim>\<open>in_sync\<close>) and no later call fails, the driver searches by name, in
  this order, the source session, the target session, the target volume, the source
  volume, the target volume group and the source volume group, deleting every hit (none
  when the object is absent); it then raises \<^verbatim>\<open>KaminarioCinderDriverException\<close> with the
  message of the failure; and in the end state none of the six names is found on its
  array.
\<close>

theorem create_volume_replica_rollback:
  assumes c0: "client (self w) = c" and t0: "target (self w) = Some t"
    and r0: "replica (self w) = Some r"
    and vgn: "map_of (attrs (snd vg)) ''name'' = Some (Str vg_name)"
    and voln: "map_of (attrs (snd vol)) ''name'' = Some (Str vol_name)"
    and peer: "hits_of (k2_of w c) ''replication/peer_k2arrays''
                 [(''mgmt_host'', Str (backend_id r))] \<noteq> []"
    and f: "faults w = (\<lambda>n. if n = k then Some msg else None)"
    and lo: "length (calls w) < k" and hi: "k \<le> length (calls w) + 3"
  shows "\<exists>w'. create_volume_replica volume vg vol rpo_val w
             = Some (Raises (KaminarioCinderDriverException msg), w')
          \<and> filter is_search (drop (Suc k) (calls w')) =
               [Search c ''replication/sessions'' [(''name'', Str (get_session_name (volume_id volume)))],
                Search t ''replication/sessions''
                  [(''name'', Str (get_rep_name (get_session_name (volume_id volume))))],
                Search t ''volumes'' [(''name'', Str (get_rep_name vol_name))],
                Search c ''volumes'' [(''name'', Str vol_name)],
                Search t ''volume_groups'' [(''name'', Str (get_rep_name vg_name))],
                Search c ''volume_groups'' [(''name'', Str vg_name)]]
          \<and> hits_of (k2_of w' c) ''replication/sessions''
                [(''name'', Str (get_session_name (volume_id volume)))] = []
          \<and> hits_of (k2_of w' t) ''replication/sessions''
                [(''name'', Str (get_rep_name (get_session_name (volume_id volume))))] = []
          \<and> hits_of (k2_of w' t) ''volumes'' [(''name'', Str (get_rep_name vol_name))] = []
          \<and> hits_of (k2_of w' c) ''volumes'' [(''name'', Str vol_name)] = []
          \<and> hits_of (k2_of w' t) ''volume_groups'' [(''name'', Str (get_rep_name vg_name))] = []
          \<and> hits_of (k2_of w' c) ''volume_groups'' [(''name'', Str vg_name)] = []"
proof -
  let ?sn = "get_session_name (volume_id volume)"
  let ?q = "[(''mgmt_host'', Str (backend_id r))]"
  let ?w0 = "w\<lparr>calls := calls w @ [Search c ''replication/peer_k2arrays'' ?q]\<rparr>"
  from peer obtain k2peer others where
    hits: "hits_of (k2_of w c) ''replication/peer_k2arrays'' ?q = k2peer # others"
    by (auto simp: neq_Nil_conv)
  have f0: "faults ?w0 = (\<lambda>n. if n = k then Some msg else None)"
    and l0: "length (calls ?w0) \<le> k" and h0: "k \<le> length (calls ?w0) + 2"
    using f lo hi by simp_all
  from create_volume_replica_try_fails [OF f0 l0 h0]
  obtain w1 where
    tr: "create_volume_replica_try (c, k2peer) vg vol rpo_val ?sn (get_rep_name ?sn)
           (get_rep_name vg_name) (get_rep_name vol_name) ?w0 = Some (Raises (K2Error msg), w1)"
    and len1: "length (calls w1) = Suc k" and f1: "faults w1 = faults ?w0"
    and s1: "self w1 = self ?w0"
    by blast
  have q1: "quiet_from w1"
    using f f1 len1 by (simp add: quiet_from_def)
  have c1: "client (self w1) = c" and t1: "target (self w1) = Some t"
    using s1 c0 t0 by simp_all
  from create_volume_replica_except_quiet [OF q1 c1 t1,
      of ?sn "get_rep_name ?sn" "get_rep_name vol_name" vol_name "get_rep_name vg_name" vg_name
         "K2Error msg"]
  obtain w' cs where
    ex: "create_volume_replica_except ?sn (get_rep_name ?sn) (get_rep_name vol_name) vol_name
           (get_rep_name vg_name) vg_name (K2Error msg) w1
         = Some (Raises (KaminarioCinderDriverException (message (K2Error msg))), w')"
    and calls: "calls w' = calls w1 @ cs"
    and order: "filter is_search cs =
               [Search c ''replication/sessions'' [(''name'', Str ?sn)],
                Search t ''replication/sessions'' [(''name'', Str (get_rep_name ?sn))],
                Search t ''volumes'' [(''name'', Str (get_rep_name vol_name))],
                Search c ''volumes'' [(''name'', Str vol_name)],
                Search t ''volume_groups'' [(''name'', Str (get_rep_name vg_name))],
                Search c ''volume_groups'' [(''name'', Str vg_name)]]"
    and gone: "hits_of (k2_of w' c) ''replication/sessions'' [(''name'', Str ?sn)] = []"
      "hits_of (k2_of w' t) ''replication/sessions'' [(''name'', Str (get_rep_name ?sn))] = []"
      "hits_of (k2_of w' t) ''volumes'' [(''name'', Str (get_rep_name vol_name))] = []"
      "hits_of (k2_of w' c) ''volumes'' [(''name'', Str vol_name)] = []"
      "hits_of (k2_of w' t) ''volume_groups'' [(''name'', Str (get_rep_name vg_name))] = []"
      "hits_of (k2_of w' c) ''volume_groups'' [(''name'', Str vg_name)] = []"
    by blast
  have nofault: "faults w (length (calls w)) = None"
    using f lo by simp
  have run: "create_volume_replica volume vg vol rpo_val w
      = Some (Raises (KaminarioCinderDriverException msg), w')"
    using vgn voln c0 r0 hits tr ex nofault
    by (simp add: create_volume_replica_def Let_def io_bind_def getattr_str_def getattr_def
        io_return_def the_client_def the_replica_def search_ok io_catch_def)
  have "drop (Suc k) (calls w') = cs"
    using calls len1 by simp
  with run order gone show ?thesis by blast
qed

text \<open>The definitions an evaluation of \<^verbatim>\<open>_create_volume_replica\<close> unfolds.\<close>

lemmas run_defs =
  create_volume_replica_def create_volume_replica_try_def create_volume_replica_except_def
  delete_by_ref_def io_bind_def io_then_def io_catch_def io_return_def io_raise_def
  search_def save_def delete_def rest_call_def hits_of_def k2_of_def set_k2_def new_def
  setattr_def ref_def getattr_def getattr_str_def the_client_def the_target_def the_replica_def
  example_world_def example_driver_def example_volume_def failing_at_def end_state_def
  peer_object_def base_group_def base_volume_def replicated_array_def
  get_session_name_def get_rep_name_def Let_def

theorem create_volume_replica_rollback_witness:
  "end_state (create_volume_replica (example_volume ''a1'') (Source, base_group)
        (Source, base_volume) (Num 60)
        (failing_at [(2, ''array unreachable'')]
           (example_world [peer_object, base_group, base_volume] replicated_array)))
     = Some (Raises (KaminarioCinderDriverException ''array unreachable''), [peer_object], [])
   \<and> (\<exists>w'. create_volume_replica (example_volume ''a1'') (Source, base_group)
        (Source, base_volume) (Num 60)
        (failing_at [(2, ''array unreachable'')]
           (example_world [peer_object, base_group, base_volume] replicated_array))
        = Some (Raises (KaminarioCinderDriverException ''array unreachable''), w')
      \<and> filter is_search (drop 3 (calls w')) =
               [Search Source ''replication/sessions'' [(''name'', Str ''ssn-a1'')],
                Search Target ''replication/sessions'' [(''name'', Str ''rssn-a1'')],
                Search Target ''volumes'' [(''name'', Str ''rcv-a1'')],
                Search Source ''volumes'' [(''name'', Str ''cv-a1'')],
                Search Target ''volume_groups'' [(''name'', Str ''rcvg-a1'')],
                Search Source ''volume_groups'' [(''name'', Str ''cvg-a1'')]])"
proof -
  let ?w = "failing_at [(2, ''array unreachable'')]
           (example_world [peer_object, base_group, base_volume] replicated_array)"
  let ?r = "\<lparr>backend_id = ''10.0.0.2'', login = ''admin'', password = ''secret'', rpo = Num 60\<rparr>"
  have a: "end_state (create_volume_replica (example_volume ''a1'') (Source, base_group)
        (Source, base_volume) (Num 60) ?w)
     = Some (Raises (KaminarioCinderDriverException ''array unreachable''), [peer_object], [])"
    by (simp add: run_defs)
  have h: "client (self ?w) = Source" "target (self ?w) = Some Target"
    "replica (self ?w) = Some ?r"
    "map_of (attrs (snd (Source, base_group))) ''name'' = Some (Str ''cvg-a1'')"
    "map_of (attrs (snd (Source, base_volume))) ''name'' = Some (Str ''cv-a1'')"
    "hits_of (k2_of ?w Source) ''replication/peer_k2arrays''
                 [(''mgmt_host'', Str (backend_id ?r))] \<noteq> []"
    "faults ?w = (\<lambda>n. if n = 2 then Some ''array unreachable'' else None)"
    "length (calls ?w) < 2" "2 \<le> length (calls ?w) + 3"
    by (auto simp: failing_at_def example_world_def example_driver_def base_group_def
        base_volume_def peer_object_def hits_of_def k2_of_def)
  from create_volume_replica_rollback [OF h, of "example_volume ''a1''" "Num 60"]
  have b: "\<exists>w'. create_volume_replica (example_volume ''a1'') (Source, base_group)
        (Source, base_volume) (Num 60) ?w
        = Some (Raises (KaminarioCinderDriverException ''array unreachable''), w')
      \<and> filter is_search (drop 3 (calls w')) =
               [Search Source ''replication/sessions'' [(''name'', Str ''ssn-a1'')],
                Search Target ''replication/sessions'' [(''name'', Str ''rssn-a1'')],
                Search Target ''volumes'' [(''name'', Str ''rcv-a1'')],
                Search Source ''volumes'' [(''name'', Str ''cv-a1'')],
                Search Target ''volume_groups'' [(''name'', Str ''rcvg-a1'')],
                Search Source ''volume_groups'' [(''name'', Str ''cvg-a1'')]]"
    by (auto simp: example_volume_def get_session_name_def get_rep_name_def eval_nat_numeral)
  from a b show ?thesis by blast
qed

text \<open>
  Claim C1 as stated fails in two places. When the peer descriptor is not found,
  \<^verbatim>\<open>_create_volume_replica\<close> raises before its \<^verbatim>\<open>try\<close> block: nothing is deleted and the
  base volume and group stay. And the cleanup is not best-effort: when the first save
  fails and then the second search of the cleanup fails too, that second failure is what
  the call raises (not a driver error, and without the original cause), the remaining
  deletions are not attempted, and the base volume and group stay.
\<close>

theorem create_volume_replica_rollback_counterexample:
  "end_state (create_volume_replica (example_volume ''a1'') (Source, base_group)
        (Source, base_volume) (Num 60)
        (example_world [base_group, base_volume] replicated_array))
     = Some (Raises (KaminarioCinderDriverException ''Unable to find K2peer in source K2:''),
             [base_group, base_volume], replicated_array)
   \<and> end_state (create_volume_replica (example_volume ''a1'') (Source, base_group)
        (Source, base_volume) (Num 60)
        (failing_at [(1, ''array unreachable''), (3, ''still unreachable'')]
           (example_world [peer_object, base_group, base_volume] replicated_array)))
     = Some (Raises (K2Error ''still unreachable''),
             [peer_object, base_group, base_volume], replicated_array)"
  by (simp add: run_defs)

section \<open>Rules for the calls of an operation\<close>

text \<open>
  One rule per primitive and per way of composing, then one lemma per operation: an
  operation sends its calls to the arrays the two handles of the driver name, and to no
  other.
\<close>

lemma log_trans:
  assumes "\<exists>cs. b = a @ cs \<and> (\<forall>c \<in> set cs. P c)"
    and "\<exists>cs. d = b @ cs \<and> (\<forall>c \<in> set cs. P c)"
  shows "\<exists>cs. d = a @ cs \<and> (\<forall>c \<in> set cs. P c)"
proof -
  from assms obtain cs1 cs2 where "b = a @ cs1" "\<forall>c \<in> set cs1. P c"
    "d = b @ cs2" "\<forall>c \<in> set cs2. P c"
    by blast
  then have "d = a @ (cs1 @ cs2) \<and> (\<forall>c \<in> set (cs1 @ cs2). P c)" by auto
  then show ?thesis by blast
qed

lemma valid_weaken: "valid J E m Q \<Longrightarrow> (\<And>x. Q x \<Longrightarrow> Q' x) \<Longrightarrow> valid J E m Q'"
  unfolding valid_def by blast

lemma valid_return: "Q x \<Longrightarrow> valid J E (io_return x) Q"
  by (simp add: valid_def io_return_def)

lemma valid_raise: "valid J E (io_raise e) Q"
  by (simp add: valid_def io_raise_def)

lemma valid_bind:
  assumes m: "valid J E m Q" and f: "\<And>x. Q x \<Longrightarrow> valid J E (f x) Q'"
  shows "valid J E (io_bind m f) Q'"
  unfolding valid_def
proof (intro allI impI)
  fix w r w' assume a: "J (self w) \<and> io_bind m f w = Some (r, w')"
  then obtain r1 w1 where m1: "m w = Some (r1, w1)"
    by (cases "m w") (auto simp: io_bind_def)
  from m a m1 have j1: "J (self w1)"
    and c1: "\<exists>cs. calls w1 = calls w @ cs \<and> (\<forall>c \<in> set cs. call_within E c)"
    and q1: "\<forall>x. r1 = Returns x \<longrightarrow> Q x"
    unfolding valid_def by blast+
  show "J (self w') \<and> (\<exists>cs. calls w' = calls w @ cs \<and> (\<forall>c \<in> set cs. call_within E c))
      \<and> (\<forall>x. r = Returns x \<longrightarrow> Q' x)"
  proof (cases r1)
    case (Raises e)
    with a m1 have "r = Raises e" "w' = w1" by (simp_all add: io_bind_def)
    with j1 c1 show ?thesis by simp
  next
    case (Returns x)
    with a m1 have run: "f x w1 = Some (r, w')" by (simp add: io_bind_def)
    from q1 Returns have "Q x" by simp
    from f [OF this] j1 run have j2: "J (self w')"
      and c2: "\<exists>cs. calls w' = calls w1 @ cs \<and> (\<forall>c \<in> set cs. call_within E c)"
      and q2: "\<forall>x. r = Returns x \<longrightarrow> Q' x"
      unfolding valid_def by blast+
    from c1 c2 have "\<exists>cs. calls w' = calls w @ cs \<and> (\<forall>c \<in> set cs. call_within E c)"
      by (rule log_trans)
    with j2 q2 show ?thesis by simp
  qed
qed

lemma valid_then: "valid J E m Q \<Longrightarrow> valid J E n Q' \<Longrightarrow> valid J E (io_then m n) Q'"
  unfolding io_then_def by (rule valid_bind)

lemma valid_catch:
  assumes m: "valid J E m Q" and h: "\<And>e. valid J E (h e) Q"
  shows "valid J E (io_catch m h) Q"
  unfolding valid_def
proof (intro allI impI)
  fix w r w' assume a: "J (self w) \<and> io_catch m h w = Some (r, w')"
  then obtain r1 w1 where m1: "m w = Some (r1, w1)"
    by (cases "m w") (auto simp: io_catch_def)
  from m a m1 have j1: "J (self w1)"
    and c1: "\<exists>cs. calls w1 = calls w @ cs \<and> (\<forall>c \<in> set cs. call_within E c)"
    and q1: "\<forall>x. r1 = Returns x \<longrightarrow> Q x"
    unfolding valid_def by blast+
  show "J (self w') \<and> (\<exists>cs. calls w' = calls w @ cs \<and> (\<forall>c \<in> set cs. call_within E c))
      \<and> (\<forall>x. r = Returns x \<longrightarrow> Q x)"
  proof (cases r1)
    case (Returns x)
    with a m1 have "r = Returns x" "w' = w1" by (simp_all add: io_catch_def)
    with j1 c1 q1 Returns show ?thesis by simp
  next
    case (Raises e)
    with a m1 have run: "h e w1 = Some (r, w')" by (simp add: io_catch_def)
    from h [of e] j1 run have j2: "J (self w')"
      and c2: "\<exists>cs. calls w' = calls w1 @ cs \<and> (\<forall>c \<in> set cs. call_within E c)"
      and q2: "\<forall>x. r = Returns x \<longrightarrow> Q x"
      unfolding valid_def by blast+
    from c1 c2 have "\<exists>cs. calls w' = calls w @ cs \<and> (\<forall>c \<in> set cs. call_within E c)"
      by (rule log_trans)
    with j2 q2 show ?thesis by simp
  qed
qed

lemma valid_for_each:
  assumes "\<And>x. x \<in> set xs \<Longrightarrow> valid J E (f x) (\<lambda>_. True)"
  shows "valid J E (for_each f xs) (\<lambda>_. True)"
  using assms
  by (induction xs) (auto intro!: valid_return valid_then)

lemma valid_rest_call: "call_within E c \<Longrightarrow> valid J E (rest_call c) (\<lambda>_. True)"
  by (auto simp: valid_def rest_call_def split: option.splits)

lemma valid_search:
  "ep \<in> E \<Longrightarrow> valid J E (search ep u q) (\<lambda>hs. \<forall>h \<in> set hs. fst h = ep)"
  by (auto simp: valid_def search_def io_then_def io_bind_def rest_call_def split: option.splits)

lemma self_set_k2 [simp]: "self (set_k2 ep objs w) = self w" "calls (set_k2 ep objs w) = calls w"
  by (cases ep; simp add: set_k2_def)+

lemma valid_save: "fst obj \<in> E \<Longrightarrow> valid J E (save obj) (\<lambda>o'. fst o' = fst obj)"
  by (auto simp: valid_def save_def io_then_def io_bind_def rest_call_def Let_def
      split: option.splits if_splits)

lemma valid_delete: "fst obj \<in> E \<Longrightarrow> valid J E (delete obj) (\<lambda>_. True)"
  by (auto simp: valid_def delete_def io_then_def io_bind_def rest_call_def split: option.splits)

lemma valid_refresh: "fst obj \<in> E \<Longrightarrow> valid J E (refresh obj) (\<lambda>o'. fst o' = fst obj)"
  by (auto simp: valid_def refresh_def io_then_def io_bind_def rest_call_def
      split: option.splits list.splits)

lemma valid_sleep: "valid J E (sleep n) (\<lambda>_. True)"
  by (auto simp: valid_def sleep_def Let_def split: prod.splits)

lemma valid_the_client: "handles_ok J E \<Longrightarrow> valid J E the_client (\<lambda>c. c \<in> E)"
  by (auto simp: valid_def the_client_def handles_ok_def)

lemma valid_the_target: "handles_ok J E \<Longrightarrow> valid J E the_target (\<lambda>c. c \<in> E)"
  by (auto simp: valid_def the_target_def handles_ok_def split: option.splits)

lemma valid_the_replica: "valid J E the_replica (\<lambda>_. True)"
  by (auto simp: valid_def the_replica_def split: option.splits)

lemma valid_get_self: "valid J E get_self (\<lambda>_. True)"
  by (auto simp: valid_def get_self_def)

lemma valid_swap_client: "handles_ok J E \<Longrightarrow> valid J E swap_client (\<lambda>_. True)"
  by (auto simp: valid_def swap_client_def io_bind_def the_target_def handles_ok_def
      split: option.splits)

lemma valid_getattr: "valid J E (getattr obj k) (\<lambda>_. True)"
  by (auto simp: valid_def getattr_def io_raise_def io_return_def split: option.splits)

lemma valid_getattr_str: "valid J E (getattr_str obj k) (\<lambda>_. True)"
  unfolding getattr_str_def
  by (rule valid_bind [OF valid_getattr]) (auto intro: valid_return valid_raise split: val.splits)

lemma valid_getattr_num: "valid J E (getattr_num obj k) (\<lambda>_. True)"
  unfolding getattr_num_def
  by (rule valid_bind [OF valid_getattr]) (auto intro: valid_return valid_raise split: val.splits)

lemma valid_first_hit: "\<forall>h \<in> set hs. P h \<Longrightarrow> valid J E (first_hit hs) P"
  by (cases hs) (auto simp: first_hit_def intro: valid_return valid_raise)

lemma valid_delete_by_ref: "ep \<in> E \<Longrightarrow> valid J E (delete_by_ref ep u n) (\<lambda>_. True)"
  unfolding delete_by_ref_def
  by (rule valid_bind [OF valid_search]) (auto intro!: valid_for_each valid_delete)

lemma valid_return_any: "valid J E (io_return x) (\<lambda>_. True)"
  by (simp add: valid_return)

lemma valid_any: "valid J E m Q \<Longrightarrow> valid J E m (\<lambda>_. True)"
  unfolding valid_def by blast

lemma valid_bind_any:
  "valid J E m (\<lambda>_. True) \<Longrightarrow> (\<And>x. valid J E (f x) Q) \<Longrightarrow> valid J E (io_bind m f) Q"
  by (rule valid_bind)

lemma B_client:
  "handles_ok J E \<Longrightarrow> (\<And>c. c \<in> E \<Longrightarrow> valid J E (f c) Q) \<Longrightarrow> valid J E (io_bind the_client f) Q"
  by (rule valid_bind [OF valid_the_client])

lemma B_target:
  "handles_ok J E \<Longrightarrow> (\<And>c. c \<in> E \<Longrightarrow> valid J E (f c) Q) \<Longrightarrow> valid J E (io_bind the_target f) Q"
  by (rule valid_bind [OF valid_the_target])

lemma B_search:
  "ep \<in> E \<Longrightarrow> (\<And>hs. \<forall>h \<in> set hs. fst h \<in> E \<Longrightarrow> valid J E (f hs) Q)
     \<Longrightarrow> valid J E (io_bind (search ep u q) f) Q"
  by (rule valid_bind [OF valid_search]) auto

lemma B_save:
  "fst obj \<in> E \<Longrightarrow> (\<And>o'. fst o' \<in> E \<Longrightarrow> valid J E (f o') Q)
     \<Longrightarrow> valid J E (io_bind (save obj) f) Q"
  by (rule valid_bind [OF valid_save]) auto

lemma B_refresh:
  "fst obj \<in> E \<Longrightarrow> (\<And>o'. fst o' \<in> E \<Longrightarrow> valid J E (f o') Q)
     \<Longrightarrow> valid J E (io_bind (refresh obj) f) Q"
  by (rule valid_bind [OF valid_refresh]) auto

lemma B_first_hit:
  "\<forall>h \<in> set hs. fst h \<in> E \<Longrightarrow> (\<And>h. fst h \<in> E \<Longrightarrow> valid J E (f h) Q)
     \<Longrightarrow> valid J E (io_bind (first_hit hs) f) Q"
  by (rule valid_bind [OF valid_first_hit [where P = "\<lambda>h. fst h \<in> E"]]) auto

lemma B_getattr: "(\<And>x. valid J E (f x) Q) \<Longrightarrow> valid J E (io_bind (getattr obj k) f) Q"
  by (rule valid_bind_any [OF valid_getattr])

lemma B_getattr_str: "(\<And>x. valid J E (f x) Q) \<Longrightarrow> valid J E (io_bind (getattr_str obj k) f) Q"
  by (rule valid_bind_any [OF valid_getattr_str])

lemma B_getattr_num: "(\<And>x. valid J E (f x) Q) \<Longrightarrow> valid J E (io_bind (getattr_num obj k) f) Q"
  by (rule valid_bind_any [OF valid_getattr_num])

lemma B_replica: "(\<And>x. valid J E (f x) Q) \<Longrightarrow> valid J E (io_bind the_replica f) Q"
  by (rule valid_bind_any [OF valid_the_replica])

lemma B_self: "(\<And>x. valid J E (f x) Q) \<Longrightarrow> valid J E (io_bind get_self f) Q"
  by (rule valid_bind_any [OF valid_get_self])

lemma B_sleep: "(\<And>x. valid J E (f x) Q) \<Longrightarrow> valid J E (io_bind (sleep n) f) Q"
  by (rule valid_bind_any [OF valid_sleep])

lemma B_if:
  "valid J E (if c then a else b) (\<lambda>_. True) \<Longrightarrow> (\<And>x. valid J E (f x) Q)
     \<Longrightarrow> valid J E (io_bind (if c then a else b) f) Q"
  by (rule valid_bind_any)

lemma B_catch:
  "valid J E (io_catch a h) (\<lambda>_. True) \<Longrightarrow> (\<And>x. valid J E (f x) Q)
     \<Longrightarrow> valid J E (io_bind (io_catch a h) f) Q"
  by (rule valid_bind_any)

lemma B_case_volume_arg:
  "valid J E (case_volume_arg a b v) (\<lambda>_. True) \<Longrightarrow> (\<And>x. valid J E (f x) Q)
     \<Longrightarrow> valid J E (io_bind (case_volume_arg a b v) f) Q"
  by (rule valid_bind_any)

lemma B_bind:
  "valid J E (io_bind a b) (\<lambda>_. True) \<Longrightarrow> (\<And>x. valid J E (f x) Q)
     \<Longrightarrow> valid J E (io_bind (io_bind a b) f) Q"
  by (rule valid_bind_any)

lemma B_then:
  "valid J E (io_then a b) (\<lambda>_. True) \<Longrightarrow> (\<And>x. valid J E (f x) Q)
     \<Longrightarrow> valid J E (io_bind (io_then a b) f) Q"
  by (rule valid_bind_any)

lemma B_return: "valid J E (f x) Q \<Longrightarrow> valid J E (io_bind (io_return x) f) Q"
  by (rule valid_bind [OF valid_return [where Q = "\<lambda>y. y = x"]]) simp_all

lemma valid_then_any:
  "valid J E m (\<lambda>_. True) \<Longrightarrow> valid J E n Q \<Longrightarrow> valid J E (io_then m n) Q"
  by (rule valid_then)

lemma valid_set_stats:
  "handles_ok J E \<Longrightarrow>
     valid J E (\<lambda>w. Some (Returns (), w\<lparr>self := (self w)\<lparr>stats := s\<rparr>\<rparr>)) (\<lambda>_. True)"
  by (auto simp: valid_def handles_ok_def)

lemma valid_search_any: "ep \<in> E \<Longrightarrow> valid J E (search ep u q) (\<lambda>_. True)"
  by (rule valid_any [OF valid_search])

lemma valid_save_any: "fst obj \<in> E \<Longrightarrow> valid J E (save obj) (\<lambda>_. True)"
  by (rule valid_any [OF valid_save])

lemmas valid_rules =
  B_client B_target B_search B_save B_refresh B_first_hit B_getattr B_getattr_str
  B_getattr_num B_replica B_self B_sleep B_if B_catch B_case_volume_arg B_bind B_then B_return
  valid_then_any valid_catch valid_return_any valid_raise valid_for_each valid_set_stats
  valid_delete valid_sleep valid_swap_client valid_delete_by_ref valid_save_any










section \<open>The polling loop\<close>

text \<open>An outcome of a bind is a raise of its first part or an outcome of its second.\<close>

lemma io_bind_cases:
  assumes "io_bind m f w = Some (r, w')"
  obtains (raised) e where "m w = Some (Raises e, w')" "r = Raises e"
        | (returned) x w1 where "m w = Some (Returns x, w1)" "f x w1 = Some (r, w')"
proof (cases "m w")
  case None
  with assms show ?thesis by (simp add: io_bind_def)
next
  case (Some p)
  obtain r1 w1 where p: "p = (r1, w1)" by (cases p)
  show ?thesis
  proof (cases r1)
    case (Returns x)
    with Some p assms returned show ?thesis by (simp add: io_bind_def)
  next
    case (Raises e)
    with Some p assms raised show ?thesis by (simp add: io_bind_def)
  qed
qed

lemma refresh_cases:
  assumes "refresh obj w = Some (r, w')"
  shows "calls w' = calls w @ [Refresh (fst obj) (snd obj)] \<and> self w' = self w
         \<and> (\<forall>x. r = Returns x \<longrightarrow> fst x = fst obj)"
  using assms
  by (auto simp: refresh_def io_then_def io_bind_def rest_call_def
      split: option.splits list.splits)

lemma sleep_cases:
  assumes "sleep n w = Some (r, w')"
  shows "calls w' = calls w @ [Sleep n] \<and> self w' = self w \<and> r = Returns ()"
  using assms by (auto simp: sleep_def Let_def split: prod.splits)

lemma poll_traceI:
  assumes "self w' = self w" "calls w' = calls w @ polling (fst obj) obs @ tail"
    "\<forall>ob \<in> set obs. state_of ob \<noteq> Some (Str status)"
    "obs \<noteq> [] \<longrightarrow> hd obs = snd obj"
    "tail = [] \<or> (\<exists>ob. tail = [Refresh (fst obj) ob])"
    "\<forall>obj'. r = Returns obj' \<longrightarrow>
        tail = [] \<and> fst obj' = fst obj \<and> state_of (snd obj') = Some (Str status)
        \<and> (obs = [] \<longrightarrow> obj' = obj)"
  shows "poll_trace obj status w (r, w')"
  unfolding poll_trace_def using assms by (intro conjI exI [of _ obs] exI [of _ tail]) simp_all

lemma check_for_status_trace:
  assumes run: "check_for_status obj status w = Some y"
  shows "poll_trace obj status w y"
proof (rule check_for_status.raw_induct [where P = poll_trace, OF _ run])
  fix check obj status w y
  assume ih: "\<And>obj status w y. check obj status w = Some y \<Longrightarrow> poll_trace obj status w y"
    and body: "(case map_of (attrs (snd obj)) ''state'' of
      None \<Rightarrow> Some (Raises (AttributeError ''state''), w)
      | Some st \<Rightarrow>
          if st \<noteq> Str status
          then io_bind (refresh obj)
                (\<lambda>obj'. io_bind (sleep 1) (\<lambda>_. check obj' status)) w
          else Some (Returns obj, w)) = Some y"
  show "poll_trace obj status w y"
  proof (cases "map_of (attrs (snd obj)) ''state''")
    case None
    with body have "y = (Raises (AttributeError ''state''), w)" by simp
    then show ?thesis
      by (auto intro!: poll_traceI [where obs = "[]" and tail = "[]"] simp: polling_def)
  next
    case (Some st)
    show ?thesis
    proof (cases "st = Str status")
      case True
      with Some body have "y = (Returns obj, w)" by simp
      with Some True show ?thesis
        by (auto intro!: poll_traceI [where obs = "[]" and tail = "[]"]
            simp: polling_def state_of_def)
    next
      case False
      obtain r w' where y: "y = (r, w')" by (cases y)
      from Some False body y have run:
        "io_bind (refresh obj) (\<lambda>obj'. io_bind (sleep 1) (\<lambda>_. check obj' status)) w
           = Some (r, w')"
        by simp
      have st: "state_of (snd obj) \<noteq> Some (Str status)"
        using Some False by (simp add: state_of_def)
      from run show ?thesis
      proof (cases rule: io_bind_cases)
        case (raised e)
        from refresh_cases [OF raised(1)] have
          "calls w' = calls w @ [Refresh (fst obj) (snd obj)]" "self w' = self w"
          by simp_all
        with raised(2) show ?thesis
          unfolding y
          by (intro poll_traceI [where obs = "[]" and tail = "[Refresh (fst obj) (snd obj)]"])
             (simp_all add: polling_def)
      next
        case (returned obj1 w1)
        from refresh_cases [OF returned(1)] have
          c1: "calls w1 = calls w @ [Refresh (fst obj) (snd obj)]" and s1: "self w1 = self w"
          and e1: "fst obj1 = fst obj"
          by simp_all
        from returned(2) show ?thesis
        proof (cases rule: io_bind_cases)
          case (raised e)
          from sleep_cases [OF raised(1)] show ?thesis by simp
        next
          case (returned u w2)
          from sleep_cases [OF returned(1)] have
            c2: "calls w2 = calls w1 @ [Sleep 1]" and s2: "self w2 = self w1"
            by simp_all
          from ih [OF returned(2)] obtain obs tail where
            s3: "self w' = self w2"
            and c3: "calls w' = calls w2 @ polling (fst obj1) obs @ tail"
            and n3: "\<forall>ob \<in> set obs. state_of ob \<noteq> Some (Str status)"
            and t3: "tail = [] \<or> (\<exists>ob. tail = [Refresh (fst obj1) ob])"
            and r3: "\<forall>obj'. r = Returns obj' \<longrightarrow>
                  tail = [] \<and> fst obj' = fst obj1 \<and> state_of (snd obj') = Some (Str status)"
            unfolding poll_trace_def by auto
          show ?thesis
            unfolding y
          proof (rule poll_traceI [where obs = "snd obj # obs" and tail = tail])
            show "self w' = self w" using s1 s2 s3 by simp
            show "calls w' = calls w @ polling (fst obj) (snd obj # obs) @ tail"
              using c1 c2 c3 e1 by (simp add: polling_def)
            show "\<forall>ob \<in> set (snd obj # obs). state_of ob \<noteq> Some (Str status)"
              using n3 st by simp
            show "snd obj # obs \<noteq> [] \<longrightarrow> hd (snd obj # obs) = snd obj" by simp
            show "tail = [] \<or> (\<exists>ob. tail = [Refresh (fst obj) ob])" using t3 e1 by simp
            show "\<forall>obj'. r = Returns obj' \<longrightarrow>
                tail = [] \<and> fst obj' = fst obj \<and> state_of (snd obj') = Some (Str status)
                \<and> (snd obj # obs = [] \<longrightarrow> obj' = obj)"
              using r3 e1 by simp
          qed
        qed
      qed
    qed
  qed
qed



























section \<open>The client handle after a failed-over volume was served\<close>



section \<open>The handshake of the replication teardown\<close>

text \<open>The teardown is its three phases in sequence, the two deletions between them.\<close>

lemma io_bind_assoc: "io_bind (io_bind m f) g = io_bind m (\<lambda>x. io_bind (f x) g)"
  by (rule ext) (simp add: io_bind_def split: option.splits prod.splits outcome.splits)

lemma io_bind_return: "io_bind (io_return x) f = f x"
  by (rule ext) (simp add: io_bind_def io_return_def)

lemma delete_volume_replica_phases:
  "delete_volume_replica volume vg_name vol_name =
     io_bind (lookup_sessions volume) (\<lambda>(src_ssn, tgt_ssn).
     io_bind (handshake src_ssn tgt_ssn) (\<lambda>(src_ssn, tgt_ssn).
     io_then (delete tgt_ssn)
    (io_then (delete src_ssn)
       (remove_replica_objects vg_name vol_name))))"
  by (simp add: delete_volume_replica_def lookup_sessions_def handshake_def
      remove_replica_objects_def Let_def io_bind_assoc io_bind_return)

lemma search_cases:
  assumes "search ep u q w = Some (r, w')"
  shows "calls w' = calls w @ [Search ep u q] \<and> self w' = self w
         \<and> (\<forall>hs. r = Returns hs \<longrightarrow> (\<forall>h \<in> set hs. fst h = ep))"
  using assms
  by (auto simp: search_def io_then_def io_bind_def rest_call_def split: option.splits)

lemma save_cases:
  assumes "save obj w = Some (r, w')"
  shows "calls w' = calls w @ [Save (fst obj) (snd obj)] \<and> self w' = self w
         \<and> (\<forall>x. r = Returns x \<longrightarrow> fst x = fst obj \<and> attrs (snd x) = attrs (snd obj))"
  using assms
  by (auto simp: save_def io_then_def io_bind_def rest_call_def Let_def
      split: option.splits if_splits)

lemma delete_cases:
  assumes "delete obj w = Some (r, w')"
  shows "calls w' = calls w @ [Delete (fst obj) (snd obj)] \<and> self w' = self w"
  using assms
  by (auto simp: delete_def io_then_def io_bind_def rest_call_def split: option.splits)

lemma first_hit_cases:
  assumes "first_hit hs w = Some (r, w')"
  shows "w' = w \<and> (\<forall>h. r = Returns h \<longrightarrow> h \<in> set hs)"
  using assms by (cases hs) (auto simp: first_hit_def io_raise_def io_return_def)

lemma the_client_cases:
  assumes "the_client w = Some (r, w')"
  shows "w' = w \<and> r = Returns (client (self w))"
  using assms by (auto simp: the_client_def)

lemma the_target_cases:
  assumes "the_target w = Some (r, w')"
  shows "w' = w \<and> (\<forall>t. r = Returns t \<longrightarrow> target (self w) = Some t)"
  using assms by (auto simp: the_target_def split: option.splits)

lemma no_delete_simps [simp]:
  "no_delete []" "no_delete (Search ep u q # cs) = no_delete cs"
  "no_delete (Save ep ob # cs) = no_delete cs" "no_delete (Refresh ep ob # cs) = no_delete cs"
  "no_delete (Sleep n # cs) = no_delete cs" "\<not> no_delete (Delete ep ob # cs)"
  "no_delete (xs @ ys) = (no_delete xs \<and> no_delete ys)"
  by (simp_all add: no_delete_def)

lemma no_delete_polling [simp]: "no_delete (polling ep obs)"
  by (induction obs) (simp_all add: polling_def)

text \<open>The lookup sends the two searches and nothing else.\<close>

lemma lookup_sessions_trace:
  assumes "lookup_sessions volume w = Some (r, w')"
  shows "self w' = self w
       \<and> (\<exists>tr. calls w' = calls w @ tr \<and> no_delete tr
            \<and> (\<forall>src tgt. r = Returns (src, tgt) \<longrightarrow>
                 fst src = client (self w) \<and> target (self w) = Some (fst tgt)
                 \<and> tr = [Search (fst src) ''replication/sessions''
                            [(''name'', Str (get_session_name (volume_id volume)))],
                          Search (fst tgt) ''replication/sessions''
                            [(''name'', Str (get_rep_name (get_session_name (volume_id volume))))]]))"
proof -
  let ?q1 = "[(''name'', Str (get_session_name (volume_id volume)))]"
  let ?q2 = "[(''name'', Str (get_rep_name (get_session_name (volume_id volume))))]"
  from assms [unfolded lookup_sessions_def] show ?thesis
  proof (cases rule: io_bind_cases)
    case (raised e)
    from the_client_cases [OF raised(1)] show ?thesis by simp
  next
    case (returned c w1)
    from the_client_cases [OF returned(1)] have w1: "w1 = w" and c: "c = client (self w)"
      by simp_all
    from returned(2) show ?thesis
    proof (cases rule: io_bind_cases)
      case (raised e)
      from search_cases [OF raised(1)] raised(2) w1 show ?thesis
        by (auto intro!: exI [of _ "[Search c ''replication/sessions'' ?q1]"])
    next
      case (returned rs1 w2)
      from search_cases [OF returned(1)] w1 have
        c2: "calls w2 = calls w @ [Search c ''replication/sessions'' ?q1]"
        and s2: "self w2 = self w" and h2: "\<forall>h \<in> set rs1. fst h = c"
        by simp_all
      from returned(2) show ?thesis
      proof (cases rule: io_bind_cases)
        case (raised e)
        from first_hit_cases [OF raised(1)] raised(2) c2 s2 show ?thesis
          by (auto intro!: exI [of _ "[Search c ''replication/sessions'' ?q1]"])
      next
        case (returned src w3)
        from first_hit_cases [OF returned(1)] h2 have w3: "w3 = w2" and fs: "fst src = c"
          by simp_all
        from returned(2) show ?thesis
        proof (cases rule: io_bind_cases)
          case (raised e)
          from the_target_cases [OF raised(1)] raised(2) w3 c2 s2 show ?thesis
            by (auto intro!: exI [of _ "[Search c ''replication/sessions'' ?q1]"])
        next
          case (returned t w4)
          from the_target_cases [OF returned(1)] w3 s2 have w4: "w4 = w2"
            and t: "target (self w) = Some t"
            by simp_all
          from returned(2) show ?thesis
          proof (cases rule: io_bind_cases)
            case (raised e)
            from search_cases [OF raised(1)] raised(2) w4 c2 s2 show ?thesis
              by (auto intro!: exI [of _ "[Search c ''replication/sessions'' ?q1,
                    Search t ''replication/sessions'' ?q2]"])
          next
            case (returned rs2 w5)
            from search_cases [OF returned(1)] w4 c2 s2 have
              c5: "calls w5 = calls w @ [Search c ''replication/sessions'' ?q1,
                    Search t ''replication/sessions'' ?q2]"
              and s5: "self w5 = self w" and h5: "\<forall>h \<in> set rs2. fst h = t"
              by simp_all
            from returned(2) show ?thesis
            proof (cases rule: io_bind_cases)
              case (raised e)
              from first_hit_cases [OF raised(1)] raised(2) c5 s5 show ?thesis
                by (auto intro!: exI [of _ "[Search c ''replication/sessions'' ?q1,
                    Search t ''replication/sessions'' ?q2]"])
            next
              case (returned tgt w6)
              from first_hit_cases [OF returned(1)] h5 have w6: "w6 = w5" and ft: "fst tgt = t"
                by simp_all
              from returned(2) w6 have "r = Returns (src, tgt)" "w' = w5"
                by (simp_all add: io_return_def)
              with c5 s5 fs ft c t show ?thesis
                by (auto intro!: exI [of _ "[Search c ''replication/sessions'' ?q1,
                    Search t ''replication/sessions'' ?q2]"])
            qed
          qed
        qed
      qed
    qed
  qed
qed

lemma state_of_setattr [simp]: "state_of (snd (setattr obj ''state'' v)) = Some v"
  by (simp add: state_of_def setattr_def)

lemma fst_setattr [simp]: "fst (setattr obj k v) = fst obj"
  by (simp add: setattr_def)

lemma state_of_attrs: "attrs a = attrs b \<Longrightarrow> state_of a = state_of b"
  by (simp add: state_of_def)

lemma check_for_status_cases:
  assumes "check_for_status obj status w = Some (r, w')"
  shows "\<exists>obs tail. self w' = self w
    \<and> calls w' = calls w @ polling (fst obj) obs @ tail
    \<and> (\<forall>ob \<in> set obs. state_of ob \<noteq> Some (Str status))
    \<and> (obs \<noteq> [] \<longrightarrow> hd obs = snd obj)
    \<and> no_delete tail
    \<and> (\<forall>obj'. r = Returns obj' \<longrightarrow>
        tail = [] \<and> fst obj' = fst obj \<and> state_of (snd obj') = Some (Str status)
        \<and> (obs = [] \<longrightarrow> obj' = obj))"
proof -
  from check_for_status_trace [OF assms]
  obtain obs tail where a: "self w' = self w"
    and b: "calls w' = calls w @ polling (fst obj) obs @ tail"
    and c: "\<forall>ob \<in> set obs. state_of ob \<noteq> Some (Str status)"
    and d: "obs \<noteq> [] \<longrightarrow> hd obs = snd obj"
    and e: "tail = [] \<or> (\<exists>ob. tail = [Refresh (fst obj) ob])"
    and f: "\<forall>obj'. r = Returns obj' \<longrightarrow>
        tail = [] \<and> fst obj' = fst obj \<and> state_of (snd obj') = Some (Str status)
        \<and> (obs = [] \<longrightarrow> obj' = obj)"
    unfolding poll_trace_def by auto
  from e have "no_delete tail" by auto
  with a b c d f show ?thesis by blast
qed

lemma handshake_trace:
  assumes "handshake src tgt w = Some (r, w')"
  shows "self w' = self w
       \<and> (\<exists>tr. calls w' = calls w @ tr \<and> no_delete tr
            \<and> (\<forall>src' tgt'. r = Returns (src', tgt') \<longrightarrow>
                 fst src' = fst src \<and> fst tgt' = fst tgt
                 \<and> state_of (snd src') = Some (Str ''idle'')
                 \<and> (\<exists>s1 obs1 s2 o1 obs2.
                      tr = handshake_log (fst src) (fst tgt) s1 obs1 s2 o1 obs2
                      \<and> handshake_states s1 obs1 s2 o1 obs2 (snd tgt'))))"
proof -
  let ?s1 = "snd (setattr src ''state'' (Str ''suspended''))"
  from assms [unfolded handshake_def] show ?thesis
  proof (cases rule: io_bind_cases)
    case (raised e)
    from save_cases [OF raised(1)] raised(2) show ?thesis
      by (intro conjI exI [of _ "[Save (fst src) ?s1]"]) simp_all
  next
    case (returned src1 w1)
    from save_cases [OF returned(1)] have
      c1: "calls w1 = calls w @ [Save (fst src) ?s1]" and s1: "self w1 = self w"
      and f1: "fst src1 = fst src"
      by simp_all
    from returned(2) show ?thesis
    proof (cases rule: io_bind_cases)
      case (raised e)
      from check_for_status_cases [OF raised(1)] obtain obs tail where "self w' = self w1"
        "calls w' = calls w1 @ polling (fst tgt) obs @ tail" "no_delete tail"
        by blast
      with c1 s1 raised(2) show ?thesis
        by (intro conjI exI [of _ "[Save (fst src) ?s1] @ polling (fst tgt) obs @ tail"]) simp_all
    next
      case (returned tgt1 w2)
      from check_for_status_cases [OF returned(1)] obtain obs1 tail1 where s2: "self w2 = self w1"
        and c2': "calls w2 = calls w1 @ polling (fst tgt) obs1 @ tail1"
        and n1: "\<forall>ob \<in> set obs1. state_of ob \<noteq> Some (Str ''suspended'')"
        and "obs1 \<noteq> [] \<longrightarrow> hd obs1 = snd tgt"
        and "no_delete tail1"
        and r1: "\<forall>obj'. Returns tgt1 = Returns obj' \<longrightarrow>
          tail1 = [] \<and> fst obj' = fst tgt \<and> state_of (snd obj') = Some (Str ''suspended'')
          \<and> (obs1 = [] \<longrightarrow> obj' = tgt)"
        by blast
      from r1 have "tail1 = []" and f2: "fst tgt1 = fst tgt"
        and t1: "state_of (snd tgt1) = Some (Str ''suspended'')"
        by simp_all
      with c2' have c2: "calls w2 = calls w1 @ polling (fst tgt) obs1" by simp
      let ?s2 = "snd (setattr src1 ''state'' (Str ''idle''))"
      from returned(2) show ?thesis
      proof (cases rule: io_bind_cases)
        case (raised e)
        from save_cases [OF raised(1)] raised(2) c1 c2 s1 s2 f1 show ?thesis
          by (intro conjI exI [of _ "[Save (fst src) ?s1] @ polling (fst tgt) obs1
                @ [Save (fst src) ?s2]"]) simp_all
      next
        case (returned src2 w3)
        from save_cases [OF returned(1)] f1 have
          c3: "calls w3 = calls w2 @ [Save (fst src) ?s2]" and s3: "self w3 = self w2"
          and f3: "fst src2 = fst src"
          and a3: "attrs (snd src2) = attrs ?s2"
          by simp_all
        from state_of_attrs [OF a3] have i3: "state_of (snd src2) = Some (Str ''idle'')"
          by simp
        from returned(2) show ?thesis
        proof (cases rule: io_bind_cases)
          case (raised e)
          from check_for_status_cases [OF raised(1)] obtain obs tail where "self w' = self w3"
            "calls w' = calls w3 @ polling (fst tgt1) obs @ tail" "no_delete tail"
            by blast
          with c1 c2 c3 s1 s2 s3 f2 raised(2) show ?thesis
            by (intro conjI exI [of _ "[Save (fst src) ?s1] @ polling (fst tgt) obs1
                @ [Save (fst src) ?s2] @ polling (fst tgt) obs @ tail"]) simp_all
        next
          case (returned tgt2 w4)
          from check_for_status_cases [OF returned(1)] obtain obs tail2 where s4: "self w4 = self w3"
            and c4': "calls w4 = calls w3 @ polling (fst tgt1) obs @ tail2"
            and n2: "\<forall>ob \<in> set obs. state_of ob \<noteq> Some (Str ''idle'')"
            and h2: "obs \<noteq> [] \<longrightarrow> hd obs = snd tgt1"
            and "no_delete tail2"
            and r2: "\<forall>obj'. Returns tgt2 = Returns obj' \<longrightarrow>
              tail2 = [] \<and> fst obj' = fst tgt1 \<and> state_of (snd obj') = Some (Str ''idle'')
              \<and> (obs = [] \<longrightarrow> obj' = tgt1)"
            by blast
          from r2 have "tail2 = []" and f4: "fst tgt2 = fst tgt1"
            and t2: "state_of (snd tgt2) = Some (Str ''idle'')"
            and e2: "obs = [] \<longrightarrow> tgt2 = tgt1"
            by simp_all
          with c4' have c4: "calls w4 = calls w3 @ polling (fst tgt1) obs" by simp
          from e2 t1 t2 have "obs \<noteq> []" by auto
          with h2 obtain obs2 where obs: "obs = snd tgt1 # obs2" by (cases obs) auto
          from returned(2) have r: "r = Returns (src2, tgt2)" and w': "w' = w4"
            by (simp_all add: io_return_def)
          have hs: "handshake_states ?s1 obs1 ?s2 (snd tgt1) obs2 (snd tgt2)"
            using n1 n2 t1 t2 obs by (simp add: handshake_states_def list_all_iff)
          have "calls w' = calls w @ handshake_log (fst src) (fst tgt) ?s1 obs1 ?s2 (snd tgt1) obs2"
            using c1 c2 c3 c4 w' obs f2 by (simp add: handshake_log_def)
          moreover have "no_delete (handshake_log (fst src) (fst tgt) ?s1 obs1 ?s2 (snd tgt1) obs2)"
            by (simp add: handshake_log_def)
          moreover have "self w' = self w" using s1 s2 s3 s4 w' by simp
          moreover have "\<exists>s1 obs1' s2 o1 obs2'.
              handshake_log (fst src) (fst tgt) ?s1 obs1 ?s2 (snd tgt1) obs2
                = handshake_log (fst src) (fst tgt) s1 obs1' s2 o1 obs2'
              \<and> handshake_states s1 obs1' s2 o1 obs2' (snd tgt2)"
            by (intro exI conjI, rule refl, rule hs)
          ultimately show ?thesis using r f2 f3 f4 i3
            by (intro conjI exI [of _ "handshake_log (fst src) (fst tgt) ?s1 obs1 ?s2 (snd tgt1) obs2"])
              (simp_all del: split_paired_All)
        qed
      qed
    qed
  qed
qed

lemma remove_replica_objects_appends:
  assumes "remove_replica_objects vg_name vol_name w = Some (r, w')"
  shows "\<exists>cs. calls w' = calls w @ cs"
proof -
  have "valid (\<lambda>_. True) UNIV (remove_replica_objects vg_name vol_name) (\<lambda>_. True)"
    unfolding remove_replica_objects_def
    by (auto intro!: valid_rules simp: handles_ok_def)
  with assms show ?thesis unfolding valid_def by blast
qed

lemma io_then_cases:
  assumes "io_then m k w = Some (r, w')"
  obtains (raised) e where "m w = Some (Raises e, w')" "r = Raises e"
        | (returned) x w1 where "m w = Some (Returns x, w1)" "k w1 = Some (r, w')"
  using assms unfolding io_then_def by (rule io_bind_cases)

subsection \<open>The teardown returns on a pair that mirrors\<close>

lemma lookup_oid_replace:
  assumes "lookup_oid i objs \<noteq> None" "oid h = i"
  shows "lookup_oid i (map (\<lambda>x. if oid x = i then h else x) objs) = Some h"
  using assms by (induction objs) (auto simp: lookup_oid_def)

lemma lookup_oid_oid: "lookup_oid i objs = Some ob \<Longrightarrow> oid ob = i"
  by (induction objs) (auto simp: lookup_oid_def split: if_splits)

lemma lookup_oid_mem: "ob \<in> set objs \<Longrightarrow> lookup_oid (oid ob) objs \<noteq> None"
  by (induction objs) (auto simp: lookup_oid_def)

lemma async_set_k2 [simp]: "async (set_k2 ep objs w) = async w" "clock (set_k2 ep objs w) = clock w"
  by (cases ep; simp add: set_k2_def)+

lemma source_set_k2 [simp]:
  "source_k2 (set_k2 Source objs w) = objs" "target_k2 (set_k2 Source objs w) = target_k2 w"
  "target_k2 (set_k2 Target objs w) = objs" "source_k2 (set_k2 Target objs w) = source_k2 w"
  by (simp_all add: set_k2_def)

lemma save_returns:
  assumes "quiet_from w" "oid ob \<noteq> 0"
  shows "\<exists>w'. save (Source, ob) w = Some (Returns (Source, ob), w')
           \<and> quiet_from w' \<and> self w' = self w \<and> async w' = async w
           \<and> source_k2 w' = map (\<lambda>x. if oid x = oid ob then ob else x) (source_k2 w)
           \<and> target_k2 w' = target_k2 w"
proof -
  let ?w' = "set_k2 Source (map (\<lambda>x. if oid x = oid ob then ob else x) (k2_of w Source))
               (w\<lparr>calls := calls w @ [Save Source ob]\<rparr>)"
  from assms have "save (Source, ob) w = Some (Returns (Source, ob), ?w')"
    by (simp add: save_def io_then_def io_bind_def rest_call_def quiet_from_now
        cong del: if_weak_cong)
  moreover from assms(1) have "quiet_from ?w'" by (simp add: quiet_from_calls)
  moreover have "source_k2 ?w' = map (\<lambda>x. if oid x = oid ob then ob else x) (source_k2 w)"
    by (simp add: k2_of_def)
  ultimately show ?thesis by (intro exI [of _ ?w']) simp
qed

text \<open>One round of the loop: the object is read again, then the arrays have their tick.\<close>

lemma poll_step:
  assumes q: "quiet_from w"
    and l: "lookup_oid (oid ob) (target_k2 w) = Some ob1"
    and s: "state_of ob = Some st" and ne: "st \<noteq> Str status"
  shows "\<exists>w1. check_for_status (Target, ob) status w = check_for_status (Target, ob1) status w1
           \<and> quiet_from w1 \<and> self w1 = self w \<and> async w1 = async w
           \<and> source_k2 w1 = fst (async w (clock w) (source_k2 w, target_k2 w))
           \<and> target_k2 w1 = snd (async w (clock w) (source_k2 w, target_k2 w))"
proof -
  let ?p = "async w (clock w) (source_k2 w, target_k2 w)"
  let ?w1 = "w\<lparr>calls := calls w @ [Refresh Target ob], source_k2 := fst ?p, target_k2 := snd ?p,
               clock := clock w + 1, calls := calls w @ [Refresh Target ob, Sleep 1]\<rparr>"
  from l obtain others where f: "filter (\<lambda>x. oid x = oid ob) (target_k2 w) = ob1 # others"
    by (auto simp: lookup_oid_def split: list.splits)
  have "check_for_status (Target, ob) status w = check_for_status (Target, ob1) status ?w1"
    apply (subst check_for_status.simps)
    using q s ne f
    apply (simp add: state_of_def refresh_def sleep_def io_bind_def io_then_def rest_call_def
        quiet_from_now k2_of_def Let_def split_beta)
    done
  moreover from q have "quiet_from ?w1" by (simp add: quiet_from_def)
  ultimately show ?thesis by (intro exI [of _ ?w1]) simp
qed

lemma check_for_status_done:
  "state_of ob = Some (Str status) \<Longrightarrow>
     check_for_status (ep, ob) status w = Some (Returns (ep, ob), w)"
  by (subst check_for_status.simps) (simp add: state_of_def)

text \<open>On a pair that mirrors, the loop returns after two rounds at most.\<close>

lemma check_for_status_returns:
  assumes q: "quiet_from w" and m: "mirrors i j (async w)"
    and so: "lookup_oid i (source_k2 w) = Some so" "state_of so = Some (Str status)"
    and ob0: "lookup_oid j (target_k2 w) = Some ob0" "state_of ob0 \<noteq> None"
    and h: "oid ob = j" "state_of ob \<noteq> None"
  shows "\<exists>ob' w'. check_for_status (Target, ob) status w = Some (Returns (Target, ob'), w')
           \<and> quiet_from w' \<and> self w' = self w \<and> async w' = async w
           \<and> lookup_oid i (source_k2 w') = Some so
           \<and> (\<exists>ob1. lookup_oid j (target_k2 w') = Some ob1 \<and> state_of ob1 \<noteq> None)
           \<and> oid ob' = j \<and> state_of ob' = Some (Str status)"
proof (cases "state_of ob = Some (Str status)")
  case True
  from check_for_status_done [OF True, of Target w] q so ob0 h True show ?thesis by auto
next
  case False
  with h obtain st where st: "state_of ob = Some st" "st \<noteq> Str status" by auto
  from poll_step [OF q _ st, of ob0] ob0(1) h(1) obtain w1 where
    e1: "check_for_status (Target, ob) status w = check_for_status (Target, ob0) status w1"
    and q1: "quiet_from w1" and s1: "self w1 = self w" and a1: "async w1 = async w"
    and src1: "source_k2 w1 = fst (async w (clock w) (source_k2 w, target_k2 w))"
    and tgt1: "target_k2 w1 = snd (async w (clock w) (source_k2 w, target_k2 w))"
    by auto
  from m [unfolded mirrors_def, rule_format, of "clock w" "source_k2 w" "target_k2 w"] so ob0(1)
  obtain ob1 where l1: "lookup_oid i (source_k2 w1) = Some so"
    and t1: "lookup_oid j (target_k2 w1) = Some ob1" "state_of ob1 = Some (Str status)"
    unfolding src1 tgt1 by auto
  have j0: "oid ob0 = j" using ob0(1) by (rule lookup_oid_oid)
  have j1: "oid ob1 = j" using t1(1) by (rule lookup_oid_oid)
  show ?thesis
  proof (cases "state_of ob0 = Some (Str status)")
    case True
    from check_for_status_done [OF True, of Target w1] e1 q1 s1 a1 l1 t1 j0 True show ?thesis by auto
  next
    case False
    with ob0(2) obtain st0 where st0: "state_of ob0 = Some st0" "st0 \<noteq> Str status" by auto
    from poll_step [OF q1 _ st0, of ob1] t1(1) j0 obtain w2 where
      e2: "check_for_status (Target, ob0) status w1 = check_for_status (Target, ob1) status w2"
      and q2: "quiet_from w2" and s2: "self w2 = self w1" and a2: "async w2 = async w1"
      and src2: "source_k2 w2 = fst (async w1 (clock w1) (source_k2 w1, target_k2 w1))"
      and tgt2: "target_k2 w2 = snd (async w1 (clock w1) (source_k2 w1, target_k2 w1))"
      by auto
    from m [unfolded mirrors_def, rule_format, of "clock w1" "source_k2 w1" "target_k2 w1"]
      l1 so(2) t1(1) a1
    obtain ob2 where l2: "lookup_oid i (source_k2 w2) = Some so"
      and t2: "lookup_oid j (target_k2 w2) = Some ob2" "state_of ob2 = Some (Str status)"
      unfolding src2 tgt2 by auto
    from check_for_status_done [OF t1(2), of Target w2] e1 e2 q2 s1 s2 a1 a2 l2 t2 j1 t1(2)
    show ?thesis by auto
  qed
qed

lemma setattr_pair: "setattr (ep, ob) k v = (ep, snd (setattr (ep, ob) k v))"
  by (simp add: setattr_def)

lemma oid_setattr [simp]: "oid (snd (setattr obj k v)) = oid (snd obj)"
  by (simp add: setattr_def)

text \<open>The handshake on a pair that mirrors, when no call fails: it returns.\<close>

lemma handshake_returns:
  assumes q: "quiet_from w" and m: "mirrors (oid src) (oid tgt) (async w)"
    and nz: "oid src \<noteq> 0"
    and ls: "lookup_oid (oid src) (source_k2 w) \<noteq> None"
    and lt: "lookup_oid (oid tgt) (target_k2 w) = Some tgt" and st: "state_of tgt \<noteq> None"
  shows "\<exists>src' tgt' w'. handshake (Source, src) (Target, tgt) w
             = Some (Returns ((Source, src'), (Target, tgt')), w')
           \<and> quiet_from w' \<and> self w' = self w"
proof -
  let ?i = "oid src" and ?j = "oid tgt"
  let ?s1 = "snd (setattr (Source, src) ''state'' (Str ''suspended''))"
  have o1: "oid ?s1 = ?i" by simp
  from save_returns [OF q, of ?s1] nz obtain wa where
    sa: "save (Source, ?s1) w = Some (Returns (Source, ?s1), wa)"
    and qa: "quiet_from wa" and fa: "self wa = self w" and aa: "async wa = async w"
    and ka: "source_k2 wa = map (\<lambda>x. if oid x = oid ?s1 then ?s1 else x) (source_k2 w)"
    and ta: "target_k2 wa = target_k2 w"
    by auto
  from lookup_oid_replace [OF ls o1] ka have la: "lookup_oid ?i (source_k2 wa) = Some ?s1"
    by simp
  from check_for_status_returns [of wa ?i ?j ?s1 "''suspended''" tgt tgt]
    qa m aa la lt ta st
  obtain tgt1 wb where
    cb: "check_for_status (Target, tgt) ''suspended'' wa = Some (Returns (Target, tgt1), wb)"
    and qb: "quiet_from wb" and fb: "self wb = self wa" and ab: "async wb = async wa"
    and lb: "lookup_oid ?i (source_k2 wb) = Some ?s1"
    and tb: "\<exists>ob1. lookup_oid ?j (target_k2 wb) = Some ob1 \<and> state_of ob1 \<noteq> None"
    and j1: "oid tgt1 = ?j" and st1: "state_of tgt1 = Some (Str ''suspended'')"
    by auto
  from tb obtain ob1 where tb1: "lookup_oid ?j (target_k2 wb) = Some ob1"
    and tb2: "state_of ob1 \<noteq> None"
    by blast
  let ?s2 = "snd (setattr (Source, ?s1) ''state'' (Str ''idle''))"
  have o2: "oid ?s2 = ?i" by simp
  from save_returns [OF qb, of ?s2] nz obtain wc where
    sc: "save (Source, ?s2) wb = Some (Returns (Source, ?s2), wc)"
    and qc: "quiet_from wc" and fc: "self wc = self wb" and ac: "async wc = async wb"
    and kc: "source_k2 wc = map (\<lambda>x. if oid x = oid ?s2 then ?s2 else x) (source_k2 wb)"
    and tc: "target_k2 wc = target_k2 wb"
    by auto
  from lb have "lookup_oid ?i (source_k2 wb) \<noteq> None" by simp
  from lookup_oid_replace [OF this o2] kc have lc: "lookup_oid ?i (source_k2 wc) = Some ?s2"
    by simp
  from check_for_status_returns [of wc ?i ?j ?s2 "''idle''" ob1 tgt1]
    qc m aa ab ac lc tb1 tb2 tc j1 st1
  obtain tgt2 wd where
    cd: "check_for_status (Target, tgt1) ''idle'' wc = Some (Returns (Target, tgt2), wd)"
    and qd: "quiet_from wd" and fd: "self wd = self wc"
    by auto
  have "handshake (Source, src) (Target, tgt) w = Some (Returns ((Source, ?s2), (Target, tgt2)), wd)"
    unfolding handshake_def
    by (subst setattr_pair, simp add: io_bind_def sa cb io_return_def)
       (subst setattr_pair, simp add: sc cd)
  with qd fa fb fc fd show ?thesis by auto
qed

lemma io_return_apply: "io_return x w = Some (Returns x, w)"
  by (simp add: io_return_def)

lemma first_hit_Cons: "first_hit (h # hs) = io_return h"
  by (simp add: first_hit_def)

lemma lookup_sessions_returns:
  assumes q: "quiet_from w" and c: "client (self w) = Source" and t: "target (self w) = Some Target"
    and hs: "hits_of (source_k2 w) ''replication/sessions''
               [(''name'', Str (get_session_name (volume_id volume)))] = src # srest"
    and ht: "hits_of (target_k2 w) ''replication/sessions''
               [(''name'', Str (get_rep_name (get_session_name (volume_id volume))))] = tgt # trest"
  shows "\<exists>w'. lookup_sessions volume w = Some (Returns ((Source, src), (Target, tgt)), w')
           \<and> quiet_from w' \<and> self w' = self w \<and> async w' = async w
           \<and> source_k2 w' = source_k2 w \<and> target_k2 w' = target_k2 w"
proof -
  let ?q1 = "[(''name'', Str (get_session_name (volume_id volume)))]"
  let ?q2 = "[(''name'', Str (get_rep_name (get_session_name (volume_id volume))))]"
  let ?w1 = "w\<lparr>calls := calls w @ [Search Source ''replication/sessions'' ?q1]\<rparr>"
  let ?w2 = "?w1\<lparr>calls := calls ?w1 @ [Search Target ''replication/sessions'' ?q2]\<rparr>"
  have q1: "quiet_from ?w1" using q by (rule quiet_from_calls)
  have q2: "quiet_from ?w2" using q1 by (rule quiet_from_calls)
  have s1: "search Source ''replication/sessions'' ?q1 w
      = Some (Returns (map (Pair Source) (src # srest)), ?w1)"
    using search_ok [OF quiet_from_now [OF q], of Source "''replication/sessions''" ?q1] hs
    by (simp add: k2_of_def)
  have s2: "search Target ''replication/sessions'' ?q2 ?w1
      = Some (Returns (map (Pair Target) (tgt # trest)), ?w2)"
    using search_ok [OF quiet_from_now [OF q1], of Target "''replication/sessions''" ?q2] ht
    by (simp add: k2_of_def)
  have "lookup_sessions volume w = Some (Returns ((Source, src), (Target, tgt)), ?w2)"
  proof -
    have b1: "io_bind (search Source ''replication/sessions'' ?q1) f w
        = f (map (Pair Source) (src # srest)) ?w1" for f :: "RestObject list \<Rightarrow> 'x io"
      by (simp add: io_bind_def s1)
    have b2: "io_bind (search Target ''replication/sessions'' ?q2) f ?w1
        = f (map (Pair Target) (tgt # trest)) ?w2" for f :: "RestObject list \<Rightarrow> 'x io"
      by (simp add: io_bind_def s2)
    show ?thesis
      unfolding lookup_sessions_def
      by (simp add: the_client_bind c b1 first_hit_Cons io_bind_return
          the_target_bind t b2 io_return_apply)
  qed
  with q2 show ?thesis by (intro exI [of _ ?w2]) simp
qed

text \<open>What follows the two deletions returns when no call fails.\<close>

lemma search_returns:
  assumes "quiet_from w"
  shows "\<exists>w'. search ep u qs w = Some (Returns (map (Pair ep) (hits_of (k2_of w ep) u qs)), w')
           \<and> quiet_from w' \<and> self w' = self w"
proof -
  let ?w' = "w\<lparr>calls := calls w @ [Search ep u qs]\<rparr>"
  from search_ok [OF quiet_from_now [OF assms]]
  have "search ep u qs w = Some (Returns (map (Pair ep) (hits_of (k2_of w ep) u qs)), ?w')" .
  moreover have "quiet_from ?w'" using assms by (rule quiet_from_calls)
  ultimately show ?thesis by (intro exI [of _ ?w']) simp
qed

lemma delete_returns:
  assumes "quiet_from w"
  shows "\<exists>w'. delete (ep, ob) w = Some (Returns (), w') \<and> quiet_from w' \<and> self w' = self w"
proof -
  let ?w' = "set_k2 ep (filter (\<lambda>x. oid x \<noteq> oid ob) (k2_of w ep))
               (w\<lparr>calls := calls w @ [Delete ep ob]\<rparr>)"
  from delete_quiet [OF assms] have "delete (ep, ob) w = Some (Returns (), ?w')" .
  moreover from assms have "quiet_from ?w'" by (simp add: quiet_from_calls)
  ultimately show ?thesis by (intro exI [of _ ?w']) simp
qed

lemma remove_replica_objects_returns:
  assumes q: "quiet_from w" and t: "target (self w) = Some t"
  shows "\<exists>w'. remove_replica_objects vg_name vol_name w = Some (Returns (), w')"
proof -
  define c where "c = client (self w)"
  define vg where "vg = map (Pair c) (hits_of (k2_of w c) ''volume_groups'' [(''name'', Str vg_name)])"
  from search_returns [OF q, of c "''volume_groups''" "[(''name'', Str vg_name)]"]
  obtain w1 where
    s1: "search c ''volume_groups'' [(''name'', Str vg_name)] w = Some (Returns vg, w1)"
    and q1: "quiet_from w1" and f1: "self w1 = self w"
    unfolding vg_def by blast
  define rvg where "rvg = map (Pair t)
    (hits_of (k2_of w1 t) ''volume_groups'' [(''name'', Str (get_rep_name vg_name))])"
  from search_returns [OF q1, of t "''volume_groups''" "[(''name'', Str (get_rep_name vg_name))]"]
  obtain w2 where
    s2: "search t ''volume_groups'' [(''name'', Str (get_rep_name vg_name))] w1
           = Some (Returns rvg, w2)"
    and q2: "quiet_from w2" and f2: "self w2 = self w1"
    unfolding rvg_def by blast
  define snaps where "snaps = hits_of (k2_of w2 c) ''snapshots''
                [(''volume_group'', Refs (map (oid \<circ> snd) vg))]"
  from search_returns [OF q2, of c "''snapshots''" "[(''volume_group'', Refs (map (oid \<circ> snd) vg))]"]
  obtain w3 where
    s3: "search c ''snapshots'' [(''volume_group'', Refs (map (oid \<circ> snd) vg))] w2
           = Some (Returns (map (Pair c) snaps), w3)"
    and q3: "quiet_from w3" and f3: "self w3 = self w2"
    unfolding snaps_def by blast
  from for_each_delete_quiet [OF q3, of c snaps]
  obtain w4 where
    s4: "for_each delete (map (Pair c) snaps) w3 = Some (Returns (), w4)"
    and q4: "quiet_from w4" and f4: "self w4 = self w3"
    by blast
  define rsnaps where "rsnaps = hits_of (k2_of w4 t) ''snapshots''
                [(''volume_group'', Refs (map (oid \<circ> snd) rvg))]"
  from search_returns [OF q4, of t "''snapshots''" "[(''volume_group'', Refs (map (oid \<circ> snd) rvg))]"]
  obtain w5 where
    s5: "search t ''snapshots'' [(''volume_group'', Refs (map (oid \<circ> snd) rvg))] w4
           = Some (Returns (map (Pair t) rsnaps), w5)"
    and q5: "quiet_from w5" and f5: "self w5 = self w4"
    unfolding rsnaps_def by blast
  from for_each_delete_quiet [OF q5, of t rsnaps]
  obtain w6 where
    s6: "for_each delete (map (Pair t) rsnaps) w5 = Some (Returns (), w6)"
    and q6: "quiet_from w6" and f6: "self w6 = self w5"
    by blast
  from delete_by_ref_quiet [OF q6, of t "''volumes''" "get_rep_name vol_name"]
  obtain w7 where
    s7: "delete_by_ref t ''volumes'' (get_rep_name vol_name) w6 = Some (Returns (), w7)"
    and q7: "quiet_from w7" and f7: "self w7 = self w6"
    by blast
  from delete_by_ref_quiet [OF q7, of t "''volume_groups''" "get_rep_name vg_name"]
  obtain w8 where
    s8: "delete_by_ref t ''volume_groups'' (get_rep_name vg_name) w7 = Some (Returns (), w8)"
    by blast
  have t1: "target (self w1) = Some t" and t3: "target (self w3) = Some t"
    and t4: "target (self w4) = Some t" and t6: "target (self w6) = Some t"
    and t7: "target (self w7) = Some t"
    and c0: "client (self w) = c" and c2: "client (self w2) = c"
    using t f1 f2 f3 f4 f5 f6 f7 by (simp_all add: c_def)
  have b1: "io_bind (search c ''volume_groups'' [(''name'', Str vg_name)]) f w = f vg w1"
    for f :: "RestObject list \<Rightarrow> unit io"
    by (simp add: io_bind_def s1)
  have b2: "io_bind (search t ''volume_groups'' [(''name'', Str (get_rep_name vg_name))]) f w1
      = f rvg w2"
    for f :: "RestObject list \<Rightarrow> unit io"
    by (simp add: io_bind_def s2)
  have b3: "io_bind (search c ''snapshots'' [(''volume_group'', Refs (map (oid \<circ> snd) vg))]) f w2
      = f (map (Pair c) snaps) w3"
    for f :: "RestObject list \<Rightarrow> unit io"
    by (simp add: io_bind_def s3)
  have b4: "io_then (for_each delete (map (Pair c) snaps)) n w3 = n w4"
    for n :: "unit io"
    by (simp add: io_then_def io_bind_def s4)
  have b5: "io_bind (search t ''snapshots'' [(''volume_group'', Refs (map (oid \<circ> snd) rvg))]) f w4
      = f (map (Pair t) rsnaps) w5"
    for f :: "RestObject list \<Rightarrow> unit io"
    by (simp add: io_bind_def s5)
  have b6: "io_then (for_each delete (map (Pair t) rsnaps)) n w5 = n w6"
    for n :: "unit io"
    by (simp add: io_then_def io_bind_def s6)
  have d7: "io_bind the_target (\<lambda>t. delete_by_ref t ''volumes'' (get_rep_name vol_name)) w6
      = Some (Returns (), w7)"
    by (simp add: the_target_bind [OF t6] s7)
  have b7: "io_then (io_bind the_target (\<lambda>t. delete_by_ref t ''volumes'' (get_rep_name vol_name)))
      n w6 = n w7"
    for n :: "unit io"
    using d7 by (simp add: io_then_def io_bind_def)
  have "remove_replica_objects vg_name vol_name w = Some (Returns (), w8)"
    unfolding remove_replica_objects_def
    apply (simp only: the_client_bind c0 b1)
    apply (simp only: the_target_bind [OF t1] b2)
    apply (simp only: the_client_bind c2 b3 b4)
    apply (simp only: the_target_bind [OF t4] b5 b6)
    apply (simp only: b7 the_target_bind [OF t7] s8)
    done
  then show ?thesis by blast
qed

text \<open>The whole teardown on a pair that mirrors, when no call fails: it returns.\<close>

lemma delete_volume_replica_returns:
  assumes "mirroring_pair volume w"
  shows "\<exists>w'. delete_volume_replica volume vg_name vol_name w = Some (Returns (), w')"
proof -
  from assms obtain src srest tgt trest where
    q: "quiet_from w" and c: "client (self w) = Source" and t: "target (self w) = Some Target"
    and hs: "hits_of (source_k2 w) ''replication/sessions''
               [(''name'', Str (get_session_name (volume_id volume)))] = src # srest"
    and ht: "hits_of (target_k2 w) ''replication/sessions''
               [(''name'', Str (get_rep_name (get_session_name (volume_id volume))))] = tgt # trest"
    and nz: "oid src \<noteq> 0" and lt: "lookup_oid (oid tgt) (target_k2 w) = Some tgt"
    and st: "state_of tgt \<noteq> None" and m: "mirrors (oid src) (oid tgt) (async w)"
    unfolding mirroring_pair_def by (auto split: list.splits)
  from lookup_sessions_returns [OF q c t hs ht] obtain w1 where
    l1: "lookup_sessions volume w = Some (Returns ((Source, src), (Target, tgt)), w1)"
    and q1: "quiet_from w1" and f1: "self w1 = self w" and a1: "async w1 = async w"
    and k1: "source_k2 w1 = source_k2 w" and g1: "target_k2 w1 = target_k2 w"
    by blast
  from hits_mem [OF hs] have "lookup_oid (oid src) (source_k2 w) \<noteq> None"
    by (rule lookup_oid_mem)
  with handshake_returns [of w1 src tgt] q1 m a1 nz lt st k1 g1
  obtain src' tgt' w2 where
    l2: "handshake (Source, src) (Target, tgt) w1
           = Some (Returns ((Source, src'), (Target, tgt')), w2)"
    and q2: "quiet_from w2" and f2: "self w2 = self w1"
    by auto
  from delete_returns [OF q2, of Target tgt'] obtain w3 where
    l3: "delete (Target, tgt') w2 = Some (Returns (), w3)" and q3: "quiet_from w3"
    and f3: "self w3 = self w2"
    by blast
  from delete_returns [OF q3, of Source src'] obtain w4 where
    l4: "delete (Source, src') w3 = Some (Returns (), w4)" and q4: "quiet_from w4"
    and f4: "self w4 = self w3"
    by blast
  from t f1 f2 f3 f4 have "target (self w4) = Some Target" by simp
  from remove_replica_objects_returns [OF q4 this] obtain w5 where
    l5: "remove_replica_objects vg_name vol_name w4 = Some (Returns (), w5)"
    by blast
  have "delete_volume_replica volume vg_name vol_name w = Some (Returns (), w5)"
    unfolding delete_volume_replica_phases
    by (simp add: io_bind_def io_then_def l1 l2 l3 l4 l5)
  then show ?thesis by blast
qed

subsection \<open>The outcomes of the teardown\<close>

lemma delete_volume_replica_outcomes:
  assumes run: "delete_volume_replica volume vg_name vol_name w = Some (r, w')"
  shows "\<exists>tr. calls w' = calls w @ tr \<and>
      ((no_delete tr \<and> (\<exists>e. r = Raises e)) \<or>
       (\<exists>t s1 obs1 s2 o1 obs2 o2 rest.
           target (self w) = Some t
         \<and> tr = session_searches (client (self w)) t (get_session_name (volume_id volume))
                @ handshake_log (client (self w)) t s1 obs1 s2 o1 obs2 @ Delete t o2 # rest
         \<and> handshake_states s1 obs1 s2 o1 obs2 o2
         \<and> ((rest = [] \<and> (\<exists>e. r = Raises e)) \<or>
            (\<exists>s3 others. rest = Delete (client (self w)) s3 # others
                \<and> state_of s3 = Some (Str ''idle'')))))"
proof -
  let ?c = "client (self w)"
  let ?sn = "get_session_name (volume_id volume)"
  from run [unfolded delete_volume_replica_phases] show ?thesis
  proof (cases rule: io_bind_cases)
    case (raised e)
    from lookup_sessions_trace [OF raised(1)] raised(2) show ?thesis by blast
  next
    case (returned p w1)
    obtain src tgt where p: "p = (src, tgt)" by (cases p)
    from lookup_sessions_trace [OF returned(1) [unfolded p]]
    obtain tr0 where s1: "self w1 = self w" and c0: "calls w1 = calls w @ tr0"
      and d0: "\<forall>src' tgt'. Returns (src, tgt) = Returns (src', tgt') \<longrightarrow>
                 fst src' = client (self w) \<and> target (self w) = Some (fst tgt')
                 \<and> tr0 = [Search (fst src') ''replication/sessions''
                            [(''name'', Str (get_session_name (volume_id volume)))],
                          Search (fst tgt') ''replication/sessions''
                            [(''name'', Str (get_rep_name (get_session_name (volume_id volume))))]]"
      by blast
    from d0 [rule_format, OF refl] c0
    have fs: "fst src = ?c" and ft: "target (self w) = Some (fst tgt)"
      and c1: "calls w1 = calls w @ session_searches ?c (fst tgt) ?sn"
      by (simp_all add: session_searches_def)
    from returned(2) p have
      "io_bind (handshake src tgt) (\<lambda>(src_ssn, tgt_ssn).
         io_then (delete tgt_ssn) (io_then (delete src_ssn)
           (remove_replica_objects vg_name vol_name))) w1 = Some (r, w')"
      by simp
    then show ?thesis
    proof (cases rule: io_bind_cases)
      case (raised e)
      from handshake_trace [OF raised(1)] obtain tr where
        "calls w' = calls w1 @ tr" "no_delete tr"
        by blast
      with c1 have "calls w' = calls w @ session_searches ?c (fst tgt) ?sn @ tr"
        and "no_delete (session_searches ?c (fst tgt) ?sn @ tr)"
        by (simp_all add: session_searches_def)
      with raised(2) show ?thesis by blast
    next
      case (returned q w2)
      obtain src' tgt' where q: "q = (src', tgt')" by (cases q)
      from handshake_trace [OF returned(1) [unfolded q]]
      obtain tr1 where s2: "self w2 = self w1" and c2': "calls w2 = calls w1 @ tr1"
        and d1: "\<forall>src'' tgt''. Returns (src', tgt') = Returns (src'', tgt'') \<longrightarrow>
                 fst src'' = fst src \<and> fst tgt'' = fst tgt
                 \<and> state_of (snd src'') = Some (Str ''idle'')
                 \<and> (\<exists>s1 obs1 s2 o1 obs2.
                      tr1 = handshake_log (fst src) (fst tgt) s1 obs1 s2 o1 obs2
                      \<and> handshake_states s1 obs1 s2 o1 obs2 (snd tgt''))"
        by blast
      from d1 [rule_format, OF refl] fs c2'
      obtain k1 obs1 k2 o1 obs2 where fs': "fst src' = ?c" and ft': "fst tgt' = fst tgt"
        and i2: "state_of (snd src') = Some (Str ''idle'')"
        and c2: "calls w2 = calls w1 @ handshake_log ?c (fst tgt) k1 obs1 k2 o1 obs2"
        and hs: "handshake_states k1 obs1 k2 o1 obs2 (snd tgt')"
        by auto
      let ?pre = "session_searches ?c (fst tgt) ?sn
                    @ handshake_log ?c (fst tgt) k1 obs1 k2 o1 obs2"
      have shape: ?thesis
        if w': "calls w' = calls w @ ?pre @ Delete (fst tgt) (snd tgt') # rest"
          and rest: "(rest = [] \<and> (\<exists>e. r = Raises e))
                     \<or> (\<exists>others. rest = Delete ?c (snd src') # others)"
        for rest
      proof -
        from rest i2 have rest': "(rest = [] \<and> (\<exists>e. r = Raises e))
            \<or> (\<exists>s3 others. rest = Delete ?c s3 # others \<and> state_of s3 = Some (Str ''idle''))"
          by blast
        have inner: "\<exists>t s1 obs1 s2 o1 obs2 o2 rest'.
              target (self w) = Some t
            \<and> ?pre @ Delete (fst tgt) (snd tgt') # rest = session_searches ?c t ?sn
                   @ handshake_log ?c t s1 obs1 s2 o1 obs2 @ Delete t o2 # rest'
            \<and> handshake_states s1 obs1 s2 o1 obs2 o2
            \<and> ((rest' = [] \<and> (\<exists>e. r = Raises e))
               \<or> (\<exists>s3 others. rest' = Delete ?c s3 # others
                     \<and> state_of s3 = Some (Str ''idle'')))"
          apply (rule exI [of _ "fst tgt"], rule exI [of _ k1], rule exI [of _ obs1])
          apply (rule exI [of _ k2], rule exI [of _ o1], rule exI [of _ obs2])
          apply (rule exI [of _ "snd tgt'"], rule exI [of _ rest])
          apply (intro conjI ft hs rest')
          apply simp
          done
        show ?thesis
          by (rule exI [of _ "?pre @ Delete (fst tgt) (snd tgt') # rest"], rule conjI, rule w',
              rule disjI2, rule inner)
      qed
      from returned(2) q have
        "io_then (delete tgt') (io_then (delete src')
           (remove_replica_objects vg_name vol_name)) w2 = Some (r, w')"
        by simp
      then show ?thesis
      proof (cases rule: io_then_cases)
        case (raised e)
        from delete_cases [OF raised(1)] c1 c2 ft'
        have "calls w' = calls w @ ?pre @ Delete (fst tgt) (snd tgt') # []" by simp
        then show ?thesis by (rule shape) (simp add: raised(2))
      next
        case (returned u w3)
        from delete_cases [OF returned(1)] c1 c2 ft'
        have c3: "calls w3 = calls w @ ?pre @ [Delete (fst tgt) (snd tgt')]" by simp
        from returned(2) show ?thesis
        proof (cases rule: io_then_cases)
          case (raised e)
          from delete_cases [OF raised(1)] c3 fs'
          have "calls w' = calls w @ ?pre @ Delete (fst tgt) (snd tgt') # [Delete ?c (snd src')]"
            by simp
          then show ?thesis by (rule shape) simp
        next
          case (returned u' w4)
          from delete_cases [OF returned(1)] c3 fs'
          have c4: "calls w4 = calls w @ ?pre @ [Delete (fst tgt) (snd tgt'), Delete ?c (snd src')]"
            by simp
          from remove_replica_objects_appends [OF returned(2)] obtain cs where
            "calls w' = calls w4 @ cs" by blast
          with c4 have "calls w' = calls w @ ?pre
              @ Delete (fst tgt) (snd tgt') # (Delete ?c (snd src') # cs)"
            by simp
          then show ?thesis by (rule shape) simp
        qed
      qed
    qed
  qed
qed

text \<open>
  Claim C2. An outcome of \<^verbatim>\<open>_delete_volume_replica\<close> is of one of three kinds. It is a raise
  that has logged no deletion. Or its log is: the two searches for the sessions; the save
  of the source session in state \<^verbatim>\<open>suspended\<close>; the polling of the target session, a re-fetch
  and a sleep of one second for each reading that is not \<^verbatim>\<open>suspended\<close>, up to a reading that
  is; the save of the source session in state \<^verbatim>\<open>idle\<close>; the polling of the target session
  in the same way, up to a reading that is \<^verbatim>\<open>idle\<close>; the deletion of the target session; and
  then either nothing more, the outcome being a raise, or the deletion of the source
  session, followed by the rest of the teardown. So a teardown that returns has saved the
  two states, polled after each and then deleted the target and the source session, in
  this order, and no execution deletes a session before the target session was read as
  \<^verbatim>\<open>suspended\<close> and then as \<^verbatim>\<open>idle\<close>. And on a pair that mirrors, when no call fails, the
  teardown does return, with this whole sequence in its log.
\<close>

theorem delete_volume_replica_handshake:
  "(\<forall>r w'. delete_volume_replica volume vg_name vol_name w = Some (r, w') \<longrightarrow>
      (\<exists>tr. calls w' = calls w @ tr \<and>
        ((no_delete tr \<and> (\<exists>e. r = Raises e)) \<or>
         (\<exists>t s1 obs1 s2 o1 obs2 o2 rest.
             target (self w) = Some t
           \<and> tr = session_searches (client (self w)) t (get_session_name (volume_id volume))
                  @ handshake_log (client (self w)) t s1 obs1 s2 o1 obs2 @ Delete t o2 # rest
           \<and> handshake_states s1 obs1 s2 o1 obs2 o2
           \<and> ((rest = [] \<and> (\<exists>e. r = Raises e)) \<or>
              (\<exists>s3 others. rest = Delete (client (self w)) s3 # others
                  \<and> state_of s3 = Some (Str ''idle'')))))))
   \<and> (mirroring_pair volume w \<longrightarrow>
        (\<exists>w' tr t s1 obs1 s2 o1 obs2 o2 s3 others.
            delete_volume_replica volume vg_name vol_name w = Some (Returns (), w')
          \<and> calls w' = calls w @ tr
          \<and> target (self w) = Some t
          \<and> tr = session_searches (client (self w)) t (get_session_name (volume_id volume))
                 @ handshake_log (client (self w)) t s1 obs1 s2 o1 obs2
                 @ Delete t o2 # Delete (client (self w)) s3 # others
          \<and> handshake_states s1 obs1 s2 o1 obs2 o2
          \<and> state_of s3 = Some (Str ''idle'')))"
proof (intro conjI allI impI)
  fix r w'
  assume "delete_volume_replica volume vg_name vol_name w = Some (r, w')"
  then show "\<exists>tr. calls w' = calls w @ tr \<and>
      ((no_delete tr \<and> (\<exists>e. r = Raises e)) \<or>
       (\<exists>t s1 obs1 s2 o1 obs2 o2 rest.
           target (self w) = Some t
         \<and> tr = session_searches (client (self w)) t (get_session_name (volume_id volume))
                @ handshake_log (client (self w)) t s1 obs1 s2 o1 obs2 @ Delete t o2 # rest
         \<and> handshake_states s1 obs1 s2 o1 obs2 o2
         \<and> ((rest = [] \<and> (\<exists>e. r = Raises e)) \<or>
            (\<exists>s3 others. rest = Delete (client (self w)) s3 # others
                \<and> state_of s3 = Some (Str ''idle'')))))"
    by (rule delete_volume_replica_outcomes)
next
  assume mp: "mirroring_pair volume w"
  show "\<exists>w' tr t s1 obs1 s2 o1 obs2 o2 s3 others.
            delete_volume_replica volume vg_name vol_name w = Some (Returns (), w')
          \<and> calls w' = calls w @ tr
          \<and> target (self w) = Some t
          \<and> tr = session_searches (client (self w)) t (get_session_name (volume_id volume))
                 @ handshake_log (client (self w)) t s1 obs1 s2 o1 obs2
                 @ Delete t o2 # Delete (client (self w)) s3 # others
          \<and> handshake_states s1 obs1 s2 o1 obs2 o2
          \<and> state_of s3 = Some (Str ''idle'')"
  proof -
    from delete_volume_replica_returns [OF mp] obtain w' where
      run: "delete_volume_replica volume vg_name vol_name w = Some (Returns (), w')"
      by blast
    have ne: "(outcome.Returns () :: (exn, unit) outcome) \<noteq> Raises e" for e by simp
    from delete_volume_replica_outcomes [OF run] obtain tr where
      c: "calls w' = calls w @ tr"
      and d: "(no_delete tr \<and> (\<exists>e. (Returns () :: (exn, unit) outcome) = Raises e)) \<or>
     (\<exists>t s1 obs1 s2 o1 obs2 o2 rest.
         target (self w) = Some t
       \<and> tr = session_searches (client (self w)) t (get_session_name (volume_id volume))
              @ handshake_log (client (self w)) t s1 obs1 s2 o1 obs2 @ Delete t o2 # rest
       \<and> handshake_states s1 obs1 s2 o1 obs2 o2
       \<and> ((rest = [] \<and> (\<exists>e. (Returns () :: (exn, unit) outcome) = Raises e)) \<or>
          (\<exists>s3 others. rest = Delete (client (self w)) s3 # others
              \<and> state_of s3 = Some (Str ''idle''))))"
      by blast
    from d ne obtain t s1 obs1 s2 o1 obs2 o2 s3 others where
      "target (self w) = Some t"
      "tr = session_searches (client (self w)) t (get_session_name (volume_id volume))
              @ handshake_log (client (self w)) t s1 obs1 s2 o1 obs2
              @ Delete t o2 # Delete (client (self w)) s3 # others"
      "handshake_states s1 obs1 s2 o1 obs2 o2" "state_of s3 = Some (Str ''idle'')"
      by blast
    with run c show ?thesis by blast
  qed
qed

lemma lookup_oid_map:
  assumes "\<And>ob. oid (g ob) = oid ob"
  shows "lookup_oid j (map g objs) = map_option g (lookup_oid j objs)"
  by (induction objs) (auto simp: lookup_oid_def assms)

lemma mirrors_mirror_state: "mirrors i j (mirror_state i j)"
  unfolding mirrors_def
proof (intro allI conjI impI)
  fix n s t
  show "lookup_oid i (fst (mirror_state i j n (s, t))) = lookup_oid i s"
    by (simp add: mirror_state_def split: option.splits)
next
  fix n s t so v ob
  assume a: "lookup_oid i s = Some so \<and> state_of so = Some v \<and> lookup_oid j t = Some ob"
  let ?g = "\<lambda>ob. if oid ob = j then snd (setattr (Target, ob) ''state'' v) else ob"
  have "oid (?g x) = oid x" for x by simp
  then have "lookup_oid j (map ?g t) = map_option ?g (lookup_oid j t)" by (rule lookup_oid_map)
  moreover from a have "oid ob = j" by (auto dest: lookup_oid_oid)
  ultimately have "lookup_oid j (map ?g t) = Some (snd (setattr (Target, ob) ''state'' v))"
    using a by simp
  with a show "\<exists>ob'. lookup_oid j (snd (mirror_state i j n (s, t))) = Some ob'
      \<and> state_of ob' = Some v"
    by (simp add: mirror_state_def)
qed

lemma lagging_run:
  "delete_volume_replica (example_volume ''a1'') ''cvg-a1'' ''cv-a1'' lagging_world
     = Some (Returns (), torn_down_world)"
  by (simp add: delete_volume_replica_def check_for_status.simps torn_down_world_def
      lagging_world_def example_world_def example_driver_def example_volume_def
      source_session_def target_session_def mirror_state_def lookup_oid_def state_of_def
      session_searches_def handshake_log_def polling_def
      io_bind_def io_then_def io_return_def io_raise_def
      the_client_def the_target_def search_def save_def delete_def refresh_def sleep_def
      rest_call_def hits_of_def k2_of_def set_k2_def first_hit_def setattr_def
      delete_by_ref_def get_session_name_def get_rep_name_def Let_def)

lemma lagging_pair: "mirroring_pair (example_volume ''a1'') lagging_world"
  by (simp add: mirroring_pair_def lagging_world_def example_world_def example_driver_def
      example_volume_def source_session_def target_session_def quiet_from_def hits_of_def
      lookup_oid_def state_of_def get_session_name_def get_rep_name_def mirrors_mirror_state)

text \<open>
  On the lagging pair the teardown returns: the target session is re-fetched twice for
  each of the two states before it is deleted, and both arrays end without a session.
\<close>

theorem delete_volume_replica_handshake_witness:
  "mirroring_pair (example_volume ''a1'') lagging_world
   \<and> delete_volume_replica (example_volume ''a1'') ''cvg-a1'' ''cv-a1'' lagging_world
       = Some (Returns (), torn_down_world)
   \<and> (\<exists>tr t s1 obs1 s2 o1 obs2 o2 s3 others.
          calls torn_down_world = calls lagging_world @ tr
        \<and> target (self lagging_world) = Some t
        \<and> tr = session_searches (client (self lagging_world)) t
                 (get_session_name (volume_id (example_volume ''a1'')))
               @ handshake_log (client (self lagging_world)) t s1 obs1 s2 o1 obs2
               @ Delete t o2 # Delete (client (self lagging_world)) s3 # others
        \<and> handshake_states s1 obs1 s2 o1 obs2 o2
        \<and> state_of s3 = Some (Str ''idle''))
   \<and> source_k2 torn_down_world = [] \<and> target_k2 torn_down_world = []"
proof -
  from delete_volume_replica_handshake
         [of "example_volume ''a1''" "''cvg-a1''" "''cv-a1''" lagging_world]
       lagging_pair
  obtain w' tr t s1 obs1 s2 o1 obs2 o2 s3 others where
    run: "delete_volume_replica (example_volume ''a1'') ''cvg-a1'' ''cv-a1'' lagging_world
            = Some (Returns (), w')"
    and shape: "calls w' = calls lagging_world @ tr" "target (self lagging_world) = Some t"
      "tr = session_searches (client (self lagging_world)) t
                 (get_session_name (volume_id (example_volume ''a1'')))
               @ handshake_log (client (self lagging_world)) t s1 obs1 s2 o1 obs2
               @ Delete t o2 # Delete (client (self lagging_world)) s3 # others"
      "handshake_states s1 obs1 s2 o1 obs2 o2" "state_of s3 = Some (Str ''idle'')"
    by blast
  from run lagging_run have "w' = torn_down_world" by simp
  with shape have "\<exists>tr t s1 obs1 s2 o1 obs2 o2 s3 others.
          calls torn_down_world = calls lagging_world @ tr
        \<and> target (self lagging_world) = Some t
        \<and> tr = session_searches (client (self lagging_world)) t
                 (get_session_name (volume_id (example_volume ''a1'')))
               @ handshake_log (client (self lagging_world)) t s1 obs1 s2 o1 obs2
               @ Delete t o2 # Delete (client (self lagging_world)) s3 # others
        \<and> handshake_states s1 obs1 s2 o1 obs2 o2
        \<and> state_of s3 = Some (Str ''idle'')"
    by blast
  moreover have "source_k2 torn_down_world = []" "target_k2 torn_down_world = []"
    by (simp_all add: torn_down_world_def)
  ultimately show ?thesis using lagging_pair lagging_run by (intro conjI)
qed

end
